theory Spec2Isabelle
  imports Complex_Main "HOL-Library.AList"
begin

section \<open>Numbers\<close>

text \<open>
  A quantity is a JavaScript number, an IEEE 754 double.  A finite double is the rational
  it denotes (\<open>Num\<close>); the two zeros are one value, as no operation used here tells
  \<open>-0\<close> from \<open>0\<close>.  \<open>Null\<close> is what \<open>JSON.parse\<close> returns where \<open>JSON.stringify\<close> wrote
  \<open>null\<close> for \<open>NaN\<close> or an infinity: at run time a field of type \<open>number\<close> can hold it,
  and every operator below converts it by \<open>ToNumber\<close>, to 0.
\<close>

datatype number = Num rat | NaN | PosInfinity | NegInfinity | Null

text \<open>The real value of a finite operand after \<open>ToNumber\<close>.\<close>

definition finiteValue :: "number \<Rightarrow> rat" where
  "finiteValue x = (case x of Num q \<Rightarrow> q | _ \<Rightarrow> 0)"

text \<open>
  \<open>Number::lessThan\<close> on the operands after \<open>ToNumber\<close>; \<open>None\<close> is the result
  \<open>undefined\<close>, which every comparison operator reads as \<open>false\<close>.
\<close>

fun lessThanNumber :: "number \<Rightarrow> number \<Rightarrow> bool option" where
  "lessThanNumber NaN y = None"
| "lessThanNumber x NaN = None"
| "lessThanNumber PosInfinity y = Some False"
| "lessThanNumber x PosInfinity = Some True"
| "lessThanNumber x NegInfinity = Some False"
| "lessThanNumber NegInfinity y = Some True"
| "lessThanNumber x y = Some (finiteValue x < finiteValue y)"

text \<open>The operators \<open>x < y\<close>, \<open>x > y\<close>, \<open>x <= y\<close> and \<open>x >= y\<close>.\<close>

definition jsLess :: "number \<Rightarrow> number \<Rightarrow> bool" where
  "jsLess x y = (lessThanNumber x y = Some True)"

definition jsGreater :: "number \<Rightarrow> number \<Rightarrow> bool" where
  "jsGreater x y = (lessThanNumber y x = Some True)"

definition jsLessEq :: "number \<Rightarrow> number \<Rightarrow> bool" where
  "jsLessEq x y = (lessThanNumber y x = Some False)"

definition jsGreaterEq :: "number \<Rightarrow> number \<Rightarrow> bool" where
  "jsGreaterEq x y = (lessThanNumber x y = Some False)"

text \<open>A number in a condition, and \<open>x || y\<close>: 0, \<open>NaN\<close> and \<open>null\<close> are falsy.\<close>

definition numberTruthy :: "number \<Rightarrow> bool" where
  "numberTruthy x = (case x of Num q \<Rightarrow> q \<noteq> 0 | NaN \<Rightarrow> False | Null \<Rightarrow> False | _ \<Rightarrow> True)"

definition orElse :: "number \<Rightarrow> number \<Rightarrow> number" where
  "orElse x y = (if numberTruthy x then x else y)"

text \<open>
  The double nearest to a rational, ties to the even significand.  A double has a
  significand of 53 bits and an exponent from -1022 (which the subnormal numbers share)
  to 1023; a result beyond the largest double is an infinity.  \<open>bitLength n\<close> is the
  number of binary digits of \<open>n\<close>, and \<open>floorLog2 x\<close>, for \<open>x > 0\<close>, the exponent \<open>e\<close> with
  \<open>2 ^ e \<le> x < 2 ^ (e + 1)\<close>.
\<close>

function bitLength :: "int \<Rightarrow> int" where
  "bitLength n = (if n \<le> 0 then 0 else 1 + bitLength (n div 2))"
  by pat_completeness auto

termination bitLength
  by (relation "measure nat") auto

declare bitLength.simps [simp del]

definition floorLog2 :: "rat \<Rightarrow> int" where
  "floorLog2 x =
     (if 1 \<le> x then bitLength \<lfloor>x\<rfloor> - 1 else - bitLength (\<lceil>1 / x\<rceil> - 1))"

definition roundHalfEven :: "rat \<Rightarrow> int" where
  "roundHalfEven y =
     (let f = \<lfloor>y\<rfloor>; d = y - of_int f
      in if d < 1 / 2 then f else if 1 / 2 < d then f + 1 else if even f then f else f + 1)"

definition roundDouble :: "rat \<Rightarrow> number" where
  "roundDouble x =
     (if x = 0 then Num 0
      else
        (let e = max (floorLog2 \<bar>x\<bar>) (- 1022);
             ulp = 2 powi (e - 52);
             r = of_int (roundHalfEven (x / ulp)) * ulp
         in if 2 powi 1024 \<le> \<bar>r\<bar> then (if 0 < x then PosInfinity else NegInfinity)
            else Num r))"

text \<open>The operator \<open>x - y\<close>.\<close>

fun jsSubtract :: "number \<Rightarrow> number \<Rightarrow> number" where
  "jsSubtract NaN y = NaN"
| "jsSubtract x NaN = NaN"
| "jsSubtract PosInfinity PosInfinity = NaN"
| "jsSubtract NegInfinity NegInfinity = NaN"
| "jsSubtract PosInfinity y = PosInfinity"
| "jsSubtract NegInfinity y = NegInfinity"
| "jsSubtract x PosInfinity = NegInfinity"
| "jsSubtract x NegInfinity = PosInfinity"
| "jsSubtract x y = roundDouble (finiteValue x - finiteValue y)"

text \<open>\<open>Math.floor(x)\<close> and \<open>Math.max(x, y)\<close>.\<close>

definition mathFloor :: "number \<Rightarrow> number" where
  "mathFloor x = (case x of Num q \<Rightarrow> Num (of_int \<lfloor>q\<rfloor>) | Null \<Rightarrow> Num 0 | _ \<Rightarrow> x)"

definition mathMax :: "number \<Rightarrow> number \<Rightarrow> number" where
  "mathMax x y =
     (case lessThanNumber x y of
        None \<Rightarrow> NaN
      | Some below \<Rightarrow> (case (if below then y else x) of Null \<Rightarrow> Num 0 | z \<Rightarrow> z))"

text \<open>
  A number after \<open>JSON.stringify\<close> and \<open>JSON.parse\<close>: a finite double is written with the
  digits that read back as the same double, and \<open>NaN\<close> and the infinities are written as
  \<open>null\<close>.
\<close>

definition jsonNumber :: "number \<Rightarrow> number" where
  "jsonNumber x = (case x of Num q \<Rightarrow> Num q | _ \<Rightarrow> Null)"

section \<open>Data model (src/lib/types.ts, src/lib/order.ts, src/lib/orders.ts)\<close>

text \<open>
  Identifiers (seller ids, blueprint ids, order ids) and names are \<open>string\<close>s: the code
  only compares them, tests them for emptiness and, for order ids, replaces characters.
  Free text of the buyer (offer, notes, nick) is a list of UTF-16 code units, which is
  what \<open>String.prototype.trim\<close> works on.  Timestamps produced by
  \<open>new Date().toISOString()\<close> are integers (milliseconds): the code stores them and,
  in \<open>getAllOrders\<close>, orders by \<open>new Date(s).getTime()\<close>.  Quantities are \<open>number\<close>s.
\<close>

type_synonym jstext = "nat list"
type_synonym timestamp = int

datatype SellerStatus = PendingVerification | Active | Banned | Disabled

datatype OrderStatus = Open | InProgress | Completed | Closed | Cancelled

datatype ItemClaimStatus = Unclaimed | Claimed | Fulfilled

datatype SellerOrderStatus = SellerActive | SellerClosed

record SellerInventoryItem =
  item_blueprintId :: string
  quantity :: number

text \<open>SellerWithInventory extends Seller; \<open>seller_id\<close> is the field \<open>id\<close>.\<close>

record SellerWithInventory =
  seller_id :: string
  discordId :: string
  passwordHash :: string
  seller_status :: SellerStatus
  telegramChatId :: "string option"
  seller_createdAt :: timestamp
  updatedAt :: timestamp
  inventory :: "SellerInventoryItem list"

text \<open>The catalog entry; only \<open>id\<close> and \<open>name\<close> are read by the order code.\<close>

record Blueprint =
  bp_id :: string
  bp_name :: string

record GroupItem =
  g_blueprintId :: string
  g_blueprintName :: string
  g_requestedQty :: number
  g_available :: bool
  g_availableQty :: number

record SellerOrderGroup =
  group_sellerId :: string
  sellerDiscordId :: string
  sellerTelegramChatId :: "string option"
  group_items :: "GroupItem list"

record ProcessedOrder =
  orderId :: string
  buyerDiscordNick :: jstext
  offer :: jstext
  originalOffer :: jstext
  order_notes :: "jstext option"
  sellerGroups :: "SellerOrderGroup list"
  isMultiSeller :: bool
  sellerCount :: nat
  createdAt :: timestamp

record SellerOrderState =
  state_sellerId :: string
  state_status :: SellerOrderStatus
  state_closedAt :: "timestamp option"

record OrderItemClaim =
  blueprintId :: string
  blueprintName :: string
  requestedQty :: number
  claimStatus :: ItemClaimStatus
  claimedBySellerId :: "string option"
  claimedBySellerDiscordId :: "string option"
  claimedQuantity :: "number option"
  claimedAt :: "timestamp option"
  fulfilledAt :: "timestamp option"

record StoredOrder = ProcessedOrder +
  sellerIds :: "string list"
  status :: OrderStatus
  assignedSellerId :: "string option"
  assignedSellerDiscordId :: "string option"
  assignedAt :: "timestamp option"
  itemClaims :: "OrderItemClaim list"
  sellerStates :: "SellerOrderState list option"
  closedAt :: "timestamp option"
  closedBySellerId :: "string option"

text \<open>
  An order file as \<open>JSON.parse\<close> returns it.  Files written by an older version may lack
  the keys \<open>status\<close> and \<open>itemClaims\<close>; the two flags say whether the key is present
  (truthy), and the corresponding field of \<open>content\<close> is read only when it is.
\<close>

record OrderFile =
  content :: StoredOrder
  hasStatus :: bool
  hasItemClaims :: bool

record ViewItem =
  vitem_blueprintId :: string
  vitem_blueprintName :: string
  vitem_requestedQty :: number
  vitem_available :: bool
  vitem_availableQty :: number
  vitem_claimStatus :: ItemClaimStatus
  vitem_claimedByMe :: bool
  vitem_claimedBySellerId :: "string option"
  vitem_claimedBySellerDiscordId :: "string option"
  vitem_claimedQuantity :: "number option"

record SellerOrderView =
  view_orderId :: string
  view_buyerDiscordNick :: jstext
  view_offer :: jstext
  view_notes :: "jstext option"
  view_isMultiSeller :: bool
  view_createdAt :: timestamp
  view_status :: OrderStatus
  isAssignedToMe :: bool
  isClosedByMe :: bool
  view_items :: "ViewItem list"
  canAcceptFull :: bool
  claimableItemCount :: nat
  myClaimedItemCount :: nat

text \<open>
  The failure reasons of \<open>ClaimResult\<close>, one constructor per message of the source
  (the messages are Ukrainian text; the interpolated values are the arguments).
\<close>

datatype error =
    OrderNotFound
  | OrderAlreadyClosed
  | AcceptedByOtherSeller
  | NoPermission
  | ItemTakenByOther string
  | NotEnoughInInventory string number number
  | NothingToClaim
  | ItemNotFound
  | CannotFulfillItem
  | ItemAlreadyFulfilled
  | InsufficientStock number number
  | InventoryUpdateFailed
  | NothingToFulfill
  | InsufficientStockFor string number number
  | InventoryUpdateFailedFor string
  | AlreadyClosedBySeller
  | CannotCloseOrder
  | FulfillYourItemsFirst
  | CannotReleaseItem
  | CannotReleaseFulfilled

text \<open>\<open>ClaimResult\<close>: \<open>{success: false, error}\<close> or \<open>{success: true, claimedItems?}\<close>.\<close>

datatype ClaimResult = Failure error | Success "string list option"

text \<open>
  What \<open>JSON.parse (JSON.stringify v)\<close> is for the records that are written to files:
  every number goes through \<open>jsonNumber\<close>; strings, booleans, arrays and optional
  fields that are absent are as they were.
\<close>

definition jsonInventoryItem :: "SellerInventoryItem \<Rightarrow> SellerInventoryItem" where
  "jsonInventoryItem item = item\<lparr>quantity := jsonNumber (quantity item)\<rparr>"

definition jsonSeller :: "SellerWithInventory \<Rightarrow> SellerWithInventory" where
  "jsonSeller seller = seller\<lparr>inventory := map jsonInventoryItem (inventory seller)\<rparr>"

definition jsonGroupItem :: "GroupItem \<Rightarrow> GroupItem" where
  "jsonGroupItem item =
     item\<lparr>g_requestedQty := jsonNumber (g_requestedQty item),
          g_availableQty := jsonNumber (g_availableQty item)\<rparr>"

definition jsonGroup :: "SellerOrderGroup \<Rightarrow> SellerOrderGroup" where
  "jsonGroup grp = grp\<lparr>group_items := map jsonGroupItem (group_items grp)\<rparr>"

definition jsonItemClaim :: "OrderItemClaim \<Rightarrow> OrderItemClaim" where
  "jsonItemClaim claim =
     claim\<lparr>requestedQty := jsonNumber (requestedQty claim),
           claimedQuantity := map_option jsonNumber (claimedQuantity claim)\<rparr>"

definition jsonOrder :: "StoredOrder \<Rightarrow> StoredOrder" where
  "jsonOrder order =
     order\<lparr>sellerGroups := map jsonGroup (sellerGroups order),
           itemClaims := map jsonItemClaim (itemClaims order)\<rparr>"

section \<open>The durable store (src/lib/safe-file.ts)\<close>

text \<open>
  The two data directories, one JSON file per entity, in directory order and keyed by
  the file's base name.  \<open>safeReadJson\<close> returns \<open>null\<close> when the file is missing or when
  reading or parsing throws.  An operation reads the order file once, at its start, so
  a failed read there is the branch of the missing file.  A seller file is read many
  times during one operation; \<open>readFaults\<close> is the outcome of the coming reads of seller
  files (\<open>True\<close>: the read fails), and the empty list means that every read succeeds.
  Writes succeed (\<open>safeWriteJson\<close> throws otherwise, and the exception ends the
  operation); what a write leaves in the file is the \<open>JSON.stringify\<close> of the object,
  so the world holds its JSON image.  \<open>localeCompare\<close> is the collation \<open>getAllSellers\<close> sorts with, and
  \<open>blueprintCatalog\<close> the catalog that \<open>getAllBlueprints\<close> reads.
\<close>

record world =
  orderFiles :: "(string \<times> OrderFile) list"
  sellerFiles :: "(string \<times> SellerWithInventory) list"
  readFaults :: "bool list"
  blueprintCatalog :: "Blueprint list"
  localeCompare :: "string \<Rightarrow> string \<Rightarrow> int"

definition safeReadSeller :: "string \<Rightarrow> world \<Rightarrow> SellerWithInventory option \<times> world" where
  "safeReadSeller file w =
     (case readFaults w of
        [] \<Rightarrow> (map_of (sellerFiles w) file, w)
      | failed # later \<Rightarrow>
          (if failed then None else map_of (sellerFiles w) file, w\<lparr>readFaults := later\<rparr>))"

definition safeWriteSeller :: "string \<Rightarrow> SellerWithInventory \<Rightarrow> world \<Rightarrow> world" where
  "safeWriteSeller file seller w =
     w\<lparr>sellerFiles := AList.update file (jsonSeller seller) (sellerFiles w)\<rparr>"

definition safeReadOrder :: "string \<Rightarrow> world \<Rightarrow> OrderFile option" where
  "safeReadOrder file w = map_of (orderFiles w) file"

definition safeWriteOrder :: "string \<Rightarrow> OrderFile \<Rightarrow> world \<Rightarrow> world" where
  "safeWriteOrder file order_file w =
     w\<lparr>orderFiles :=
         AList.update file (order_file\<lparr>content := jsonOrder (content order_file)\<rparr>) (orderFiles w)\<rparr>"

text \<open>
  \<open>withFileLock\<close> runs its callback alone on the order's file, and every callback of
  src/lib/orders.ts is synchronous: an operation is a function from world to world.
\<close>

section \<open>Array helpers\<close>

text \<open>\<open>splice(findIndex(p), 1)\<close> when the index is found.\<close>

fun removeFirst :: "('a \<Rightarrow> bool) \<Rightarrow> 'a list \<Rightarrow> 'a list" where
  "removeFirst p [] = []"
| "removeFirst p (x # xs) = (if p x then xs else x # removeFirst p xs)"

text \<open>Assignment to the fields of the object that \<open>find(p)\<close> returned.\<close>

fun updateFirst :: "('a \<Rightarrow> bool) \<Rightarrow> ('a \<Rightarrow> 'a) \<Rightarrow> 'a list \<Rightarrow> 'a list" where
  "updateFirst p f [] = []"
| "updateFirst p f (x # xs) = (if p x then f x # xs else x # updateFirst p f xs)"

text \<open>\<open>Array.prototype.sort\<close> with a comparator: a stable sort.\<close>

fun insertBy :: "('a \<Rightarrow> 'a \<Rightarrow> int) \<Rightarrow> 'a \<Rightarrow> 'a list \<Rightarrow> 'a list" where
  "insertBy cmp x [] = [x]"
| "insertBy cmp x (y # ys) = (if cmp x y \<le> 0 then x # y # ys else y # insertBy cmp x ys)"

definition sortBy :: "('a \<Rightarrow> 'a \<Rightarrow> int) \<Rightarrow> 'a list \<Rightarrow> 'a list" where
  "sortBy cmp xs = foldr (insertBy cmp) xs []"

text \<open>A string or an optional string in a condition: \<open>undefined\<close> and \<open>""\<close> are falsy.\<close>

definition truthy :: "string option \<Rightarrow> bool" where
  "truthy s = (case s of None \<Rightarrow> False | Some v \<Rightarrow> v \<noteq> [])"

section \<open>Sellers and inventory (src/lib/sellers.ts)\<close>

definition canSellerReceiveOrders :: "SellerWithInventory \<Rightarrow> bool" where
  "canSellerReceiveOrders seller = (seller_status seller = Active)"

definition getSellerById :: "string \<Rightarrow> world \<Rightarrow> SellerWithInventory option \<times> world" where
  "getSellerById sellerId w = safeReadSeller sellerId w"

text \<open>\<open>item?.quantity || 0\<close> for the first entry of the blueprint.\<close>

definition inventoryQuantity :: "SellerInventoryItem list \<Rightarrow> string \<Rightarrow> number" where
  "inventoryQuantity entries bid =
     (case find (\<lambda>i. item_blueprintId i = bid) entries of
        None \<Rightarrow> Num 0
      | Some item \<Rightarrow> orElse (quantity item) (Num 0))"

definition getSellerBlueprintQuantity :: "string \<Rightarrow> string \<Rightarrow> world \<Rightarrow> number \<times> world" where
  "getSellerBlueprintQuantity sellerId bid w =
     (case getSellerById sellerId w of
        (None, w1) \<Rightarrow> (Num 0, w1)
      | (Some seller, w1) \<Rightarrow> (inventoryQuantity (inventory seller) bid, w1))"

text \<open>
  The inventory after \<open>updateSellerInventoryItem\<close>: \<open>qty = Math.max(0, Math.floor(quantity))\<close>,
  then remove (\<open>qty === 0\<close>), overwrite or append.
\<close>

definition setInventoryEntry ::
  "string \<Rightarrow> number \<Rightarrow> SellerInventoryItem list \<Rightarrow> SellerInventoryItem list" where
  "setInventoryEntry bid qty0 entries =
     (let qty = mathMax (Num 0) (mathFloor qty0);
          existing = find (\<lambda>i. item_blueprintId i = bid) entries
      in if qty = Num 0 then (if existing \<noteq> None then removeFirst (\<lambda>i. item_blueprintId i = bid) entries else entries)
         else if existing \<noteq> None
           then updateFirst (\<lambda>i. item_blueprintId i = bid) (\<lambda>i. i\<lparr>quantity := qty\<rparr>) entries
         else entries @ [\<lparr>item_blueprintId = bid, quantity = qty\<rparr>])"

definition updateSellerInventoryItem ::
  "timestamp \<Rightarrow> string \<Rightarrow> string \<Rightarrow> number \<Rightarrow> world \<Rightarrow> bool \<times> world" where
  "updateSellerInventoryItem now sellerId bid qty0 w =
     (case getSellerById sellerId w of
        (None, w1) \<Rightarrow> (False, w1)
      | (Some seller, w1) \<Rightarrow>
          (True, safeWriteSeller sellerId
             (seller\<lparr>inventory := setInventoryEntry bid qty0 (inventory seller), updatedAt := now\<rparr>) w1))"

fun updateSellerInventoryBulkLoop ::
  "(string \<times> number) list \<Rightarrow> SellerInventoryItem list \<Rightarrow> SellerInventoryItem list" where
  "updateSellerInventoryBulkLoop [] entries = entries"
| "updateSellerInventoryBulkLoop ((bid, qty0) # updates) entries =
     updateSellerInventoryBulkLoop updates (setInventoryEntry bid qty0 entries)"

definition updateSellerInventoryBulk ::
  "timestamp \<Rightarrow> string \<Rightarrow> (string \<times> number) list \<Rightarrow> world \<Rightarrow> bool \<times> world" where
  "updateSellerInventoryBulk now sellerId updates w =
     (case getSellerById sellerId w of
        (None, w1) \<Rightarrow> (False, w1)
      | (Some seller, w1) \<Rightarrow>
          (True, safeWriteSeller sellerId
             (seller\<lparr>inventory := updateSellerInventoryBulkLoop updates (inventory seller),
                     updatedAt := now\<rparr>) w1))"

text \<open>
  \<open>getAllSellers\<close>: every file of the directory is read; a file that cannot be read, or
  whose \<open>id\<close> or \<open>discordId\<close> is empty, is skipped; the result is sorted by \<open>discordId\<close>.
\<close>

fun readSellerFiles :: "string list \<Rightarrow> world \<Rightarrow> SellerWithInventory list \<times> world" where
  "readSellerFiles [] w = ([], w)"
| "readSellerFiles (file # files) w =
     (case safeReadSeller file w of
        (None, w1) \<Rightarrow> readSellerFiles files w1
      | (Some seller, w1) \<Rightarrow>
          (case readSellerFiles files w1 of
             (sellers, w2) \<Rightarrow>
               (if seller_id seller \<noteq> [] \<and> discordId seller \<noteq> [] then seller # sellers else sellers, w2)))"

definition getAllSellers :: "world \<Rightarrow> SellerWithInventory list \<times> world" where
  "getAllSellers w =
     (case readSellerFiles (map fst (sellerFiles w)) w of
        (sellers, w1) \<Rightarrow>
          (sortBy (\<lambda>a b. localeCompare w (discordId a) (discordId b)) sellers, w1))"

definition getActiveSellers :: "world \<Rightarrow> SellerWithInventory list \<times> world" where
  "getActiveSellers w =
     (case getAllSellers w of (sellers, w1) \<Rightarrow> (filter (\<lambda>s. seller_status s = Active) sellers, w1))"

section \<open>Order resolution (src/lib/sellers.ts, src/lib/order.ts)\<close>

text \<open>The inner loop of \<open>requiresMultipleSellers\<close>; an item is \<open>(blueprintId, quantity)\<close>.\<close>

fun canFulfillAll :: "SellerWithInventory \<Rightarrow> (string \<times> number) list \<Rightarrow> bool" where
  "canFulfillAll seller [] = True"
| "canFulfillAll seller ((bid, qty) # items) =
     (if jsLess (inventoryQuantity (inventory seller) bid) qty then False
      else canFulfillAll seller items)"

fun requiresMultipleSellersLoop :: "SellerWithInventory list \<Rightarrow> (string \<times> number) list \<Rightarrow> bool" where
  "requiresMultipleSellersLoop [] items = True"
| "requiresMultipleSellersLoop (seller # sellers) items =
     (if canFulfillAll seller items then False else requiresMultipleSellersLoop sellers items)"

definition requiresMultipleSellers :: "(string \<times> number) list \<Rightarrow> world \<Rightarrow> bool \<times> world" where
  "requiresMultipleSellers items w =
     (case getActiveSellers w of
        (activeSellers, w1) \<Rightarrow> (requiresMultipleSellersLoop activeSellers items, w1))"

text \<open>
  \<open>resolveOrderToSellers\<close>; an item is \<open>(blueprintId, blueprintName, quantity)\<close>.  The
  \<open>Map\<close> of groups is an association list in insertion order.
\<close>

definition addToSellerGroup ::
  "SellerWithInventory \<Rightarrow> GroupItem \<Rightarrow> (string \<times> SellerOrderGroup) list \<Rightarrow> (string \<times> SellerOrderGroup) list" where
  "addToSellerGroup seller item groups =
     (case map_of groups (seller_id seller) of
        None \<Rightarrow>
          groups @ [(seller_id seller,
            \<lparr>group_sellerId = seller_id seller, sellerDiscordId = discordId seller,
             sellerTelegramChatId = telegramChatId seller, group_items = [item]\<rparr>)]
      | Some _ \<Rightarrow>
          updateFirst (\<lambda>kv. fst kv = seller_id seller)
            (\<lambda>kv. (fst kv, (snd kv)\<lparr>group_items := group_items (snd kv) @ [item]\<rparr>)) groups)"

fun resolveItemToSellers ::
  "string \<times> string \<times> number \<Rightarrow> SellerWithInventory list \<Rightarrow> (string \<times> SellerOrderGroup) list \<Rightarrow>
   (string \<times> SellerOrderGroup) list" where
  "resolveItemToSellers item [] groups = groups"
| "resolveItemToSellers (bid, name, qty) (seller # sellers) groups =
     (let availableQty = inventoryQuantity (inventory seller) bid
      in resolveItemToSellers (bid, name, qty) sellers
           (if jsGreater availableQty (Num 0)
            then addToSellerGroup seller
                   \<lparr>g_blueprintId = bid, g_blueprintName = name, g_requestedQty = qty,
                    g_available = jsGreaterEq availableQty qty, g_availableQty = availableQty\<rparr> groups
            else groups))"

fun resolveItems ::
  "(string \<times> string \<times> number) list \<Rightarrow> SellerWithInventory list \<Rightarrow> (string \<times> SellerOrderGroup) list \<Rightarrow>
   (string \<times> SellerOrderGroup) list" where
  "resolveItems [] sellers groups = groups"
| "resolveItems (item # items) sellers groups =
     resolveItems items sellers (resolveItemToSellers item sellers groups)"

definition resolveOrderToSellers ::
  "(string \<times> string \<times> number) list \<Rightarrow> world \<Rightarrow> SellerOrderGroup list \<times> world" where
  "resolveOrderToSellers items w =
     (case getActiveSellers w of
        (activeSellers, w1) \<Rightarrow> (map snd (resolveItems items activeSellers []), w1))"

text \<open>
  The code units that \<open>String.prototype.trim\<close> strips: WhiteSpace and LineTerminator of
  the ECMAScript grammar.
\<close>

definition isWhiteSpace :: "nat \<Rightarrow> bool" where
  "isWhiteSpace c =
     (c \<in> {9, 10, 11, 12, 13, 32, 160, 5760, 8232, 8233, 8239, 8287, 12288, 65279}
      \<or> (8192 \<le> c \<and> c \<le> 8202))"

definition trim :: "jstext \<Rightarrow> jstext" where
  "trim s = rev (dropWhile isWhiteSpace (rev (dropWhile isWhiteSpace s)))"

text \<open>\<open>MULTI_SELLER_OFFER_MESSAGE\<close>, a Ukrainian sentence, as its UTF-16 code units.\<close>

definition MULTI_SELLER_OFFER_MESSAGE :: jstext where
  "MULTI_SELLER_OFFER_MESSAGE =
    [1062, 1077, 32, 1079, 1072, 1084, 1086, 1074, 1083, 1077, 1085, 1085, 1103, 32, 1074,
     1082, 1083, 1102, 1095, 1072, 1108, 32, 1082, 1110, 1083, 1100, 1082, 1086, 1093, 32,
     1087, 1088, 1086, 1076, 1072, 1074, 1094, 1110, 1074, 46, 32, 1062, 1110, 1085, 1072,
     47, 1091, 1084, 1086, 1074, 1080, 32, 1084, 1072, 1102, 1090, 1100, 32, 1073, 1091,
     1090, 1080, 32, 1091, 1079, 1075, 1086, 1076, 1078, 1077, 1085, 1110, 32, 1074, 32,
     1087, 1088, 1080, 1074, 1072, 1090, 1085, 1080, 1093, 32, 1087, 1086, 1074, 1110,
     1076, 1086, 1084, 1083, 1077, 1085, 1085, 1103, 1093, 32, 40, 68, 77, 41, 46]"

record OrderItem =
  oi_id :: string
  oi_name :: string
  oi_quantity :: number

record OrderRequest =
  req_discordNick :: jstext
  req_offer :: jstext
  req_notes :: "jstext option"
  req_items :: "OrderItem list"


definition getBlueprintById :: "string \<Rightarrow> world \<Rightarrow> Blueprint option" where
  "getBlueprintById bid w = find (\<lambda>bp. bp_id bp = bid) (blueprintCatalog w)"

text \<open>
  \<open>processOrder\<close>; the generated order id and the creation time are arguments.
  \<open>blueprint?.name || item.name\<close>: the catalog name unless it is missing or empty.
\<close>

definition processOrder ::
  "string \<Rightarrow> timestamp \<Rightarrow> OrderRequest \<Rightarrow> world \<Rightarrow> ProcessedOrder \<times> world" where
  "processOrder newOrderId now request w =
     (let itemsWithNames =
            map (\<lambda>item.
                   (oi_id item,
                    (case getBlueprintById (oi_id item) w of
                       None \<Rightarrow> oi_name item
                     | Some bp \<Rightarrow> (if bp_name bp \<noteq> [] then bp_name bp else oi_name item)),
                    oi_quantity item))
              (req_items request)
      in case resolveOrderToSellers itemsWithNames w of
           (groups, w1) \<Rightarrow>
             (let itemsForCheck = map (\<lambda>item. (oi_id item, oi_quantity item)) (req_items request)
              in case requiresMultipleSellers itemsForCheck w1 of
                   (multi, w2) \<Rightarrow>
                     (let original = trim (req_offer request)
                      in (\<lparr>orderId = newOrderId,
                           buyerDiscordNick = trim (req_discordNick request),
                           offer = (if multi then MULTI_SELLER_OFFER_MESSAGE else original),
                           originalOffer = original,
                           order_notes = map_option trim (req_notes request),
                           sellerGroups = groups,
                           isMultiSeller = multi,
                           sellerCount = length groups,
                           createdAt = now\<rparr>, w2))))"

section \<open>Order storage (src/lib/orders.ts)\<close>

text \<open>\<open>orderId.replace(/[^a-zA-Z0-9-_]/g, "_")\<close>: the base name of the order's file.\<close>

definition isSafeIdChar :: "char \<Rightarrow> bool" where
  "isSafeIdChar c =
     (let n = (of_char c :: nat)
      in (97 \<le> n \<and> n \<le> 122) \<or> (65 \<le> n \<and> n \<le> 90) \<or> (48 \<le> n \<and> n \<le> 57) \<or> n = 45 \<or> n = 95)"

definition getOrderFilePath :: "string \<Rightarrow> string" where
  "getOrderFilePath oid = map (\<lambda>c. if isSafeIdChar c then c else CHR ''_'') oid"

definition unclaimedItem :: "GroupItem \<Rightarrow> OrderItemClaim" where
  "unclaimedItem item =
     \<lparr>blueprintId = g_blueprintId item, blueprintName = g_blueprintName item,
      requestedQty = g_requestedQty item, claimStatus = Unclaimed,
      claimedBySellerId = None, claimedBySellerDiscordId = None, claimedQuantity = None,
      claimedAt = None, fulfilledAt = None\<rparr>"

fun migrateGroupItems :: "GroupItem list \<Rightarrow> OrderItemClaim list \<Rightarrow> OrderItemClaim list" where
  "migrateGroupItems [] claims = claims"
| "migrateGroupItems (item # items) claims =
     migrateGroupItems items
       (if find (\<lambda>c. blueprintId c = g_blueprintId item) claims = None
        then claims @ [unclaimedItem item] else claims)"

fun migrateGroups :: "SellerOrderGroup list \<Rightarrow> OrderItemClaim list \<Rightarrow> OrderItemClaim list" where
  "migrateGroups [] claims = claims"
| "migrateGroups (grp # groups) claims =
     migrateGroups groups (migrateGroupItems (group_items grp) claims)"

definition migrateOrderIfNeeded :: "OrderFile \<Rightarrow> StoredOrder" where
  "migrateOrderIfNeeded order_file =
     (let order = content order_file;
          order1 = (if hasStatus order_file then order else order\<lparr>status := Open\<rparr>)
      in if hasItemClaims order_file then order1
         else order1\<lparr>itemClaims := migrateGroups (sellerGroups order1) []\<rparr>)"

text \<open>The loops of \<open>saveOrder\<close> over \<open>itemClaimsMap\<close>, a \<open>Map\<close> in insertion order.\<close>

fun saveOrderGroupItems ::
  "GroupItem list \<Rightarrow> (string \<times> OrderItemClaim) list \<Rightarrow> (string \<times> OrderItemClaim) list" where
  "saveOrderGroupItems [] claimsMap = claimsMap"
| "saveOrderGroupItems (item # items) claimsMap =
     saveOrderGroupItems items
       (if map_of claimsMap (g_blueprintId item) = None
        then claimsMap @ [(g_blueprintId item, unclaimedItem item)] else claimsMap)"

fun saveOrderGroups ::
  "SellerOrderGroup list \<Rightarrow> (string \<times> OrderItemClaim) list \<Rightarrow> (string \<times> OrderItemClaim) list" where
  "saveOrderGroups [] claimsMap = claimsMap"
| "saveOrderGroups (grp # groups) claimsMap =
     saveOrderGroups groups (saveOrderGroupItems (group_items grp) claimsMap)"

definition saveOrder :: "ProcessedOrder \<Rightarrow> world \<Rightarrow> StoredOrder \<times> world" where
  "saveOrder processedOrder w =
     (let storedOrder =
            ProcessedOrder.extend processedOrder
              (StoredOrder.fields
                 (map group_sellerId (sellerGroups processedOrder))
                 Open None None None
                 (map snd (saveOrderGroups (sellerGroups processedOrder) []))
                 None None None)
      in (storedOrder,
          safeWriteOrder (getOrderFilePath (orderId processedOrder))
            \<lparr>content = storedOrder, hasStatus = True, hasItemClaims = True\<rparr> w))"

definition getOrderById :: "string \<Rightarrow> world \<Rightarrow> StoredOrder option" where
  "getOrderById oid w = map_option migrateOrderIfNeeded (safeReadOrder (getOrderFilePath oid) w)"

text \<open>
  \<open>getAllOrders\<close>: files without an \<open>orderId\<close> are skipped; newest first.
\<close>

definition getAllOrders :: "world \<Rightarrow> StoredOrder list" where
  "getAllOrders w =
     sortBy (\<lambda>a b. createdAt b - createdAt a)
       (map migrateOrderIfNeeded
          (filter (\<lambda>order_file. orderId (content order_file) \<noteq> []) (map snd (orderFiles w))))"

definition updateOrder :: "StoredOrder \<Rightarrow> world \<Rightarrow> world" where
  "updateOrder order w =
     safeWriteOrder (getOrderFilePath (orderId order))
       \<lparr>content = order, hasStatus = True, hasItemClaims = True\<rparr> w"

section \<open>Seller order views (src/lib/orders.ts)\<close>

definition isOrderClosedBySeller :: "StoredOrder \<Rightarrow> string \<Rightarrow> bool" where
  "isOrderClosedBySeller order sellerId =
     (case sellerStates order of
        None \<Rightarrow> False
      | Some states \<Rightarrow>
          (case find (\<lambda>s. state_sellerId s = sellerId) states of
             None \<Rightarrow> False
           | Some sellerState \<Rightarrow> state_status sellerState = SellerClosed))"

text \<open>
  The loop of \<open>buildSellerOrderView\<close>; the accumulator is
  \<open>(items, claimableItemCount, myClaimedItemCount, canAcceptAll)\<close>.
\<close>

fun buildSellerOrderViewLoop ::
  "string \<Rightarrow> bool \<Rightarrow> OrderItemClaim list \<Rightarrow> ViewItem list \<times> nat \<times> nat \<times> bool \<Rightarrow> world \<Rightarrow>
   (ViewItem list \<times> nat \<times> nat \<times> bool) \<times> world" where
  "buildSellerOrderViewLoop sellerId assignedToMe [] acc w = (acc, w)"
| "buildSellerOrderViewLoop sellerId assignedToMe (claim # claims)
       (items, claimable, mine, canAcceptAll) w =
     (case getSellerBlueprintQuantity sellerId (blueprintId claim) w of
        (sellerQty, w1) \<Rightarrow>
          (let available = jsGreaterEq sellerQty (requestedQty claim);
               isClaimedByMe = (claimedBySellerId claim = Some sellerId);
               isUnclaimed = (claimStatus claim = Unclaimed);
               canSeeUnclaimed = (isUnclaimed \<and> jsGreater sellerQty (Num 0));
               canSee = (isClaimedByMe \<or> canSeeUnclaimed \<or> assignedToMe)
           in if canSee
              then buildSellerOrderViewLoop sellerId assignedToMe claims
                     (items @
                        [\<lparr>vitem_blueprintId = blueprintId claim,
                          vitem_blueprintName = blueprintName claim,
                          vitem_requestedQty = requestedQty claim,
                          vitem_available = available,
                          vitem_availableQty = sellerQty,
                          vitem_claimStatus = claimStatus claim,
                          vitem_claimedByMe = isClaimedByMe,
                          vitem_claimedBySellerId = claimedBySellerId claim,
                          vitem_claimedBySellerDiscordId = claimedBySellerDiscordId claim,
                          vitem_claimedQuantity = claimedQuantity claim\<rparr>],
                      (if isUnclaimed \<and> jsGreater sellerQty (Num 0) then claimable + 1 else claimable),
                      (if isClaimedByMe then mine + 1 else mine),
                      (if isUnclaimed \<and> jsLess sellerQty (requestedQty claim) then False
                       else canAcceptAll))
                     w1
              else buildSellerOrderViewLoop sellerId assignedToMe claims
                     (items, claimable, mine, (if isUnclaimed then False else canAcceptAll)) w1))"

definition buildSellerOrderView ::
  "StoredOrder \<Rightarrow> string \<Rightarrow> string \<Rightarrow> world \<Rightarrow> SellerOrderView option \<times> world" where
  "buildSellerOrderView order sellerId sellerDiscord w =
     (let assignedToMe = (assignedSellerId order = Some sellerId);
          closedByMe = isOrderClosedBySeller order sellerId
      in case buildSellerOrderViewLoop sellerId assignedToMe (itemClaims order) ([], 0, 0, True) w of
           ((items, claimable, mine, canAcceptAll), w1) \<Rightarrow>
             (if items = [] then (None, w1)
              else
                (Some
                   \<lparr>view_orderId = orderId order,
                    view_buyerDiscordNick = buyerDiscordNick order,
                    view_offer = offer order,
                    view_notes = order_notes order,
                    view_isMultiSeller = isMultiSeller order,
                    view_createdAt = createdAt order,
                    view_status = status order,
                    isAssignedToMe = assignedToMe,
                    isClosedByMe = closedByMe,
                    view_items = items,
                    canAcceptFull =
                      (canAcceptAll \<and> list_all (\<lambda>c. claimStatus c = Unclaimed) (itemClaims order)
                       \<and> length items = length (itemClaims order)),
                    claimableItemCount = claimable,
                    myClaimedItemCount = mine\<rparr>, w1)))"

fun getOrdersForSellerLoop ::
  "string \<Rightarrow> string \<Rightarrow> StoredOrder list \<Rightarrow> world \<Rightarrow> SellerOrderView list \<times> world" where
  "getOrdersForSellerLoop sellerId sellerDiscord [] w = ([], w)"
| "getOrdersForSellerLoop sellerId sellerDiscord (order # orders) w =
     (if status order = Closed \<or> status order = Cancelled
        then getOrdersForSellerLoop sellerId sellerDiscord orders w
      else if isOrderClosedBySeller order sellerId
        then getOrdersForSellerLoop sellerId sellerDiscord orders w
      else if truthy (assignedSellerId order) \<and> assignedSellerId order \<noteq> Some sellerId
        then getOrdersForSellerLoop sellerId sellerDiscord orders w
      else
        (case buildSellerOrderView order sellerId sellerDiscord w of
           (None, w1) \<Rightarrow> getOrdersForSellerLoop sellerId sellerDiscord orders w1
         | (Some sellerView, w1) \<Rightarrow>
             (case getOrdersForSellerLoop sellerId sellerDiscord orders w1 of
                (views, w2) \<Rightarrow> (sellerView # views, w2))))"

definition getOrdersForSeller :: "string \<Rightarrow> world \<Rightarrow> SellerOrderView list \<times> world" where
  "getOrdersForSeller sellerId w =
     (let allOrders = getAllOrders w
      in case getSellerById sellerId w of
           (None, w1) \<Rightarrow> ([], w1)
         | (Some seller, w1) \<Rightarrow>
             (if canSellerReceiveOrders seller
              then getOrdersForSellerLoop sellerId (discordId seller) allOrders w1
              else ([], w1)))"

fun getArchivedOrdersForSellerLoop ::
  "string \<Rightarrow> string \<Rightarrow> StoredOrder list \<Rightarrow> world \<Rightarrow> SellerOrderView list \<times> world" where
  "getArchivedOrdersForSellerLoop sellerId sellerDiscord [] w = ([], w)"
| "getArchivedOrdersForSellerLoop sellerId sellerDiscord (order # orders) w =
     (let isGloballyClosed = (status order = Closed \<or> status order = Cancelled);
          isClosedByThisSeller = isOrderClosedBySeller order sellerId;
          hasClaimedItems = list_ex (\<lambda>c. claimedBySellerId c = Some sellerId) (itemClaims order);
          wasAssigned = (assignedSellerId order = Some sellerId);
          hadInvolvement = (hasClaimedItems \<or> wasAssigned)
      in if \<not> isGloballyClosed \<and> \<not> isClosedByThisSeller
           then getArchivedOrdersForSellerLoop sellerId sellerDiscord orders w
         else if isGloballyClosed \<and> \<not> hadInvolvement
           then getArchivedOrdersForSellerLoop sellerId sellerDiscord orders w
         else
           (case buildSellerOrderView order sellerId sellerDiscord w of
              (None, w1) \<Rightarrow> getArchivedOrdersForSellerLoop sellerId sellerDiscord orders w1
            | (Some sellerView, w1) \<Rightarrow>
                (case getArchivedOrdersForSellerLoop sellerId sellerDiscord orders w1 of
                   (views, w2) \<Rightarrow> (sellerView # views, w2))))"

definition getArchivedOrdersForSeller :: "string \<Rightarrow> world \<Rightarrow> SellerOrderView list \<times> world" where
  "getArchivedOrdersForSeller sellerId w =
     (let allOrders = getAllOrders w
      in case getSellerById sellerId w of
           (None, w1) \<Rightarrow> ([], w1)
         | (Some seller, w1) \<Rightarrow>
             (if canSellerReceiveOrders seller
              then getArchivedOrdersForSellerLoop sellerId (discordId seller) allOrders w1
              else ([], w1)))"

definition getOrderForSeller :: "string \<Rightarrow> string \<Rightarrow> world \<Rightarrow> SellerOrderView option \<times> world" where
  "getOrderForSeller oid sellerId w =
     (case getOrderById oid w of
        None \<Rightarrow> (None, w)
      | Some order \<Rightarrow>
          (case getSellerById sellerId w of
             (None, w1) \<Rightarrow> (None, w1)
           | (Some seller, w1) \<Rightarrow>
               (if canSellerReceiveOrders seller
                then buildSellerOrderView order sellerId (discordId seller) w1
                else (None, w1))))"

section \<open>Claim operations (src/lib/orders.ts)\<close>

text \<open>
  Every operation takes the current time \<open>now\<close> where the source calls \<open>new Date()\<close>,
  and returns its \<open>ClaimResult\<close> with the world it leaves.  The order object read by
  \<open>getOrderById\<close> is changed in memory; only \<open>updateOrder\<close> stores it.
\<close>

text \<open>The checking loop of \<open>acceptOrderFull\<close>.\<close>

fun acceptOrderFullCheck :: "string \<Rightarrow> OrderItemClaim list \<Rightarrow> world \<Rightarrow> error option \<times> world" where
  "acceptOrderFullCheck sellerId [] w = (None, w)"
| "acceptOrderFullCheck sellerId (claim # claims) w =
     (if claimStatus claim \<noteq> Unclaimed \<and> claimedBySellerId claim \<noteq> Some sellerId
      then (Some (ItemTakenByOther (blueprintName claim)), w)
      else
        (case getSellerBlueprintQuantity sellerId (blueprintId claim) w of
           (sellerQty, w1) \<Rightarrow>
             (if jsLess sellerQty (requestedQty claim)
              then (Some (NotEnoughInInventory (blueprintName claim) sellerQty (requestedQty claim)), w1)
              else acceptOrderFullCheck sellerId claims w1)))"

definition claimFor :: "string \<Rightarrow> string \<Rightarrow> timestamp \<Rightarrow> OrderItemClaim \<Rightarrow> OrderItemClaim" where
  "claimFor sellerId sellerDiscord now claim =
     claim\<lparr>claimStatus := Claimed,
           claimedBySellerId := Some sellerId,
           claimedBySellerDiscordId := Some sellerDiscord,
           claimedQuantity := Some (requestedQty claim),
           claimedAt := Some now\<rparr>"

definition acceptOrderFull :: "timestamp \<Rightarrow> string \<Rightarrow> string \<Rightarrow> world \<Rightarrow> ClaimResult \<times> world" where
  "acceptOrderFull now oid sellerId w =
     (case getOrderById oid w of
        None \<Rightarrow> (Failure OrderNotFound, w)
      | Some order \<Rightarrow>
          (if status order = Closed \<or> status order = Cancelled
             then (Failure OrderAlreadyClosed, w)
           else if truthy (assignedSellerId order) \<and> assignedSellerId order \<noteq> Some sellerId
             then (Failure AcceptedByOtherSeller, w)
           else
             (case getSellerById sellerId w of
                (None, w1) \<Rightarrow> (Failure NoPermission, w1)
              | (Some seller, w1) \<Rightarrow>
                  (if \<not> canSellerReceiveOrders seller then (Failure NoPermission, w1)
                   else
                     (case acceptOrderFullCheck sellerId (itemClaims order) w1 of
                        (Some e, w2) \<Rightarrow> (Failure e, w2)
                      | (None, w2) \<Rightarrow>
                          (Success (Some (map blueprintId (itemClaims order))),
                           updateOrder
                             (order\<lparr>assignedSellerId := Some sellerId,
                                    assignedSellerDiscordId := Some (discordId seller),
                                    assignedAt := Some now,
                                    status := InProgress,
                                    itemClaims :=
                                      map (claimFor sellerId (discordId seller) now) (itemClaims order)\<rparr>)
                             w2))))))"

text \<open>
  The loop of \<open>claimOrderItems\<close> over \<open>itemsToClaim\<close>; it carries the item claims of the
  order object and the list \<open>claimedItems\<close>.
\<close>

fun claimOrderItemsLoop ::
  "timestamp \<Rightarrow> string \<Rightarrow> string \<Rightarrow> string list \<Rightarrow> OrderItemClaim list \<Rightarrow> string list \<Rightarrow> world \<Rightarrow>
   (OrderItemClaim list \<times> string list) \<times> world" where
  "claimOrderItemsLoop now sellerId sellerDiscord [] claims claimedItems w = ((claims, claimedItems), w)"
| "claimOrderItemsLoop now sellerId sellerDiscord (bid # bids) claims claimedItems w =
     (case find (\<lambda>c. blueprintId c = bid) claims of
        None \<Rightarrow> claimOrderItemsLoop now sellerId sellerDiscord bids claims claimedItems w
      | Some claim \<Rightarrow>
          (if claimStatus claim \<noteq> Unclaimed \<and> claimedBySellerId claim \<noteq> Some sellerId
           then claimOrderItemsLoop now sellerId sellerDiscord bids claims claimedItems w
           else
             (case getSellerBlueprintQuantity sellerId (blueprintId claim) w of
                (sellerQty, w1) \<Rightarrow>
                  (if jsLess sellerQty (requestedQty claim)
                   then claimOrderItemsLoop now sellerId sellerDiscord bids claims claimedItems w1
                   else claimOrderItemsLoop now sellerId sellerDiscord bids
                          (updateFirst (\<lambda>c. blueprintId c = bid)
                             (claimFor sellerId sellerDiscord now) claims)
                          (claimedItems @ [bid]) w1))))"

definition claimOrderItems ::
  "timestamp \<Rightarrow> string \<Rightarrow> string \<Rightarrow> string list option \<Rightarrow> world \<Rightarrow> ClaimResult \<times> world" where
  "claimOrderItems now oid sellerId blueprintIds w =
     (case getOrderById oid w of
        None \<Rightarrow> (Failure OrderNotFound, w)
      | Some order \<Rightarrow>
          (if status order = Closed \<or> status order = Cancelled
             then (Failure OrderAlreadyClosed, w)
           else if truthy (assignedSellerId order) \<and> assignedSellerId order \<noteq> Some sellerId
             then (Failure AcceptedByOtherSeller, w)
           else
             (case getSellerById sellerId w of
                (None, w1) \<Rightarrow> (Failure NoPermission, w1)
              | (Some seller, w1) \<Rightarrow>
                  (if \<not> canSellerReceiveOrders seller then (Failure NoPermission, w1)
                   else
                     (let itemsToClaim =
                            (case blueprintIds of
                               Some bids \<Rightarrow> bids
                             | None \<Rightarrow>
                                 map blueprintId
                                   (filter (\<lambda>c. claimStatus c = Unclaimed) (itemClaims order)))
                      in case claimOrderItemsLoop now sellerId (discordId seller) itemsToClaim
                                (itemClaims order) [] w1 of
                           ((claims, claimedItems), w2) \<Rightarrow>
                             (if claimedItems = [] then (Failure NothingToClaim, w2)
                              else
                                (Success (Some claimedItems),
                                 updateOrder
                                   (order\<lparr>itemClaims := claims,
                                          status := (if status order = Open then InProgress
                                                     else status order)\<rparr>)
                                   w2)))))))"

text \<open>\<open>claim.claimedQuantity || claim.requestedQty\<close>.\<close>

definition quantityToFulfill :: "OrderItemClaim \<Rightarrow> number" where
  "quantityToFulfill claim =
     (case claimedQuantity claim of
        None \<Rightarrow> requestedQty claim
      | Some q \<Rightarrow> orElse q (requestedQty claim))"

definition markFulfilled :: "timestamp \<Rightarrow> OrderItemClaim \<Rightarrow> OrderItemClaim" where
  "markFulfilled now claim = claim\<lparr>claimStatus := Fulfilled, fulfilledAt := Some now\<rparr>"

definition completeIfAllFulfilled :: "StoredOrder \<Rightarrow> StoredOrder" where
  "completeIfAllFulfilled order =
     (if list_all (\<lambda>c. claimStatus c = Fulfilled) (itemClaims order)
      then order\<lparr>status := Completed\<rparr> else order)"

definition fulfillOrderItem ::
  "timestamp \<Rightarrow> string \<Rightarrow> string \<Rightarrow> string \<Rightarrow> world \<Rightarrow> ClaimResult \<times> world" where
  "fulfillOrderItem now oid sellerId bid w =
     (case getOrderById oid w of
        None \<Rightarrow> (Failure OrderNotFound, w)
      | Some order \<Rightarrow>
          (case find (\<lambda>c. blueprintId c = bid) (itemClaims order) of
             None \<Rightarrow> (Failure ItemNotFound, w)
           | Some claim \<Rightarrow>
               (if claimedBySellerId claim \<noteq> Some sellerId then (Failure CannotFulfillItem, w)
                else if claimStatus claim = Fulfilled then (Failure ItemAlreadyFulfilled, w)
                else
                  (case getSellerBlueprintQuantity sellerId bid w of
                     (currentQty, w1) \<Rightarrow>
                       (if jsLess currentQty (quantityToFulfill claim)
                        then (Failure (InsufficientStock currentQty (quantityToFulfill claim)), w1)
                        else
                          (case updateSellerInventoryItem now sellerId bid
                                  (jsSubtract currentQty (quantityToFulfill claim)) w1 of
                             (inventoryUpdated, w2) \<Rightarrow>
                               (if \<not> inventoryUpdated then (Failure InventoryUpdateFailed, w2)
                                else
                                  (Success (Some [bid]),
                                   updateOrder
                                     (completeIfAllFulfilled
                                        (order\<lparr>itemClaims :=
                                           updateFirst (\<lambda>c. blueprintId c = bid)
                                             (markFulfilled now) (itemClaims order)\<rparr>))
                                     w2))))))))"

text \<open>The first pass of \<open>fulfillAllClaimedItems\<close>, over \<open>itemsToFulfill\<close>.\<close>

fun fulfillAllCheck :: "string \<Rightarrow> OrderItemClaim list \<Rightarrow> world \<Rightarrow> error option \<times> world" where
  "fulfillAllCheck sellerId [] w = (None, w)"
| "fulfillAllCheck sellerId (claim # claims) w =
     (case getSellerBlueprintQuantity sellerId (blueprintId claim) w of
        (currentQty, w1) \<Rightarrow>
          (if jsLess currentQty (quantityToFulfill claim)
           then (Some (InsufficientStockFor (blueprintName claim) currentQty (quantityToFulfill claim)), w1)
           else fulfillAllCheck sellerId claims w1))"

text \<open>
  The second pass.  \<open>itemsToFulfill\<close> holds the objects of \<open>order.itemClaims\<close> that the
  filter selected, in their order, so the pass is a traversal of \<open>itemClaims\<close> that acts
  on the selected elements; it returns the item claims of the order object and
  \<open>fulfilledItems\<close>, or the error of the first inventory update that fails.
\<close>

definition isClaimedBy :: "string \<Rightarrow> OrderItemClaim \<Rightarrow> bool" where
  "isClaimedBy sellerId claim = (claimedBySellerId claim = Some sellerId \<and> claimStatus claim = Claimed)"

fun fulfillAllPass ::
  "timestamp \<Rightarrow> string \<Rightarrow> OrderItemClaim list \<Rightarrow> world \<Rightarrow>
   (error + OrderItemClaim list \<times> string list) \<times> world" where
  "fulfillAllPass now sellerId [] w = (Inr ([], []), w)"
| "fulfillAllPass now sellerId (claim # claims) w =
     (if isClaimedBy sellerId claim
      then
        (case getSellerBlueprintQuantity sellerId (blueprintId claim) w of
           (currentQty, w1) \<Rightarrow>
             (case updateSellerInventoryItem now sellerId (blueprintId claim)
                     (jsSubtract currentQty (quantityToFulfill claim)) w1 of
                (inventoryUpdated, w2) \<Rightarrow>
                  (if \<not> inventoryUpdated
                   then (Inl (InventoryUpdateFailedFor (blueprintName claim)), w2)
                   else
                     (case fulfillAllPass now sellerId claims w2 of
                        (Inl e, w3) \<Rightarrow> (Inl e, w3)
                      | (Inr (claims', fulfilledItems), w3) \<Rightarrow>
                          (Inr (markFulfilled now claim # claims', blueprintId claim # fulfilledItems),
                           w3)))))
      else
        (case fulfillAllPass now sellerId claims w of
           (Inl e, w1) \<Rightarrow> (Inl e, w1)
         | (Inr (claims', fulfilledItems), w1) \<Rightarrow> (Inr (claim # claims', fulfilledItems), w1)))"

definition fulfillAllClaimedItems :: "timestamp \<Rightarrow> string \<Rightarrow> string \<Rightarrow> world \<Rightarrow> ClaimResult \<times> world" where
  "fulfillAllClaimedItems now oid sellerId w =
     (case getOrderById oid w of
        None \<Rightarrow> (Failure OrderNotFound, w)
      | Some order \<Rightarrow>
          (let itemsToFulfill = filter (isClaimedBy sellerId) (itemClaims order)
           in if itemsToFulfill = [] then (Failure NothingToFulfill, w)
              else
                (case fulfillAllCheck sellerId itemsToFulfill w of
                   (Some e, w1) \<Rightarrow> (Failure e, w1)
                 | (None, w1) \<Rightarrow>
                     (case fulfillAllPass now sellerId (itemClaims order) w1 of
                        (Inl e, w2) \<Rightarrow> (Failure e, w2)
                      | (Inr (claims, fulfilledItems), w2) \<Rightarrow>
                          (Success (Some fulfilledItems),
                           updateOrder (completeIfAllFulfilled (order\<lparr>itemClaims := claims\<rparr>)) w2)))))"

definition closeOrder :: "timestamp \<Rightarrow> string \<Rightarrow> string \<Rightarrow> bool \<Rightarrow> world \<Rightarrow> ClaimResult \<times> world" where
  "closeOrder now oid sellerId isAdmin w =
     (case getOrderById oid w of
        None \<Rightarrow> (Failure OrderNotFound, w)
      | Some order \<Rightarrow>
          (if isAdmin
             then (Success None,
                   updateOrder
                     (order\<lparr>status := Closed, closedAt := Some now, closedBySellerId := Some sellerId\<rparr>) w)
           else if status order = Closed \<or> status order = Cancelled
             then (Failure OrderAlreadyClosed, w)
           else if isOrderClosedBySeller order sellerId
             then (Failure AlreadyClosedBySeller, w)
           else if assignedSellerId order \<noteq> Some sellerId
                   \<and> \<not> list_ex (\<lambda>c. claimedBySellerId c = Some sellerId) (itemClaims order)
             then (Failure CannotCloseOrder, w)
           else if filter (\<lambda>c. claimedBySellerId c = Some sellerId \<and> claimStatus c \<noteq> Fulfilled)
                     (itemClaims order) \<noteq> []
             then (Failure FulfillYourItemsFirst, w)
           else
             (let states0 = (case sellerStates order of None \<Rightarrow> [] | Some states \<Rightarrow> states);
                  states1 =
                    (if find (\<lambda>s. state_sellerId s = sellerId) states0 = None
                     then states0 @
                            [\<lparr>state_sellerId = sellerId, state_status = SellerActive,
                              state_closedAt = None\<rparr>]
                     else states0);
                  states2 =
                    updateFirst (\<lambda>s. state_sellerId s = sellerId)
                      (\<lambda>s. s\<lparr>state_status := SellerClosed, state_closedAt := Some now\<rparr>) states1;
                  order1 = order\<lparr>sellerStates := Some states2\<rparr>
              in (Success None,
                  updateOrder
                    (if list_all (\<lambda>c. claimStatus c = Fulfilled) (itemClaims order1)
                     then order1\<lparr>status := Closed, closedAt := Some now,
                                 closedBySellerId := Some sellerId\<rparr>
                     else order1) w))))"

definition cancelOrder :: "timestamp \<Rightarrow> string \<Rightarrow> world \<Rightarrow> ClaimResult \<times> world" where
  "cancelOrder now oid w =
     (case getOrderById oid w of
        None \<Rightarrow> (Failure OrderNotFound, w)
      | Some order \<Rightarrow>
          (if status order = Closed \<or> status order = Cancelled
             then (Failure OrderAlreadyClosed, w)
           else (Success None, updateOrder (order\<lparr>status := Cancelled, closedAt := Some now\<rparr>) w)))"

definition releaseClaim :: "OrderItemClaim \<Rightarrow> OrderItemClaim" where
  "releaseClaim claim =
     claim\<lparr>claimStatus := Unclaimed, claimedBySellerId := None, claimedBySellerDiscordId := None,
           claimedQuantity := None, claimedAt := None\<rparr>"

definition releaseOrderItem :: "string \<Rightarrow> string \<Rightarrow> string \<Rightarrow> world \<Rightarrow> ClaimResult \<times> world" where
  "releaseOrderItem oid sellerId bid w =
     (case getOrderById oid w of
        None \<Rightarrow> (Failure OrderNotFound, w)
      | Some order \<Rightarrow>
          (if status order = Closed \<or> status order = Cancelled
             then (Failure OrderAlreadyClosed, w)
           else
             (case find (\<lambda>c. blueprintId c = bid) (itemClaims order) of
                None \<Rightarrow> (Failure ItemNotFound, w)
              | Some claim \<Rightarrow>
                  (if claimedBySellerId claim \<noteq> Some sellerId then (Failure CannotReleaseItem, w)
                   else if claimStatus claim = Fulfilled then (Failure CannotReleaseFulfilled, w)
                   else
                     (let claims = updateFirst (\<lambda>c. blueprintId c = bid) releaseClaim (itemClaims order);
                          order1 = order\<lparr>itemClaims := claims\<rparr>;
                          stillHasClaims =
                            list_ex (\<lambda>c. claimedBySellerId c = Some sellerId \<and> claimStatus c \<noteq> Unclaimed)
                              claims;
                          order2 =
                            (if assignedSellerId order1 = Some sellerId \<and> \<not> stillHasClaims
                             then order1\<lparr>assignedSellerId := None, assignedSellerDiscordId := None,
                                         assignedAt := None\<rparr>
                             else order1);
                          hasAnyClaims = list_ex (\<lambda>c. claimStatus c \<noteq> Unclaimed) claims;
                          order3 = (if \<not> hasAnyClaims then order2\<lparr>status := Open\<rparr> else order2)
                      in (Success (Some [bid]), updateOrder order3 w))))))"

section \<open>Vocabulary of the properties\<close>

text \<open>
  \<open>onlyReads w w1\<close>: the world \<open>w1\<close> is \<open>w\<close> but for the outcomes of reads that were
  consumed; every file is as it was.
\<close>

definition onlyReads :: "world \<Rightarrow> world \<Rightarrow> bool" where
  "onlyReads w w1 = (w1 = w\<lparr>readFaults := readFaults w1\<rparr>)"

text \<open>
  The visibility rule of the specification: a seller sees an item when they claimed it,
  or it is unclaimed and they stock it, or they are the assignee of the whole order.
\<close>

definition itemVisibleTo :: "world \<Rightarrow> StoredOrder \<Rightarrow> string \<Rightarrow> OrderItemClaim \<Rightarrow> bool" where
  "itemVisibleTo w order sellerId claim =
     (claimedBySellerId claim = Some sellerId
      \<or> (claimStatus claim = Unclaimed
          \<and> jsGreater (fst (getSellerBlueprintQuantity sellerId (blueprintId claim) w)) (Num 0))
      \<or> assignedSellerId order = Some sellerId)"

text \<open>The projection of one item claim into a seller's view.\<close>

definition viewItemOf :: "world \<Rightarrow> string \<Rightarrow> OrderItemClaim \<Rightarrow> ViewItem" where
  "viewItemOf w sellerId claim =
     \<lparr>vitem_blueprintId = blueprintId claim,
      vitem_blueprintName = blueprintName claim,
      vitem_requestedQty = requestedQty claim,
      vitem_available =
        jsGreaterEq (fst (getSellerBlueprintQuantity sellerId (blueprintId claim) w))
          (requestedQty claim),
      vitem_availableQty = fst (getSellerBlueprintQuantity sellerId (blueprintId claim) w),
      vitem_claimStatus = claimStatus claim,
      vitem_claimedByMe = (claimedBySellerId claim = Some sellerId),
      vitem_claimedBySellerId = claimedBySellerId claim,
      vitem_claimedBySellerDiscordId = claimedBySellerDiscordId claim,
      vitem_claimedQuantity = claimedQuantity claim\<rparr>"

text \<open>
  The orders of a seller's active listing: not closed or cancelled, not closed by this
  seller, not assigned to another seller.
\<close>

definition listedForSeller :: "StoredOrder \<Rightarrow> string \<Rightarrow> bool" where
  "listedForSeller order sellerId =
     (status order \<noteq> Closed \<and> status order \<noteq> Cancelled
      \<and> \<not> isOrderClosedBySeller order sellerId
      \<and> \<not> (truthy (assignedSellerId order) \<and> assignedSellerId order \<noteq> Some sellerId))"

text \<open>
  The words of the specification for the resolver: a seller covers the requested items
  when their inventory holds every item at its full requested quantity; the active
  sellers are the readable seller files with status \<open>active\<close>.
\<close>

definition sellerCovers :: "SellerWithInventory \<Rightarrow> (string \<times> number) list \<Rightarrow> bool" where
  "sellerCovers seller items =
     (\<forall>item \<in> set items. jsGreaterEq (inventoryQuantity (inventory seller) (fst item)) (snd item))"

definition activeSellersOf :: "world \<Rightarrow> SellerWithInventory set" where
  "activeSellersOf w =
     {seller. \<exists>file \<in> fst ` set (sellerFiles w).
        map_of (sellerFiles w) file = Some seller
        \<and> seller_id seller \<noteq> [] \<and> discordId seller \<noteq> [] \<and> seller_status seller = Active}"

text \<open>
  Two invariants of the store.  Every order file is named after the order it holds, as
  \<open>saveOrder\<close> and \<open>updateOrder\<close> write it; \<open>storesAtMost w w1\<close> says that from \<open>w\<close> to
  \<open>w1\<close> the order files are unchanged or one order was stored by \<open>updateOrder\<close>.  An
  inventory is built from the empty list of a new seller by \<open>setInventoryEntry\<close>.
\<close>

definition orderFilesNamed :: "world \<Rightarrow> bool" where
  "orderFilesNamed w =
     list_all (\<lambda>entry. fst entry = getOrderFilePath (orderId (content (snd entry)))) (orderFiles w)"

inductive builtInventory :: "SellerInventoryItem list \<Rightarrow> bool" where
  empty: "builtInventory []"
| entry: "builtInventory entries \<Longrightarrow> builtInventory (setInventoryEntry bid qty entries)"

definition storesAtMost :: "world \<Rightarrow> world \<Rightarrow> bool" where
  "storesAtMost w w1 =
     (orderFiles w1 = orderFiles w
      \<or> (\<exists>order w2. orderFiles w2 = orderFiles w \<and> w1 = updateOrder order w2))"

section \<open>Example states\<close>

text \<open>
  Two active sellers with overlapping stock and a banned one; a buyer's request for one
  Alpha and two Beta; and the states that the operations below lead through.
\<close>

definition exSeller1 :: SellerWithInventory where
  "exSeller1 =
     \<lparr>seller_id = ''s1'', discordId = ''alice'', passwordHash = ''h1'', seller_status = Active,
      telegramChatId = None, seller_createdAt = 1, updatedAt = 1,
      inventory = [\<lparr>item_blueprintId = ''bpA'', quantity = Num 5\<rparr>,
                   \<lparr>item_blueprintId = ''bpB'', quantity = Num 5\<rparr>]\<rparr>"

definition exSeller2 :: SellerWithInventory where
  "exSeller2 =
     \<lparr>seller_id = ''s2'', discordId = ''bob'', passwordHash = ''h2'', seller_status = Active,
      telegramChatId = None, seller_createdAt = 2, updatedAt = 2,
      inventory = [\<lparr>item_blueprintId = ''bpA'', quantity = Num 1\<rparr>]\<rparr>"

definition exSeller3 :: SellerWithInventory where
  "exSeller3 =
     \<lparr>seller_id = ''s3'', discordId = ''carol'', passwordHash = ''h3'', seller_status = Banned,
      telegramChatId = None, seller_createdAt = 3, updatedAt = 3,
      inventory = [\<lparr>item_blueprintId = ''bpA'', quantity = Num 9\<rparr>,
                   \<lparr>item_blueprintId = ''bpB'', quantity = Num 9\<rparr>]\<rparr>"

definition exWorld0 :: world where
  "exWorld0 =
     \<lparr>orderFiles = [],
      sellerFiles = [(''s1'', exSeller1), (''s2'', exSeller2), (''s3'', exSeller3)],
      readFaults = [], blueprintCatalog = [], localeCompare = (\<lambda>a b. 0)\<rparr>"

text \<open>The request: nick \<open>buy\<close>, offer \<open>" gold "\<close>.\<close>

definition exRequest :: OrderRequest where
  "exRequest =
     \<lparr>req_discordNick = [98, 117, 121], req_offer = [32, 103, 111, 108, 100, 32], req_notes = None,
      req_items = [\<lparr>oi_id = ''bpA'', oi_name = ''Alpha'', oi_quantity = Num 1\<rparr>,
                   \<lparr>oi_id = ''bpB'', oi_name = ''Beta'', oi_quantity = Num 2\<rparr>]\<rparr>"

definition exClaimA :: OrderItemClaim where
  "exClaimA =
     \<lparr>blueprintId = ''bpA'', blueprintName = ''Alpha'', requestedQty = Num 1, claimStatus = Unclaimed,
      claimedBySellerId = None, claimedBySellerDiscordId = None, claimedQuantity = None,
      claimedAt = None, fulfilledAt = None\<rparr>"

definition exClaimB :: OrderItemClaim where
  "exClaimB =
     \<lparr>blueprintId = ''bpB'', blueprintName = ''Beta'', requestedQty = Num 2, claimStatus = Unclaimed,
      claimedBySellerId = None, claimedBySellerDiscordId = None, claimedQuantity = None,
      claimedAt = None, fulfilledAt = None\<rparr>"

text \<open>The order as \<open>processOrder\<close> and \<open>saveOrder\<close> create it at time 100.\<close>

definition exOrder1 :: StoredOrder where
  "exOrder1 =
     \<lparr>orderId = ''ORD-1'', buyerDiscordNick = [98, 117, 121], offer = [103, 111, 108, 100],
      originalOffer = [103, 111, 108, 100], order_notes = None,
      sellerGroups =
        [\<lparr>group_sellerId = ''s1'', sellerDiscordId = ''alice'', sellerTelegramChatId = None,
          group_items =
            [\<lparr>g_blueprintId = ''bpA'', g_blueprintName = ''Alpha'', g_requestedQty = Num 1,
              g_available = True, g_availableQty = Num 5\<rparr>,
             \<lparr>g_blueprintId = ''bpB'', g_blueprintName = ''Beta'', g_requestedQty = Num 2,
              g_available = True, g_availableQty = Num 5\<rparr>]\<rparr>,
         \<lparr>group_sellerId = ''s2'', sellerDiscordId = ''bob'', sellerTelegramChatId = None,
          group_items =
            [\<lparr>g_blueprintId = ''bpA'', g_blueprintName = ''Alpha'', g_requestedQty = Num 1,
              g_available = True, g_availableQty = Num 1\<rparr>]\<rparr>],
      isMultiSeller = False, sellerCount = 2, createdAt = 100,
      sellerIds = [''s1'', ''s2''], status = Open, assignedSellerId = None,
      assignedSellerDiscordId = None, assignedAt = None,
      itemClaims = [exClaimA, exClaimB],
      sellerStates = None, closedAt = None, closedBySellerId = None\<rparr>"

definition exOrderFiles :: "StoredOrder \<Rightarrow> (string \<times> OrderFile) list" where
  "exOrderFiles order = [(''ORD-1'', \<lparr>content = order, hasStatus = True, hasItemClaims = True\<rparr>)]"

definition exWorld1 :: world where
  "exWorld1 = exWorld0\<lparr>orderFiles := exOrderFiles exOrder1\<rparr>"

text \<open>Seller s1 has claimed Alpha at time 101.\<close>

definition exOrder2 :: StoredOrder where
  "exOrder2 =
     exOrder1\<lparr>status := InProgress,
              itemClaims := [claimFor ''s1'' ''alice'' 101 exClaimA, exClaimB]\<rparr>"

definition exWorld2 :: world where
  "exWorld2 = exWorld0\<lparr>orderFiles := exOrderFiles exOrder2\<rparr>"

text \<open>Seller s1 has fulfilled Alpha at time 102: one Alpha has left the inventory.\<close>

definition exOrder3 :: StoredOrder where
  "exOrder3 =
     exOrder1\<lparr>status := InProgress,
              itemClaims := [markFulfilled 102 (claimFor ''s1'' ''alice'' 101 exClaimA), exClaimB]\<rparr>"

definition exSellerFiles :: "number \<Rightarrow> number \<Rightarrow> timestamp \<Rightarrow> (string \<times> SellerWithInventory) list" where
  "exSellerFiles a b t =
     [(''s1'', exSeller1\<lparr>inventory := [\<lparr>item_blueprintId = ''bpA'', quantity = a\<rparr>,
                                         \<lparr>item_blueprintId = ''bpB'', quantity = b\<rparr>],
                          updatedAt := t\<rparr>),
      (''s2'', exSeller2), (''s3'', exSeller3)]"

definition exWorld3 :: world where
  "exWorld3 = exWorld0\<lparr>orderFiles := exOrderFiles exOrder3, sellerFiles := exSellerFiles (Num 4) (Num 5) 102\<rparr>"

text \<open>Seller s1 has then accepted the whole order at time 103.\<close>

definition exOrder4 :: StoredOrder where
  "exOrder4 =
     exOrder1\<lparr>status := InProgress, assignedSellerId := Some ''s1'',
              assignedSellerDiscordId := Some ''alice'', assignedAt := Some 103,
              itemClaims :=
                [claimFor ''s1'' ''alice'' 103 (markFulfilled 102 (claimFor ''s1'' ''alice'' 101 exClaimA)),
                 claimFor ''s1'' ''alice'' 103 exClaimB]\<rparr>"

definition exWorld4 :: world where
  "exWorld4 = exWorld0\<lparr>orderFiles := exOrderFiles exOrder4, sellerFiles := exSellerFiles (Num 4) (Num 5) 102\<rparr>"

text \<open>
  Another course from \<open>exWorld1\<close>: seller s1 accepts the whole order at time 101, and an
  administrator cancels it at time 102.
\<close>

definition exOrder5 :: StoredOrder where
  "exOrder5 =
     exOrder1\<lparr>status := InProgress, assignedSellerId := Some ''s1'',
              assignedSellerDiscordId := Some ''alice'', assignedAt := Some 101,
              itemClaims := [claimFor ''s1'' ''alice'' 101 exClaimA, claimFor ''s1'' ''alice'' 101 exClaimB]\<rparr>"

definition exWorld5 :: world where
  "exWorld5 = exWorld0\<lparr>orderFiles := exOrderFiles exOrder5\<rparr>"

definition exOrder6 :: StoredOrder where
  "exOrder6 = exOrder5\<lparr>status := Cancelled, closedAt := Some 102\<rparr>"

definition exWorld6 :: world where
  "exWorld6 = exWorld0\<lparr>orderFiles := exOrderFiles exOrder6\<rparr>"

text \<open>
  A request for one and a half Alpha, which \<open>validateOrder\<close> admits; the order as
  created at time 100, claimed by seller s1 at time 101 and fulfilled at time 102.
\<close>

definition exRequestHalf :: OrderRequest where
  "exRequestHalf =
     exRequest\<lparr>req_items := [\<lparr>oi_id = ''bpA'', oi_name = ''Alpha'', oi_quantity = Num (3 / 2)\<rparr>]\<rparr>"

definition exClaimHalf :: OrderItemClaim where
  "exClaimHalf = exClaimA\<lparr>requestedQty := Num (3 / 2)\<rparr>"

definition exOrderHalf :: StoredOrder where
  "exOrderHalf =
     exOrder1\<lparr>orderId := ''ORD-2'',
       sellerGroups :=
        [\<lparr>group_sellerId = ''s1'', sellerDiscordId = ''alice'', sellerTelegramChatId = None,
          group_items =
            [\<lparr>g_blueprintId = ''bpA'', g_blueprintName = ''Alpha'', g_requestedQty = Num (3 / 2),
              g_available = True, g_availableQty = Num 5\<rparr>]\<rparr>,
         \<lparr>group_sellerId = ''s2'', sellerDiscordId = ''bob'', sellerTelegramChatId = None,
          group_items =
            [\<lparr>g_blueprintId = ''bpA'', g_blueprintName = ''Alpha'', g_requestedQty = Num (3 / 2),
              g_available = False, g_availableQty = Num 1\<rparr>]\<rparr>],
       itemClaims := [exClaimHalf]\<rparr>"

definition exOrderFilesHalf :: "StoredOrder \<Rightarrow> (string \<times> OrderFile) list" where
  "exOrderFilesHalf order = [(''ORD-2'', \<lparr>content = order, hasStatus = True, hasItemClaims = True\<rparr>)]"

definition exWorldHalf1 :: world where
  "exWorldHalf1 = exWorld0\<lparr>orderFiles := exOrderFilesHalf exOrderHalf\<rparr>"

definition exWorldHalf2 :: world where
  "exWorldHalf2 =
     exWorld0\<lparr>orderFiles := exOrderFilesHalf
       (exOrderHalf\<lparr>status := InProgress, itemClaims := [claimFor ''s1'' ''alice'' 101 exClaimHalf]\<rparr>)\<rparr>"

definition exWorldHalf3 :: world where
  "exWorldHalf3 =
     exWorld0\<lparr>orderFiles := exOrderFilesHalf
         (exOrderHalf\<lparr>status := Completed,
            itemClaims := [markFulfilled 102 (claimFor ''s1'' ''alice'' 101 exClaimHalf)]\<rparr>),
       sellerFiles := exSellerFiles (Num 3) (Num 5) 102\<rparr>"

text \<open>
  The state \<open>exWorld2\<close> with a stock of \<open>2 ^ 54\<close> Alpha, a quantity that the inventory
  route stores as it is.
\<close>

definition exWorldBig :: world where
  "exWorldBig = exWorld2\<lparr>sellerFiles := exSellerFiles (Num 18014398509481984) (Num 5) 1\<rparr>"

section \<open>Properties of the numbers\<close>

lemma jsLess_Num [simp]: "jsLess (Num a) (Num b) \<longleftrightarrow> a < b"
  by (simp add: jsLess_def finiteValue_def)

lemma jsGreater_Num [simp]: "jsGreater (Num a) (Num b) \<longleftrightarrow> b < a"
  by (simp add: jsGreater_def finiteValue_def)

lemma jsGreaterEq_Num [simp]: "jsGreaterEq (Num a) (Num b) \<longleftrightarrow> b \<le> a"
  by (auto simp: jsGreaterEq_def finiteValue_def)

lemma jsLessEq_Num [simp]: "jsLessEq (Num a) (Num b) \<longleftrightarrow> a \<le> b"
  by (auto simp: jsLessEq_def finiteValue_def)

lemma orElse_Num [simp]: "orElse (Num q) y = (if q = 0 then y else Num q)"
  by (simp add: orElse_def numberTruthy_def)

lemma jsonNumber_Num [simp]: "jsonNumber (Num q) = Num q"
  by (simp add: jsonNumber_def)

lemma jsGreaterEq_iff_not_less:
  "x \<noteq> NaN \<Longrightarrow> y \<noteq> NaN \<Longrightarrow> jsGreaterEq x y \<longleftrightarrow> \<not> jsLess x y"
  by (cases x; cases y) (simp_all add: jsGreaterEq_def jsLess_def)

lemma orElse_not_NaN: "orElse x (Num 0) \<noteq> NaN"
  by (cases x) (simp_all add: orElse_def numberTruthy_def)

text \<open>What \<open>item?.quantity || 0\<close> reads where \<open>c\<close> was written.\<close>

lemma orElse_json:
  "orElse (jsonNumber c) (Num 0) = (case c of Num q \<Rightarrow> Num q | _ \<Rightarrow> Num 0)"
  by (cases c) (simp_all add: jsonNumber_def orElse_def numberTruthy_def)

lemma orElse_json_orElse:
  "orElse (jsonNumber (orElse c (Num 0))) (Num 0) = orElse (jsonNumber c) (Num 0)"
  by (cases c) (simp_all add: jsonNumber_def orElse_def numberTruthy_def)


lemma clamp_nonpositive:
  "jsLessEq q (Num 0) \<Longrightarrow> mathMax (Num 0) (mathFloor q) = Num 0"
  by (cases q) (auto simp: jsLessEq_def mathMax_def mathFloor_def finiteValue_def floor_less_iff
      split: if_splits)

lemma clamp_positive_int:
  "0 < n \<Longrightarrow> mathMax (Num 0) (mathFloor (Num (of_int n))) = Num (of_int n)"
  by (simp add: mathMax_def mathFloor_def finiteValue_def)


text \<open>The binary digits and the exponent.\<close>

lemma bitLength_nonneg: "0 \<le> bitLength n"
proof (induction n rule: bitLength.induct)
  case (1 n)
  then show ?case by (subst bitLength.simps) simp
qed

lemma bitLength_upper: "of_int n < (2::rat) powi bitLength n"
proof (induction n rule: bitLength.induct)
  case (1 n)
  show ?case
  proof (cases "n \<le> 0")
    case True
    then show ?thesis by (simp add: bitLength.simps)
  next
    case False
    from 1 [OF False] have "(of_int (n div 2) :: rat) < 2 powi bitLength (n div 2)" .
    moreover have "(2::rat) powi bitLength (n div 2) = of_int (2 ^ nat (bitLength (n div 2)))"
      using bitLength_nonneg [of "n div 2"] by (simp add: power_int_def)
    ultimately have "n div 2 < 2 ^ nat (bitLength (n div 2))" by (simp only: of_int_less_iff)
    then have "n < 2 * 2 ^ nat (bitLength (n div 2))" by linarith
    then have "(of_int n :: rat) < of_int (2 * 2 ^ nat (bitLength (n div 2)))"
      by (simp only: of_int_less_iff)
    also have "\<dots> = 2 powi (1 + bitLength (n div 2))"
      using bitLength_nonneg [of "n div 2"] by (simp add: power_int_def nat_add_distrib)
    finally show ?thesis using False by (subst bitLength.simps) simp
  qed
qed

lemma bitLength_lower: "0 < n \<Longrightarrow> (2::rat) powi (bitLength n - 1) \<le> of_int n"
proof (induction n rule: bitLength.induct)
  case (1 n)
  then have n: "\<not> n \<le> 0" by simp
  have unfold: "bitLength n - 1 = bitLength (n div 2)"
    using n by (subst bitLength.simps) simp
  show ?case
  proof (cases "n div 2 \<le> 0")
    case True
    then have "bitLength (n div 2) = 0" by (simp add: bitLength.simps)
    then show ?thesis using n by (simp add: unfold)
  next
    case False
    then have "(2::rat) powi (bitLength (n div 2) - 1) \<le> of_int (n div 2)"
      using 1(1) [OF n] by simp
    then have "(2::rat) powi (bitLength (n div 2) - 1) * 2 \<le> of_int (n div 2) * 2" by simp
    then have "(2::rat) powi bitLength (n div 2) \<le> of_int (n div 2 * 2)"
      by (simp add: power_int_minus_mult)
    also have "\<dots> \<le> of_int n" by (simp only: of_int_le_iff)
    finally show ?thesis by (simp add: unfold)
  qed
qed

lemma floorLog2_lower:
  assumes "0 < x"
  shows "2 powi (floorLog2 x) \<le> x"
proof (cases "1 \<le> x")
  case True
  then have pos: "0 < \<lfloor>x\<rfloor>" by simp
  have "(2::rat) powi (floorLog2 x) = 2 powi (bitLength \<lfloor>x\<rfloor> - 1)"
    using True by (simp add: floorLog2_def)
  also have "\<dots> \<le> of_int \<lfloor>x\<rfloor>" using pos by (rule bitLength_lower)
  also have "\<dots> \<le> x" by simp
  finally show ?thesis .
next
  case False
  let ?m = "bitLength (\<lceil>1 / x\<rceil> - 1)"
  have fl: "floorLog2 x = - ?m" using False by (simp add: floorLog2_def)
  have pw: "(2::rat) powi ?m = of_int (2 ^ nat ?m)"
    using bitLength_nonneg [of "\<lceil>1 / x\<rceil> - 1"] by (simp add: power_int_def)
  have "(of_int (\<lceil>1 / x\<rceil> - 1) :: rat) < 2 powi ?m" by (rule bitLength_upper)
  then have "\<lceil>1 / x\<rceil> - 1 < 2 ^ nat ?m" unfolding pw by (simp only: of_int_less_iff)
  then have "\<lceil>1 / x\<rceil> \<le> 2 ^ nat ?m" by simp
  then have "(of_int \<lceil>1 / x\<rceil> :: rat) \<le> of_int (2 ^ nat ?m)" by (simp only: of_int_le_iff)
  moreover have "1 / x \<le> of_int \<lceil>1 / x\<rceil>" by (rule le_of_int_ceiling)
  ultimately have "1 / x \<le> of_int (2 ^ nat ?m)" by (rule order_trans [rotated])
  then have "1 / x \<le> 2 powi ?m" unfolding pw .
  moreover have "(0::rat) < 2 powi ?m" by (simp add: power_int_def)
  ultimately have "1 / 2 powi ?m \<le> x" using assms by (simp add: field_simps)
  then show ?thesis by (simp add: fl power_int_minus_divide)
qed

lemma floorLog2_less:
  assumes "0 < x" and "x < 2 powi j"
  shows "floorLog2 x < j"
proof (rule ccontr)
  assume "\<not> floorLog2 x < j"
  then have "j \<le> floorLog2 x" by simp
  then have "(2::rat) powi j \<le> 2 powi (floorLog2 x)" by (rule power_int_increasing) simp
  with floorLog2_lower [OF assms(1)] assms(2) show False by simp
qed

lemma roundHalfEven_of_int: "roundHalfEven (of_int z) = z"
  by (simp add: roundHalfEven_def)

text \<open>
  A double is its own rounding: a number \<open>m * 2 ^ k\<close> with a significand below \<open>2 ^ 53\<close>
  and an exponent in the range of the format.
\<close>

lemma roundDouble_exact:
  assumes x: "x = of_int m * 2 powi k"
    and m: "\<bar>m\<bar> < 2 ^ 53"
    and k: "- 1074 \<le> k" "k \<le> 971"
  shows "roundDouble x = Num x"
proof (cases "m = 0")
  case True
  then show ?thesis by (simp add: x roundDouble_def)
next
  case False
  have p: "(0::rat) < 2 powi i" for i by (simp add: power_int_def)
  have x0: "x \<noteq> 0" using False p [of k] by (simp add: x)
  have ax: "\<bar>x\<bar> = of_int \<bar>m\<bar> * 2 powi k" using p [of k] by (simp add: x abs_mult)
  have "(of_int \<bar>m\<bar> :: rat) < of_int (2 ^ 53)" using m by (simp only: of_int_less_iff)
  then have "\<bar>x\<bar> < 2 ^ 53 * 2 powi k" using p [of k] by (simp add: ax)
  also have "\<dots> = 2 powi (53 + k)" by (simp add: power_int_add)
  finally have lt: "\<bar>x\<bar> < 2 powi (53 + k)" .
  have fl: "floorLog2 \<bar>x\<bar> < 53 + k" using x0 lt by (intro floorLog2_less) simp_all
  define e where "e = max (floorLog2 \<bar>x\<bar>) (- 1022)"
  have e: "e - 52 \<le> k" using fl k by (simp add: e_def)
  define d where "d = nat (k - (e - 52))"
  have kd: "k = int d + (e - 52)" using e by (simp add: d_def)
  have split: "(2::rat) powi k = 2 ^ d * 2 powi (e - 52)"
    by (subst kd) (simp add: power_int_add del: of_nat_add)
  have q: "x / 2 powi (e - 52) = of_int (m * 2 ^ d)"
    using p [of "e - 52"] by (simp add: x split)
  have r: "of_int (roundHalfEven (x / 2 powi (e - 52))) * 2 powi (e - 52) = x"
    unfolding q roundHalfEven_of_int by (simp add: x split)
  have "2 powi (53 + k) \<le> (2::rat) powi 1024" using k by (intro power_int_increasing) simp_all
  then have small: "\<not> 2 powi 1024 \<le> \<bar>x\<bar>" using lt by simp
  show ?thesis
    using x0 small r by (simp add: roundDouble_def Let_def e_def [symmetric])
qed

lemma roundDouble_int:
  assumes "\<bar>n\<bar> \<le> 2 ^ 53"
  shows "roundDouble (of_int n) = Num (of_int n)"
proof (cases "\<bar>n\<bar> < 2 ^ 53")
  case True
  then show ?thesis by (intro roundDouble_exact [where m = n and k = 0]) simp_all
next
  case False
  with assms have n: "n = 2 ^ 53 \<or> n = - (2 ^ 53)" by linarith
  then have "of_int n = of_int (n div 2) * (2::rat) powi 1" by auto
  moreover have "\<bar>n div 2\<bar> < 2 ^ 53" using n by auto
  ultimately show ?thesis by (intro roundDouble_exact [where m = "n div 2" and k = 1]) simp_all
qed


lemma roundDouble_examples:
  "roundDouble 4 = Num 4"
  "roundDouble 3 = Num 3"
  "roundDouble (7 / 2) = Num (7 / 2)"
  using roundDouble_int [of 4] roundDouble_int [of 3] roundDouble_exact [of "7 / 2" 7 "- 1"]
  by simp_all


lemma floor_rat_numeral:
  "\<lfloor>(numeral a :: rat) / numeral b\<rfloor> = numeral a div numeral b"
  using floor_divide_of_int_eq [of "numeral a" "numeral b", where ?'a = rat] by simp

lemma bitLength_numeral:
  "bitLength (numeral (Num.Bit0 k)) = 1 + bitLength (numeral k)"
  "bitLength (numeral (Num.Bit1 k)) = 1 + bitLength (numeral k)"
  "bitLength 1 = 1"
  "bitLength 0 = 0"
  by (subst bitLength.simps, simp add: bitLength.simps [of 0])+

lemma roundDouble_tie: "roundDouble 18014398509481983 = Num 18014398509481984"
  by (simp add: roundDouble_def floorLog2_def bitLength_numeral roundHalfEven_def Let_def
      floor_rat_numeral)

lemma jsSubtract_big: "jsSubtract (Num 18014398509481984) (Num 1) = Num 18014398509481984"
  by (simp add: finiteValue_def roundDouble_tie)

lemma clamp_examples:
  "mathMax (Num 0) (mathFloor (Num 4)) = Num 4"
  "mathMax (Num 0) (mathFloor (Num 3)) = Num 3"
  "mathMax (Num 0) (mathFloor (Num (7 / 2))) = Num 3"
  "mathMax (Num 0) (mathFloor (Num (1 / 2))) = Num 0"
  "mathMax (Num 0) (mathFloor (Num 0)) = Num 0"
  "mathMax (Num 0) (mathFloor (Num 18014398509481984)) = Num 18014398509481984"
  "mathMax (Num 0) (mathFloor PosInfinity) = PosInfinity"
  by (simp_all add: mathMax_def mathFloor_def finiteValue_def floor_rat_numeral)

section \<open>Properties of the inventory primitives\<close>

lemma safeReadSeller_noFaults:
  "readFaults w = [] \<Longrightarrow> safeReadSeller file w = (map_of (sellerFiles w) file, w)"
  by (simp add: safeReadSeller_def)

lemma getSellerById_noFaults:
  "readFaults w = [] \<Longrightarrow> getSellerById sid w = (map_of (sellerFiles w) sid, w)"
  by (simp add: getSellerById_def safeReadSeller_noFaults)

lemma getSellerBlueprintQuantity_noFaults:
  "readFaults w = [] \<Longrightarrow>
   getSellerBlueprintQuantity sid bid w =
     (case map_of (sellerFiles w) sid of
        None \<Rightarrow> Num 0 | Some s \<Rightarrow> inventoryQuantity (inventory s) bid, w)"
  by (simp add: getSellerBlueprintQuantity_def getSellerById_noFaults split: option.splits)

lemma find_removeFirst_distinct:
  "distinct (map item_blueprintId entries) \<Longrightarrow>
   find (\<lambda>i. item_blueprintId i = bid) (removeFirst (\<lambda>i. item_blueprintId i = bid) entries) = None"
  by (induction entries) (auto simp: find_None_iff image_iff)

lemma find_removeFirst_other:
  "other \<noteq> bid \<Longrightarrow>
   find (\<lambda>i. item_blueprintId i = other) (removeFirst (\<lambda>i. item_blueprintId i = bid) entries) =
   find (\<lambda>i. item_blueprintId i = other) entries"
  by (induction entries) auto

lemma find_updateFirst_same:
  "find (\<lambda>i. item_blueprintId i = bid) entries \<noteq> None \<Longrightarrow>
   find (\<lambda>i. item_blueprintId i = bid)
     (updateFirst (\<lambda>i. item_blueprintId i = bid) (\<lambda>i. i\<lparr>quantity := q\<rparr>) entries) =
   map_option (\<lambda>i. i\<lparr>quantity := q\<rparr>) (find (\<lambda>i. item_blueprintId i = bid) entries)"
  by (induction entries) auto

lemma find_updateFirst_other:
  "other \<noteq> bid \<Longrightarrow>
   find (\<lambda>i. item_blueprintId i = other)
     (updateFirst (\<lambda>i. item_blueprintId i = bid) (\<lambda>i. i\<lparr>quantity := q\<rparr>) entries) =
   find (\<lambda>i. item_blueprintId i = other) entries"
  by (induction entries) auto

lemma find_append_new:
  "find p (xs @ [x]) = (case find p xs of None \<Rightarrow> (if p x then Some x else None) | Some y \<Rightarrow> Some y)"
  by (induction xs) auto

lemma inventoryQuantity_set_same:
  "distinct (map item_blueprintId entries) \<Longrightarrow>
   inventoryQuantity (setInventoryEntry bid q entries) bid =
     orElse (mathMax (Num 0) (mathFloor q)) (Num 0)"
  by (auto simp: inventoryQuantity_def setInventoryEntry_def Let_def find_removeFirst_distinct
      find_updateFirst_same find_append_new split: option.splits)

lemma inventoryQuantity_set_other:
  "other \<noteq> bid \<Longrightarrow>
   inventoryQuantity (setInventoryEntry bid q entries) other = inventoryQuantity entries other"
  by (auto simp: inventoryQuantity_def setInventoryEntry_def Let_def find_removeFirst_other
      find_updateFirst_other find_append_new split: option.splits)

lemma filter_removeFirst_other:
  "filter (\<lambda>i. item_blueprintId i \<noteq> bid) (removeFirst (\<lambda>i. item_blueprintId i = bid) entries) =
   filter (\<lambda>i. item_blueprintId i \<noteq> bid) entries"
  by (induction entries) auto

lemma filter_updateFirst_other:
  "filter (\<lambda>i. item_blueprintId i \<noteq> bid)
     (updateFirst (\<lambda>i. item_blueprintId i = bid) (\<lambda>i. i\<lparr>quantity := q\<rparr>) entries) =
   filter (\<lambda>i. item_blueprintId i \<noteq> bid) entries"
  by (induction entries) auto

lemma filter_set_other:
  "filter (\<lambda>i. item_blueprintId i \<noteq> bid) (setInventoryEntry bid q entries) =
   filter (\<lambda>i. item_blueprintId i \<noteq> bid) entries"
  by (auto simp: setInventoryEntry_def Let_def filter_removeFirst_other filter_updateFirst_other)

lemma removeFirst_subset: "x \<in> set (removeFirst p xs) \<Longrightarrow> x \<in> set xs"
  by (induction xs) (auto split: if_splits)

lemma ids_removeFirst:
  "distinct (map item_blueprintId entries) \<Longrightarrow>
   set (map item_blueprintId (removeFirst (\<lambda>i. item_blueprintId i = bid) entries)) =
   set (map item_blueprintId entries) - {bid}"
  by (induction entries) (auto simp: image_iff)

lemma distinct_removeFirst:
  "distinct (map item_blueprintId entries) \<Longrightarrow>
   distinct (map item_blueprintId (removeFirst (\<lambda>i. item_blueprintId i = bid) entries))"
  by (induction entries) (auto simp: image_iff dest: removeFirst_subset)

lemma ids_updateFirst:
  "map item_blueprintId (updateFirst p (\<lambda>i. i\<lparr>quantity := q\<rparr>) entries) = map item_blueprintId entries"
  by (induction entries) auto

lemma distinct_setInventoryEntry:
  "distinct (map item_blueprintId entries) \<Longrightarrow>
   distinct (map item_blueprintId (setInventoryEntry bid q entries))"
  by (auto simp: setInventoryEntry_def Let_def distinct_removeFirst ids_updateFirst find_None_iff)

lemma ids_removeFirst_image:
  "distinct (map item_blueprintId entries) \<Longrightarrow>
   item_blueprintId ` set (removeFirst (\<lambda>i. item_blueprintId i = bid) entries) =
   item_blueprintId ` set entries - {bid}"
  using ids_removeFirst [of entries bid] by simp

lemma ids_updateFirst_image:
  "item_blueprintId ` set (updateFirst p (\<lambda>i. i\<lparr>quantity := q\<rparr>) entries) =
   item_blueprintId ` set entries"
  using arg_cong [OF ids_updateFirst [of p q entries], of set] by simp

lemma ids_setInventoryEntry:
  "distinct (map item_blueprintId entries) \<Longrightarrow>
   bid \<in> item_blueprintId ` set (setInventoryEntry bid q entries) \<longleftrightarrow>
     mathMax (Num 0) (mathFloor q) \<noteq> Num 0"
proof -
  assume d: "distinct (map item_blueprintId entries)"
  let ?c = "mathMax (Num 0) (mathFloor q)"
  have absent: "find (\<lambda>i. item_blueprintId i = bid) entries = None \<longleftrightarrow>
      bid \<notin> item_blueprintId ` set entries"
    by (auto simp: find_None_iff)
  show ?thesis
  proof (cases "?c = Num 0")
    case True
    moreover have "bid \<notin> item_blueprintId ` set (setInventoryEntry bid q entries)"
      using True absent ids_removeFirst_image [OF d, of bid]
      by (simp add: setInventoryEntry_def Let_def)
    ultimately show ?thesis by simp
  next
    case False
    moreover have "bid \<in> item_blueprintId ` set (setInventoryEntry bid q entries)"
      using False absent ids_updateFirst_image [of "\<lambda>i. item_blueprintId i = bid" ?c entries]
      by (simp add: setInventoryEntry_def Let_def)
    ultimately show ?thesis by simp
  qed
qed

lemma find_updateFirst_member:
  "find p xs = Some x \<Longrightarrow> f x \<in> set (updateFirst p f xs)"
  by (induction xs) (auto split: if_splits)

lemma setInventoryEntry_member:
  assumes "mathMax (Num 0) (mathFloor q) = c" and "c \<noteq> Num 0"
  shows "\<lparr>item_blueprintId = bid, quantity = c\<rparr> \<in> set (setInventoryEntry bid q entries)"
proof (cases "find (\<lambda>i. item_blueprintId i = bid) entries")
  case None
  then show ?thesis using assms by (simp add: setInventoryEntry_def Let_def)
next
  case (Some i)
  then have "item_blueprintId i = bid" by (auto dest: find_Some_iff [THEN iffD1])
  then have "i\<lparr>quantity := c\<rparr> = \<lparr>item_blueprintId = bid, quantity = c\<rparr>" by (cases i) simp
  with find_updateFirst_member [OF Some, of "\<lambda>i. i\<lparr>quantity := c\<rparr>"]
  show ?thesis using assms Some by (simp add: setInventoryEntry_def Let_def)
qed

lemma distinct_updateSellerInventoryBulkLoop:
  "distinct (map item_blueprintId entries) \<Longrightarrow>
   distinct (map item_blueprintId (updateSellerInventoryBulkLoop updates entries))"
  by (induction updates entries rule: updateSellerInventoryBulkLoop.induct)
    (simp_all add: distinct_setInventoryEntry)

lemma inventoryQuantity_absent:
  "b \<notin> item_blueprintId ` set entries \<Longrightarrow> inventoryQuantity entries b = Num 0"
  by (auto simp: inventoryQuantity_def split: option.splits dest!: find_Some_iff [THEN iffD1])

lemma getSellerBlueprintQuantity_absent_entry:
  "map_of (sellerFiles w0) s = Some r \<Longrightarrow> b \<notin> item_blueprintId ` set (inventory r) \<Longrightarrow>
   fst (getSellerBlueprintQuantity s b w0) = Num 0"
  by (auto simp: getSellerBlueprintQuantity_def getSellerById_def safeReadSeller_def
      inventoryQuantity_absent split: list.splits)

lemma getSellerBlueprintQuantity_absent_seller:
  "map_of (sellerFiles w0) s = None \<Longrightarrow> fst (getSellerBlueprintQuantity s b w0) = Num 0"
  by (auto simp: getSellerBlueprintQuantity_def getSellerById_def safeReadSeller_def split: list.splits)

text \<open>The inventory as it is read back from the file.\<close>

lemma ids_json: "map item_blueprintId (map jsonInventoryItem entries) = map item_blueprintId entries"
  by (simp add: jsonInventoryItem_def)

lemma find_json:
  "find (\<lambda>i. item_blueprintId i = bid) (map jsonInventoryItem entries) =
   map_option jsonInventoryItem (find (\<lambda>i. item_blueprintId i = bid) entries)"
  by (induction entries) (simp_all add: jsonInventoryItem_def)

lemma inventoryQuantity_json:
  "inventoryQuantity (map jsonInventoryItem entries) bid =
   orElse (jsonNumber (inventoryQuantity entries bid)) (Num 0)"
proof (cases "find (\<lambda>i. item_blueprintId i = bid) entries")
  case None
  then show ?thesis by (simp add: inventoryQuantity_def find_json)
next
  case (Some i)
  then show ?thesis
    by (simp add: inventoryQuantity_def find_json jsonInventoryItem_def orElse_json_orElse)
qed

lemma filter_json:
  "filter (\<lambda>i. item_blueprintId i \<noteq> bid) (map jsonInventoryItem entries) =
   map jsonInventoryItem (filter (\<lambda>i. item_blueprintId i \<noteq> bid) entries)"
  by (induction entries) (simp_all add: jsonInventoryItem_def)

lemma json_clean_entries:
  "\<forall>i \<in> set entries. jsonNumber (quantity i) = quantity i \<Longrightarrow> map jsonInventoryItem entries = entries"
  by (induction entries) (simp_all add: jsonInventoryItem_def)

lemma inventoryQuantity_clean:
  assumes "\<forall>i \<in> set entries. jsonNumber (quantity i) = quantity i"
  shows "orElse (jsonNumber (inventoryQuantity entries bid)) (Num 0) = inventoryQuantity entries bid"
  using inventoryQuantity_json [of entries bid] json_clean_entries [OF assms] by simp

lemma jsonNumber_idem: "jsonNumber (jsonNumber x) = jsonNumber x"
  by (cases x) (simp_all add: jsonNumber_def)

text \<open>
  Claim C9, as the code has it.  For an existing seller (whose inventory, as every
  inventory built by \<open>updateSellerInventoryItem\<close> and \<open>updateSellerInventoryBulk\<close> from
  the empty list, names each blueprint at most once) and any number \<open>qty\<close>,
  \<open>updateSellerInventoryItem\<close> succeeds and stores \<open>Math.max(0, Math.floor(qty))\<close>.
  If \<open>qty \<le> 0\<close> the entry of the blueprint is gone and \<open>getSellerBlueprintQuantity\<close>
  returns 0.  If the stored number is 0, which is so for every \<open>qty\<close> below 1, the same
  holds; if it is a positive finite number \<open>n\<close> the entry holds \<open>n\<close> and
  \<open>getSellerBlueprintQuantity\<close> returns \<open>n\<close>, which is \<open>qty\<close> when \<open>qty\<close> is a positive
  whole number; and if it is \<open>NaN\<close> or infinite the entry is written as \<open>null\<close> and
  \<open>getSellerBlueprintQuantity\<close> returns 0.  The entries of the other blueprints are the
  JSON images of what they were, and are unchanged when the file held finite numbers
  or \<open>null\<close>; and \<open>getSellerBlueprintQuantity\<close> is 0 whenever the entry or the seller is
  absent.
\<close>

theorem C9_setQuantity_getQuantity:
  assumes nofault: "readFaults w = []"
    and seller: "map_of (sellerFiles w) sellerId = Some seller"
    and wf: "distinct (map item_blueprintId (inventory seller))"
  shows "\<exists>w' seller'.
           updateSellerInventoryItem now sellerId bid qty w = (True, w')
         \<and> map_of (sellerFiles w') sellerId = Some seller'
         \<and> distinct (map item_blueprintId (inventory seller'))
         \<and> (jsLessEq qty (Num 0) \<longrightarrow>
               bid \<notin> item_blueprintId ` set (inventory seller')
               \<and> getSellerBlueprintQuantity sellerId bid w' = (Num 0, w'))
         \<and> (case mathMax (Num 0) (mathFloor qty) of
               Num n \<Rightarrow>
                 (if n = 0
                  then bid \<notin> item_blueprintId ` set (inventory seller')
                       \<and> getSellerBlueprintQuantity sellerId bid w' = (Num 0, w')
                  else \<lparr>item_blueprintId = bid, quantity = Num n\<rparr> \<in> set (inventory seller')
                       \<and> getSellerBlueprintQuantity sellerId bid w' = (Num n, w'))
             | _ \<Rightarrow>
                 \<lparr>item_blueprintId = bid, quantity = Null\<rparr> \<in> set (inventory seller')
                 \<and> getSellerBlueprintQuantity sellerId bid w' = (Num 0, w'))
         \<and> (\<forall>n::int. 0 < n \<longrightarrow> qty = Num (of_int n) \<longrightarrow>
               \<lparr>item_blueprintId = bid, quantity = qty\<rparr> \<in> set (inventory seller')
               \<and> getSellerBlueprintQuantity sellerId bid w' = (qty, w'))
         \<and> filter (\<lambda>i. item_blueprintId i \<noteq> bid) (inventory seller')
             = map jsonInventoryItem (filter (\<lambda>i. item_blueprintId i \<noteq> bid) (inventory seller))
         \<and> (\<forall>other. other \<noteq> bid \<longrightarrow>
               getSellerBlueprintQuantity sellerId other w'
                 = (orElse (jsonNumber (fst (getSellerBlueprintQuantity sellerId other w))) (Num 0), w'))
         \<and> ((\<forall>i \<in> set (inventory seller). jsonNumber (quantity i) = quantity i) \<longrightarrow>
               filter (\<lambda>i. item_blueprintId i \<noteq> bid) (inventory seller')
                 = filter (\<lambda>i. item_blueprintId i \<noteq> bid) (inventory seller)
               \<and> (\<forall>other. other \<noteq> bid \<longrightarrow>
                     getSellerBlueprintQuantity sellerId other w'
                       = (fst (getSellerBlueprintQuantity sellerId other w), w')))
         \<and> (\<forall>w0 s b r. map_of (sellerFiles w0) s = Some r \<longrightarrow>
               b \<notin> item_blueprintId ` set (inventory r) \<longrightarrow>
               fst (getSellerBlueprintQuantity s b w0) = Num 0)
         \<and> (\<forall>w0 s b. map_of (sellerFiles w0) s = None \<longrightarrow>
               fst (getSellerBlueprintQuantity s b w0) = Num 0)"
proof -
  let ?c = "mathMax (Num 0) (mathFloor qty)"
  let ?entries = "setInventoryEntry bid qty (inventory seller)"
  define seller' where "seller' = jsonSeller (seller\<lparr>inventory := ?entries, updatedAt := now\<rparr>)"
  define w' where "w' = w\<lparr>sellerFiles := AList.update sellerId seller' (sellerFiles w)\<rparr>"
  have upd: "updateSellerInventoryItem now sellerId bid qty w = (True, w')"
    using nofault seller
    by (simp add: updateSellerInventoryItem_def getSellerById_noFaults safeWriteSeller_def
        seller'_def w'_def)
  have nofault': "readFaults w' = []"
    using nofault by (simp add: w'_def)
  have stored: "map_of (sellerFiles w') sellerId = Some seller'"
    by (simp add: w'_def update_conv')
  have inv': "inventory seller' = map jsonInventoryItem ?entries"
    by (simp add: seller'_def jsonSeller_def)
  have get': "getSellerBlueprintQuantity sellerId b w' = (inventoryQuantity (inventory seller') b, w')" for b
    using nofault' stored by (simp add: getSellerBlueprintQuantity_noFaults)
  have get: "fst (getSellerBlueprintQuantity sellerId b w) = inventoryQuantity (inventory seller) b" for b
    using nofault seller by (simp add: getSellerBlueprintQuantity_noFaults)
  have d': "distinct (map item_blueprintId (inventory seller'))"
    using wf by (simp only: inv' ids_json distinct_setInventoryEntry)
  have ids': "item_blueprintId ` set (inventory seller') = item_blueprintId ` set ?entries"
    by (simp add: inv' image_image jsonInventoryItem_def)
  have same: "getSellerBlueprintQuantity sellerId bid w' = (orElse (jsonNumber ?c) (Num 0), w')"
    by (simp add: get' inv' inventoryQuantity_json inventoryQuantity_set_same [OF wf]
        orElse_json_orElse)
  have gone: "?c = Num 0 \<Longrightarrow> bid \<notin> item_blueprintId ` set (inventory seller')
        \<and> getSellerBlueprintQuantity sellerId bid w' = (Num 0, w')"
    using ids_setInventoryEntry [OF wf, of bid qty] by (simp add: same ids')
  have le: "jsLessEq qty (Num 0) \<longrightarrow> bid \<notin> item_blueprintId ` set (inventory seller')
        \<and> getSellerBlueprintQuantity sellerId bid w' = (Num 0, w')"
    using gone clamp_nonpositive [of qty] by blast
  have member: "?c \<noteq> Num 0 \<Longrightarrow>
      \<lparr>item_blueprintId = bid, quantity = jsonNumber ?c\<rparr> \<in> set (inventory seller')"
  proof -
    assume "?c \<noteq> Num 0"
    from setInventoryEntry_member [OF refl this, of bid "inventory seller"]
    have "jsonInventoryItem \<lparr>item_blueprintId = bid, quantity = ?c\<rparr> \<in> set (inventory seller')"
      unfolding inv' by (simp only: set_map) (rule imageI)
    then show ?thesis by (simp add: jsonInventoryItem_def)
  qed
  have stored_c: "case ?c of
        Num n \<Rightarrow>
          (if n = 0
           then bid \<notin> item_blueprintId ` set (inventory seller')
                \<and> getSellerBlueprintQuantity sellerId bid w' = (Num 0, w')
           else \<lparr>item_blueprintId = bid, quantity = Num n\<rparr> \<in> set (inventory seller')
                \<and> getSellerBlueprintQuantity sellerId bid w' = (Num n, w'))
      | _ \<Rightarrow>
          \<lparr>item_blueprintId = bid, quantity = Null\<rparr> \<in> set (inventory seller')
          \<and> getSellerBlueprintQuantity sellerId bid w' = (Num 0, w')"
  proof (cases ?c)
    case (Num n)
    then show ?thesis using gone member same by (cases "n = 0") simp_all
  qed (use member same in \<open>simp_all add: jsonNumber_def orElse_def numberTruthy_def\<close>)
  have whole: "\<forall>n::int. 0 < n \<longrightarrow> qty = Num (of_int n) \<longrightarrow>
        \<lparr>item_blueprintId = bid, quantity = qty\<rparr> \<in> set (inventory seller')
        \<and> getSellerBlueprintQuantity sellerId bid w' = (qty, w')"
  proof (intro allI impI)
    fix n :: int
    assume n: "0 < n" and q: "qty = Num (of_int n)"
    have c: "?c = Num (of_int n)" unfolding q using n by (rule clamp_positive_int)
    show "\<lparr>item_blueprintId = bid, quantity = qty\<rparr> \<in> set (inventory seller')
        \<and> getSellerBlueprintQuantity sellerId bid w' = (qty, w')"
      using member same n unfolding c by (simp add: q)
  qed
  have others: "filter (\<lambda>i. item_blueprintId i \<noteq> bid) (inventory seller')
      = map jsonInventoryItem (filter (\<lambda>i. item_blueprintId i \<noteq> bid) (inventory seller))"
    by (simp add: inv' filter_json filter_set_other)
  have other_q: "\<forall>other. other \<noteq> bid \<longrightarrow> getSellerBlueprintQuantity sellerId other w'
      = (orElse (jsonNumber (fst (getSellerBlueprintQuantity sellerId other w))) (Num 0), w')"
    by (simp add: get' get inv' inventoryQuantity_json inventoryQuantity_set_other)
  have clean: "(\<forall>i \<in> set (inventory seller). jsonNumber (quantity i) = quantity i) \<longrightarrow>
        filter (\<lambda>i. item_blueprintId i \<noteq> bid) (inventory seller')
          = filter (\<lambda>i. item_blueprintId i \<noteq> bid) (inventory seller)
        \<and> (\<forall>other. other \<noteq> bid \<longrightarrow>
              getSellerBlueprintQuantity sellerId other w'
                = (fst (getSellerBlueprintQuantity sellerId other w), w'))"
  proof
    assume c: "\<forall>i \<in> set (inventory seller). jsonNumber (quantity i) = quantity i"
    then have "\<forall>i \<in> set (filter (\<lambda>i. item_blueprintId i \<noteq> bid) (inventory seller)).
        jsonNumber (quantity i) = quantity i" by simp
    from json_clean_entries [OF this] others
    have "filter (\<lambda>i. item_blueprintId i \<noteq> bid) (inventory seller')
          = filter (\<lambda>i. item_blueprintId i \<noteq> bid) (inventory seller)" by simp
    moreover have "\<forall>other. other \<noteq> bid \<longrightarrow>
              getSellerBlueprintQuantity sellerId other w'
                = (fst (getSellerBlueprintQuantity sellerId other w), w')"
      using other_q inventoryQuantity_clean [OF c] by (simp add: get)
    ultimately show "filter (\<lambda>i. item_blueprintId i \<noteq> bid) (inventory seller')
          = filter (\<lambda>i. item_blueprintId i \<noteq> bid) (inventory seller)
        \<and> (\<forall>other. other \<noteq> bid \<longrightarrow>
              getSellerBlueprintQuantity sellerId other w'
                = (fst (getSellerBlueprintQuantity sellerId other w), w'))" by simp
  qed
  have absent_entry: "\<forall>w0 s b r. map_of (sellerFiles w0) s = Some r \<longrightarrow>
      b \<notin> item_blueprintId ` set (inventory r) \<longrightarrow>
      fst (getSellerBlueprintQuantity s b w0) = Num 0"
    by (intro allI impI) (rule getSellerBlueprintQuantity_absent_entry)
  have absent_seller: "\<forall>w0 s b. map_of (sellerFiles w0) s = None \<longrightarrow>
      fst (getSellerBlueprintQuantity s b w0) = Num 0"
    by (intro allI impI) (rule getSellerBlueprintQuantity_absent_seller)
  show ?thesis
    apply (rule exI [of _ w'])
    apply (rule exI [of _ seller'])
    apply (intro conjI)
              apply (rule upd)
             apply (rule stored)
            apply (rule d')
           apply (rule le)
          apply (rule stored_c)
         apply (rule whole)
        apply (rule others)
       apply (rule other_q)
      apply (rule clean)
     apply (rule absent_entry)
    apply (rule absent_seller)
    done
qed

lemmas inventory_defs =
  updateSellerInventoryItem_def getSellerBlueprintQuantity_def getSellerById_def
  safeReadSeller_def safeWriteSeller_def jsonSeller_def jsonInventoryItem_def
  setInventoryEntry_def inventoryQuantity_def

theorem C9_setQuantity_getQuantity_witness:
  "readFaults exWorld0 = []
   \<and> map_of (sellerFiles exWorld0) ''s1'' = Some exSeller1
   \<and> distinct (map item_blueprintId (inventory exSeller1))
   \<and> (\<exists>w'. updateSellerInventoryItem 7 ''s1'' ''bpA'' (Num 3) exWorld0 = (True, w')
          \<and> getSellerBlueprintQuantity ''s1'' ''bpA'' w' = (Num 3, w')
          \<and> getSellerBlueprintQuantity ''s1'' ''bpB'' w' = (Num 5, w'))
   \<and> (\<exists>w'. updateSellerInventoryItem 7 ''s1'' ''bpA'' (Num 0) exWorld0 = (True, w')
          \<and> getSellerBlueprintQuantity ''s1'' ''bpA'' w' = (Num 0, w'))
   \<and> (\<exists>w'. updateSellerInventoryItem 7 ''s1'' ''bpA'' (Num (7 / 2)) exWorld0 = (True, w')
          \<and> getSellerBlueprintQuantity ''s1'' ''bpA'' w' = (Num 3, w'))
   \<and> (\<exists>w'. updateSellerInventoryItem 7 ''s1'' ''bpA'' PosInfinity exWorld0 = (True, w')
          \<and> getSellerBlueprintQuantity ''s1'' ''bpA'' w' = (Num 0, w'))"
proof -
  have a: "readFaults exWorld0 = []" by (simp add: exWorld0_def)
  have b: "map_of (sellerFiles exWorld0) ''s1'' = Some exSeller1" by (simp add: exWorld0_def)
  have c: "distinct (map item_blueprintId (inventory exSeller1))" by (simp add: exSeller1_def)
  have q: "fst (getSellerBlueprintQuantity ''s1'' ''bpB'' exWorld0) = Num 5"
    by (simp add: getSellerBlueprintQuantity_noFaults a b) (simp add: exSeller1_def inventoryQuantity_def)
  from C9_setQuantity_getQuantity [OF a b c, of 7 "''bpA''" "Num 3"]
  have three: "\<exists>w'. updateSellerInventoryItem 7 ''s1'' ''bpA'' (Num 3) exWorld0 = (True, w')
          \<and> getSellerBlueprintQuantity ''s1'' ''bpA'' w' = (Num 3, w')
          \<and> getSellerBlueprintQuantity ''s1'' ''bpB'' w' = (Num 5, w')"
    using q by (auto simp: clamp_examples)
  from C9_setQuantity_getQuantity [OF a b c, of 7 "''bpA''" "Num 0"]
  have zero: "\<exists>w'. updateSellerInventoryItem 7 ''s1'' ''bpA'' (Num 0) exWorld0 = (True, w')
          \<and> getSellerBlueprintQuantity ''s1'' ''bpA'' w' = (Num 0, w')"
    by auto
  from C9_setQuantity_getQuantity [OF a b c, of 7 "''bpA''" "Num (7 / 2)"]
  have half: "\<exists>w'. updateSellerInventoryItem 7 ''s1'' ''bpA'' (Num (7 / 2)) exWorld0 = (True, w')
          \<and> getSellerBlueprintQuantity ''s1'' ''bpA'' w' = (Num 3, w')"
    by (auto simp: clamp_examples)
  from C9_setQuantity_getQuantity [OF a b c, of 7 "''bpA''" PosInfinity]
  have inf: "\<exists>w'. updateSellerInventoryItem 7 ''s1'' ''bpA'' PosInfinity exWorld0 = (True, w')
          \<and> getSellerBlueprintQuantity ''s1'' ''bpA'' w' = (Num 0, w')"
    by (auto simp: clamp_examples)
  show ?thesis using a b c three zero half inf by blast
qed

text \<open>
  Claim C9 as it is worded (for \<open>qty > 0\<close> the entry is upserted and
  \<open>getSellerBlueprintQuantity\<close> returns \<open>qty\<close>) fails at three quantities above 0: for
  three and a half the quantity read back is 3; for one half the entry is removed and 0
  is read back; for \<open>Infinity\<close> the entry is written as \<open>null\<close> and 0 is read back.
\<close>

theorem C9_quantity_is_floored:
  "jsGreater (Num (7 / 2)) (Num 0)
   \<and> fst (updateSellerInventoryItem 7 ''s1'' ''bpA'' (Num (7 / 2)) exWorld0)
   \<and> fst (getSellerBlueprintQuantity ''s1'' ''bpA''
          (snd (updateSellerInventoryItem 7 ''s1'' ''bpA'' (Num (7 / 2)) exWorld0))) = Num 3
   \<and> jsGreater (Num (1 / 2)) (Num 0)
   \<and> fst (updateSellerInventoryItem 7 ''s1'' ''bpA'' (Num (1 / 2)) exWorld0)
   \<and> fst (getSellerBlueprintQuantity ''s1'' ''bpA''
          (snd (updateSellerInventoryItem 7 ''s1'' ''bpA'' (Num (1 / 2)) exWorld0))) = Num 0
   \<and> map_option (map item_blueprintId \<circ> inventory)
        (map_of (sellerFiles (snd (updateSellerInventoryItem 7 ''s1'' ''bpA'' (Num (1 / 2)) exWorld0)))
           ''s1'') = Some [''bpB'']
   \<and> jsGreater PosInfinity (Num 0)
   \<and> fst (updateSellerInventoryItem 7 ''s1'' ''bpA'' PosInfinity exWorld0)
   \<and> fst (getSellerBlueprintQuantity ''s1'' ''bpA''
          (snd (updateSellerInventoryItem 7 ''s1'' ''bpA'' PosInfinity exWorld0))) = Num 0
   \<and> map_option (map quantity \<circ> inventory)
        (map_of (sellerFiles (snd (updateSellerInventoryItem 7 ''s1'' ''bpA'' PosInfinity exWorld0)))
           ''s1'') = Some [Null, Num 5]"
  by (simp add: inventory_defs clamp_examples exWorld0_def exSeller1_def jsGreater_def
      finiteValue_def jsonNumber_def orElse_def numberTruthy_def)

section \<open>Reads leave the files alone\<close>

lemma onlyReads_refl: "onlyReads w w"
  by (simp add: onlyReads_def)

lemma onlyReads_trans: "onlyReads w w1 \<Longrightarrow> onlyReads w1 w2 \<Longrightarrow> onlyReads w w2"
  unfolding onlyReads_def
  by (metis (no_types, lifting) world.surjective world.update_convs(3))

lemma onlyReads_files:
  "onlyReads w w1 \<Longrightarrow> orderFiles w1 = orderFiles w \<and> sellerFiles w1 = sellerFiles w"
  unfolding onlyReads_def by (metis world.select_convs(1,2) world.surjective world.update_convs(3))

lemma safeReadSeller_result:
  "safeReadSeller file w = (r, w1) \<Longrightarrow>
   onlyReads w w1 \<and> (r = None \<or> r = map_of (sellerFiles w) file)"
  by (auto simp: safeReadSeller_def onlyReads_def split: list.splits if_splits)

lemma getSellerById_result:
  "getSellerById sellerId w = (r, w1) \<Longrightarrow>
   onlyReads w w1 \<and> (r = None \<or> r = map_of (sellerFiles w) sellerId)"
  by (simp add: getSellerById_def safeReadSeller_result)

lemma getSellerBlueprintQuantity_onlyReads:
  "getSellerBlueprintQuantity sellerId bid w = (q, w1) \<Longrightarrow> onlyReads w w1"
  by (auto simp: getSellerBlueprintQuantity_def split: prod.splits option.splits
      dest: getSellerById_result)

lemma acceptOrderFullCheck_onlyReads:
  "acceptOrderFullCheck sellerId claims w = (r, w1) \<Longrightarrow> onlyReads w w1"
proof (induction claims arbitrary: w)
  case Nil
  then show ?case by (simp add: onlyReads_refl)
next
  case (Cons claim claims)
  obtain q wq where q: "getSellerBlueprintQuantity sellerId (blueprintId claim) w = (q, wq)"
    by (cases "getSellerBlueprintQuantity sellerId (blueprintId claim) w")
  have rq: "onlyReads w wq" using q by (rule getSellerBlueprintQuantity_onlyReads)
  show ?case
    using Cons.prems q rq Cons.IH [of wq]
    by (auto simp: onlyReads_refl split: if_splits intro: onlyReads_trans)
qed

lemma claimOrderItemsLoop_onlyReads:
  "claimOrderItemsLoop now sellerId d bids claims claimed w = (r, w1) \<Longrightarrow> onlyReads w w1"
proof (induction bids arbitrary: claims claimed w)
  case Nil
  then show ?case by (auto simp: onlyReads_refl)
next
  case (Cons bid bids)
  show ?case
  proof (cases "find (\<lambda>c. blueprintId c = bid) claims")
    case None
    with Cons show ?thesis by simp
  next
    case (Some claim)
    obtain q wq where q: "getSellerBlueprintQuantity sellerId (blueprintId claim) w = (q, wq)"
      by (cases "getSellerBlueprintQuantity sellerId (blueprintId claim) w")
    have rq: "onlyReads w wq" using q by (rule getSellerBlueprintQuantity_onlyReads)
    show ?thesis
      using Cons.prems Some q rq Cons.IH
      by (auto split: if_splits intro: onlyReads_trans)
  qed
qed

text \<open>
  Claim C10.  When \<open>sellerId\<close> names no seller file, or a seller whose status is not
  \<open>active\<close>, \<open>acceptOrderFull\<close> and \<open>claimOrderItems\<close> both fail, and the world they
  leave differs from the one they found at most in the read outcomes consumed: no order
  file and no seller file changes.  This holds whatever the reads of seller files do.
\<close>

theorem C10_inactive_seller_cannot_claim:
  assumes "\<forall>seller. map_of (sellerFiles w) sellerId = Some seller \<longrightarrow> seller_status seller \<noteq> Active"
  shows "(\<exists>e w1. acceptOrderFull now oid sellerId w = (Failure e, w1) \<and> onlyReads w w1)
       \<and> (\<exists>e w1. claimOrderItems now oid sellerId blueprintIds w = (Failure e, w1) \<and> onlyReads w w1)"
proof -
  obtain r w1 where g: "getSellerById sellerId w = (r, w1)"
    by (cases "getSellerById sellerId w")
  from getSellerById_result [OF g] have r1: "onlyReads w w1"
    and r2: "r = None \<or> r = map_of (sellerFiles w) sellerId" by simp_all
  have inactive: "\<not> canSellerReceiveOrders s" if "r = Some s" for s
    using that r2 assms by (auto simp: canSellerReceiveOrders_def)
  have "\<exists>e w1. acceptOrderFull now oid sellerId w = (Failure e, w1) \<and> onlyReads w w1"
    using g r1 inactive
    by (cases r) (auto simp: acceptOrderFull_def onlyReads_refl split: option.splits)
  moreover have "\<exists>e w1. claimOrderItems now oid sellerId blueprintIds w = (Failure e, w1) \<and> onlyReads w w1"
    using g r1 inactive
    by (cases r) (auto simp: claimOrderItems_def onlyReads_refl split: option.splits)
  ultimately show ?thesis by blast
qed

section \<open>Accepting a whole order\<close>

lemma onlyReads_getOrderById: "onlyReads w w1 \<Longrightarrow> getOrderById oid w1 = getOrderById oid w"
  by (simp add: getOrderById_def safeReadOrder_def onlyReads_files)

lemma acceptOrderFullCheck_noFaults:
  "readFaults w = [] \<Longrightarrow> acceptOrderFullCheck sellerId claims w = (r, w1) \<Longrightarrow>
   w1 = w \<and>
   (r = None \<longleftrightarrow>
      \<not> list_ex (\<lambda>c. claimStatus c \<noteq> Unclaimed \<and> claimedBySellerId c \<noteq> Some sellerId) claims
      \<and> \<not> list_ex (\<lambda>c. jsLess (fst (getSellerBlueprintQuantity sellerId (blueprintId c) w)) (requestedQty c)) claims)"
proof (induction claims arbitrary: r)
  case Nil
  then show ?case by auto
next
  case (Cons claim claims)
  then show ?case
    by (auto simp: getSellerBlueprintQuantity_noFaults split: if_splits)
qed

lemma acceptOrderFull_success_noFaults:
  assumes nf: "readFaults w = []"
    and o: "getOrderById oid w = Some order"
    and s: "map_of (sellerFiles w) sellerId = Some seller"
    and act: "seller_status seller = Active"
    and live: "status order \<noteq> Closed" "status order \<noteq> Cancelled"
    and free: "\<not> (truthy (assignedSellerId order) \<and> assignedSellerId order \<noteq> Some sellerId)"
    and items: "\<not> list_ex (\<lambda>c. claimStatus c \<noteq> Unclaimed \<and> claimedBySellerId c \<noteq> Some sellerId)
                    (itemClaims order)"
    and stock: "\<not> list_ex (\<lambda>c. jsLess (fst (getSellerBlueprintQuantity sellerId (blueprintId c) w)) (requestedQty c))
                    (itemClaims order)"
  shows "acceptOrderFull now oid sellerId w =
     (Success (Some (map blueprintId (itemClaims order))),
      updateOrder
        (order\<lparr>assignedSellerId := Some sellerId,
               assignedSellerDiscordId := Some (discordId seller),
               assignedAt := Some now,
               status := InProgress,
               itemClaims := map (claimFor sellerId (discordId seller) now) (itemClaims order)\<rparr>) w)"
proof -
  obtain c w2 where ch: "acceptOrderFullCheck sellerId (itemClaims order) w = (c, w2)"
    by (cases "acceptOrderFullCheck sellerId (itemClaims order) w")
  from acceptOrderFullCheck_noFaults [OF nf ch] items stock have "w2 = w" and "c = None"
    by simp_all
  then show ?thesis
    using nf o s act live free ch
    by (simp add: acceptOrderFull_def getSellerById_noFaults canSellerReceiveOrders_def)
qed

text \<open>
  The effect of \<open>acceptOrderFull\<close>: it either fails and leaves every file as it was, or
  succeeds and stores, in one write, the order with \<open>assignedSellerId\<close>, \<open>assignedAt\<close>,
  status \<open>in_progress\<close> and every item \<open>claimed\<close> with \<open>claimedQuantity = requestedQty\<close>
  (second conjunct: what \<open>claimFor\<close> makes of an item).  When the reads of seller files
  succeed, it fails, with the world unchanged, if the order is closed or cancelled, is
  assigned to another seller, has an item that is neither unclaimed nor held by this
  seller, or asks more of some item than the seller stocks; and for an active seller
  and none of these it succeeds.
\<close>

lemma acceptOrderFull_fail_or_whole:
  "((\<exists>e w1. acceptOrderFull now oid sellerId w = (Failure e, w1) \<and> onlyReads w w1)
    \<or> (\<exists>order seller w1.
          getOrderById oid w = Some order
        \<and> map_of (sellerFiles w) sellerId = Some seller
        \<and> onlyReads w w1
        \<and> acceptOrderFull now oid sellerId w =
            (Success (Some (map blueprintId (itemClaims order))),
             updateOrder
               (order\<lparr>assignedSellerId := Some sellerId,
                      assignedSellerDiscordId := Some (discordId seller),
                      assignedAt := Some now,
                      status := InProgress,
                      itemClaims := map (claimFor sellerId (discordId seller) now) (itemClaims order)\<rparr>)
               w1)))
   \<and> (\<forall>c. claimStatus (claimFor sellerId sellerDiscord now c) = Claimed
          \<and> claimedQuantity (claimFor sellerId sellerDiscord now c) = Some (requestedQty c)
          \<and> claimedBySellerId (claimFor sellerId sellerDiscord now c) = Some sellerId
          \<and> blueprintId (claimFor sellerId sellerDiscord now c) = blueprintId c
          \<and> requestedQty (claimFor sellerId sellerDiscord now c) = requestedQty c)
   \<and> (readFaults w = [] \<longrightarrow>
        (\<forall>order.
           getOrderById oid w = Some order \<longrightarrow>
           (status order = Closed \<or> status order = Cancelled
            \<or> (truthy (assignedSellerId order) \<and> assignedSellerId order \<noteq> Some sellerId)
            \<or> list_ex (\<lambda>c. claimStatus c \<noteq> Unclaimed \<and> claimedBySellerId c \<noteq> Some sellerId)
                 (itemClaims order)
            \<or> list_ex (\<lambda>c. jsLess (fst (getSellerBlueprintQuantity sellerId (blueprintId c) w)) (requestedQty c))
                 (itemClaims order)) \<longrightarrow>
           (\<exists>e. acceptOrderFull now oid sellerId w = (Failure e, w))))
   \<and> (readFaults w = [] \<longrightarrow>
        (\<forall>order seller.
           getOrderById oid w = Some order \<longrightarrow>
           map_of (sellerFiles w) sellerId = Some seller \<longrightarrow>
           seller_status seller = Active \<longrightarrow>
           status order \<noteq> Closed \<longrightarrow>
           status order \<noteq> Cancelled \<longrightarrow>
           \<not> (truthy (assignedSellerId order) \<and> assignedSellerId order \<noteq> Some sellerId) \<longrightarrow>
           \<not> list_ex (\<lambda>c. claimStatus c \<noteq> Unclaimed \<and> claimedBySellerId c \<noteq> Some sellerId)
                 (itemClaims order) \<longrightarrow>
           \<not> list_ex (\<lambda>c. jsLess (fst (getSellerBlueprintQuantity sellerId (blueprintId c) w)) (requestedQty c))
                 (itemClaims order) \<longrightarrow>
           acceptOrderFull now oid sellerId w =
             (Success (Some (map blueprintId (itemClaims order))),
              updateOrder
                (order\<lparr>assignedSellerId := Some sellerId,
                       assignedSellerDiscordId := Some (discordId seller),
                       assignedAt := Some now,
                       status := InProgress,
                       itemClaims := map (claimFor sellerId (discordId seller) now) (itemClaims order)\<rparr>)
                w)))"
proof (intro conjI)
  show "(\<exists>e w1. acceptOrderFull now oid sellerId w = (Failure e, w1) \<and> onlyReads w w1)
    \<or> (\<exists>order seller w1.
          getOrderById oid w = Some order
        \<and> map_of (sellerFiles w) sellerId = Some seller
        \<and> onlyReads w w1
        \<and> acceptOrderFull now oid sellerId w =
            (Success (Some (map blueprintId (itemClaims order))),
             updateOrder
               (order\<lparr>assignedSellerId := Some sellerId,
                      assignedSellerDiscordId := Some (discordId seller),
                      assignedAt := Some now,
                      status := InProgress,
                      itemClaims := map (claimFor sellerId (discordId seller) now) (itemClaims order)\<rparr>)
               w1))"
  proof (cases "getOrderById oid w")
    case None
    then show ?thesis by (simp add: acceptOrderFull_def onlyReads_refl)
  next
    case (Some order)
    obtain r w1 where g: "getSellerById sellerId w = (r, w1)"
      by (cases "getSellerById sellerId w")
    from getSellerById_result [OF g] have r1: "onlyReads w w1"
      and r2: "r = None \<or> r = map_of (sellerFiles w) sellerId" by simp_all
    obtain c w2 where ch: "acceptOrderFullCheck sellerId (itemClaims order) w1 = (c, w2)"
      by (cases "acceptOrderFullCheck sellerId (itemClaims order) w1")
    have r3: "onlyReads w w2"
      using r1 acceptOrderFullCheck_onlyReads [OF ch] by (rule onlyReads_trans)
    show ?thesis
    proof (cases r)
      case None
      then show ?thesis using Some g r1 by (auto simp: acceptOrderFull_def onlyReads_refl)
    next
      case (Some seller)
      then have "map_of (sellerFiles w) sellerId = Some seller" using r2 by simp
      then show ?thesis
        using \<open>getOrderById oid w = Some order\<close> Some g ch r1 r3
        by (cases c) (auto simp: acceptOrderFull_def onlyReads_refl)
    qed
  qed
next
  show "\<forall>c. claimStatus (claimFor sellerId sellerDiscord now c) = Claimed
          \<and> claimedQuantity (claimFor sellerId sellerDiscord now c) = Some (requestedQty c)
          \<and> claimedBySellerId (claimFor sellerId sellerDiscord now c) = Some sellerId
          \<and> blueprintId (claimFor sellerId sellerDiscord now c) = blueprintId c
          \<and> requestedQty (claimFor sellerId sellerDiscord now c) = requestedQty c"
    by (simp add: claimFor_def)
next
  show "readFaults w = [] \<longrightarrow>
        (\<forall>order.
           getOrderById oid w = Some order \<longrightarrow>
           (status order = Closed \<or> status order = Cancelled
            \<or> (truthy (assignedSellerId order) \<and> assignedSellerId order \<noteq> Some sellerId)
            \<or> list_ex (\<lambda>c. claimStatus c \<noteq> Unclaimed \<and> claimedBySellerId c \<noteq> Some sellerId)
                 (itemClaims order)
            \<or> list_ex (\<lambda>c. jsLess (fst (getSellerBlueprintQuantity sellerId (blueprintId c) w)) (requestedQty c))
                 (itemClaims order)) \<longrightarrow>
           (\<exists>e. acceptOrderFull now oid sellerId w = (Failure e, w)))"
  proof (intro impI allI)
    fix order
    assume nf: "readFaults w = []" and o: "getOrderById oid w = Some order"
      and blocked: "status order = Closed \<or> status order = Cancelled
            \<or> (truthy (assignedSellerId order) \<and> assignedSellerId order \<noteq> Some sellerId)
            \<or> list_ex (\<lambda>c. claimStatus c \<noteq> Unclaimed \<and> claimedBySellerId c \<noteq> Some sellerId)
                 (itemClaims order)
            \<or> list_ex (\<lambda>c. jsLess (fst (getSellerBlueprintQuantity sellerId (blueprintId c) w)) (requestedQty c))
                 (itemClaims order)"
    obtain c w2 where ch: "acceptOrderFullCheck sellerId (itemClaims order) w = (c, w2)"
      by (cases "acceptOrderFullCheck sellerId (itemClaims order) w")
    from acceptOrderFullCheck_noFaults [OF nf ch] have w2: "w2 = w"
      and c: "c = None \<longleftrightarrow>
        \<not> list_ex (\<lambda>c. claimStatus c \<noteq> Unclaimed \<and> claimedBySellerId c \<noteq> Some sellerId) (itemClaims order)
        \<and> \<not> list_ex (\<lambda>c. jsLess (fst (getSellerBlueprintQuantity sellerId (blueprintId c) w)) (requestedQty c)) (itemClaims order)"
      by simp_all
    show "\<exists>e. acceptOrderFull now oid sellerId w = (Failure e, w)"
      using nf o blocked ch w2 c
      by (cases c) (auto simp: acceptOrderFull_def getSellerById_noFaults split: option.splits)
  qed
next
  show "readFaults w = [] \<longrightarrow>
        (\<forall>order seller.
           getOrderById oid w = Some order \<longrightarrow>
           map_of (sellerFiles w) sellerId = Some seller \<longrightarrow>
           seller_status seller = Active \<longrightarrow>
           status order \<noteq> Closed \<longrightarrow>
           status order \<noteq> Cancelled \<longrightarrow>
           \<not> (truthy (assignedSellerId order) \<and> assignedSellerId order \<noteq> Some sellerId) \<longrightarrow>
           \<not> list_ex (\<lambda>c. claimStatus c \<noteq> Unclaimed \<and> claimedBySellerId c \<noteq> Some sellerId)
                 (itemClaims order) \<longrightarrow>
           \<not> list_ex (\<lambda>c. jsLess (fst (getSellerBlueprintQuantity sellerId (blueprintId c) w)) (requestedQty c))
                 (itemClaims order) \<longrightarrow>
           acceptOrderFull now oid sellerId w =
             (Success (Some (map blueprintId (itemClaims order))),
              updateOrder
                (order\<lparr>assignedSellerId := Some sellerId,
                       assignedSellerDiscordId := Some (discordId seller),
                       assignedAt := Some now,
                       status := InProgress,
                       itemClaims := map (claimFor sellerId (discordId seller) now) (itemClaims order)\<rparr>)
                w))"
    by (intro impI allI) (rule acceptOrderFull_success_noFaults)
qed

section \<open>Releasing a claim\<close>

lemma find_updateFirst_hit:
  "find p xs = Some x \<Longrightarrow> p (f x) \<Longrightarrow> find p (updateFirst p f xs) = Some (f x)"
  by (induction xs) (auto split: if_splits)

lemma filter_updateFirst_rest:
  "(\<And>x. p x \<Longrightarrow> p (f x)) \<Longrightarrow>
   filter (\<lambda>c. \<not> p c) (updateFirst p f xs) = filter (\<lambda>c. \<not> p c) xs"
  by (induction xs) auto

lemma orderId_jsonOrder [simp]: "orderId (jsonOrder order) = orderId order"
  by (simp add: jsonOrder_def)

lemma getOrderById_updateOrder:
  "getOrderFilePath (orderId order) = getOrderFilePath oid \<Longrightarrow>
   getOrderById oid (updateOrder order w) = Some (jsonOrder order)"
  by (simp add: getOrderById_def updateOrder_def safeReadOrder_def safeWriteOrder_def
      update_conv' migrateOrderIfNeeded_def)

lemma map_updateFirst:
  "(\<And>x. p (j x) = p x) \<Longrightarrow> (\<And>x. j (f x) = f (j x)) \<Longrightarrow>
   map j (updateFirst p f xs) = updateFirst p f (map j xs)"
  by (induction xs) simp_all

lemma jsonOrder_clean:
  "jsonOrder order = order \<longleftrightarrow>
   map jsonGroup (sellerGroups order) = sellerGroups order
   \<and> map jsonItemClaim (itemClaims order) = itemClaims order"
  by (cases order) (auto simp: jsonOrder_def)


text \<open>
  Claim C7.  For an order that is not closed or cancelled and an item held by the
  calling seller and not fulfilled, \<open>releaseOrderItem\<close> succeeds and stores the order in
  which that item is \<open>unclaimed\<close> with \<open>claimedBySellerId\<close>, \<open>claimedQuantity\<close> and
  \<open>claimedAt\<close> cleared and the other items as they were; the assignment is cleared
  exactly when the seller was the assignee and holds no item any more; and the status
  is \<open>open\<close> exactly when no item is left claimed or fulfilled (otherwise unchanged).
  What is read back is the JSON image of that order, which is the order itself when the
  order read was its own JSON image.
\<close>

theorem C7_releaseOrderItem:
  assumes order: "getOrderById oid w = Some order"
    and live: "status order \<noteq> Closed" "status order \<noteq> Cancelled"
    and item: "find (\<lambda>c. blueprintId c = bid) (itemClaims order) = Some claim"
    and mine: "claimedBySellerId claim = Some sellerId"
    and pending: "claimStatus claim \<noteq> Fulfilled"
  shows "\<exists>order'.
           releaseOrderItem oid sellerId bid w = (Success (Some [bid]), updateOrder order' w)
         \<and> itemClaims order' = updateFirst (\<lambda>c. blueprintId c = bid) releaseClaim (itemClaims order)
         \<and> find (\<lambda>c. blueprintId c = bid) (itemClaims order') = Some (releaseClaim claim)
         \<and> filter (\<lambda>c. blueprintId c \<noteq> bid) (itemClaims order')
             = filter (\<lambda>c. blueprintId c \<noteq> bid) (itemClaims order)
         \<and> releaseClaim claim =
             \<lparr>blueprintId = bid, blueprintName = blueprintName claim,
              requestedQty = requestedQty claim, claimStatus = Unclaimed,
              claimedBySellerId = None, claimedBySellerDiscordId = None, claimedQuantity = None,
              claimedAt = None, fulfilledAt = fulfilledAt claim\<rparr>
         \<and> (if assignedSellerId order = Some sellerId
                 \<and> \<not> list_ex (\<lambda>c. claimedBySellerId c = Some sellerId \<and> claimStatus c \<noteq> Unclaimed)
                          (itemClaims order')
              then assignedSellerId order' = None \<and> assignedAt order' = None
                   \<and> assignedSellerDiscordId order' = None
              else assignedSellerId order' = assignedSellerId order
                   \<and> assignedAt order' = assignedAt order
                   \<and> assignedSellerDiscordId order' = assignedSellerDiscordId order)
         \<and> (if list_ex (\<lambda>c. claimStatus c \<noteq> Unclaimed) (itemClaims order')
              then status order' = status order else status order' = Open)
         \<and> (orderId order = oid \<longrightarrow>
               getOrderById oid (updateOrder order' w) = Some (jsonOrder order'))
         \<and> (orderId order = oid \<longrightarrow> jsonOrder order = order \<longrightarrow>
               getOrderById oid (updateOrder order' w) = Some order')"
proof -
  let ?claims = "updateFirst (\<lambda>c. blueprintId c = bid) releaseClaim (itemClaims order)"
  let ?order1 = "order\<lparr>itemClaims := ?claims\<rparr>"
  let ?order2 = "if assignedSellerId ?order1 = Some sellerId
        \<and> \<not> list_ex (\<lambda>c. claimedBySellerId c = Some sellerId \<and> claimStatus c \<noteq> Unclaimed) ?claims
      then ?order1\<lparr>assignedSellerId := None, assignedSellerDiscordId := None, assignedAt := None\<rparr>
      else ?order1"
  let ?order3 = "if \<not> list_ex (\<lambda>c. claimStatus c \<noteq> Unclaimed) ?claims
      then ?order2\<lparr>status := Open\<rparr> else ?order2"
  have run: "releaseOrderItem oid sellerId bid w = (Success (Some [bid]), updateOrder ?order3 w)"
    using assms by (simp add: releaseOrderItem_def Let_def)
  have bid: "blueprintId claim = bid"
    using item by (auto dest: find_Some_iff [THEN iffD1])
  have claims3: "itemClaims ?order3 = ?claims" by simp
  have found: "find (\<lambda>c. blueprintId c = bid) ?claims = Some (releaseClaim claim)"
    using item bid by (intro find_updateFirst_hit) (simp_all add: releaseClaim_def)
  have rest: "filter (\<lambda>c. blueprintId c \<noteq> bid) ?claims
      = filter (\<lambda>c. blueprintId c \<noteq> bid) (itemClaims order)"
    using filter_updateFirst_rest [of "\<lambda>c. blueprintId c = bid" releaseClaim "itemClaims order"]
    by (simp add: releaseClaim_def)
  have released: "releaseClaim claim =
      \<lparr>blueprintId = bid, blueprintName = blueprintName claim,
       requestedQty = requestedQty claim, claimStatus = Unclaimed,
       claimedBySellerId = None, claimedBySellerDiscordId = None, claimedQuantity = None,
       claimedAt = None, fulfilledAt = fulfilledAt claim\<rparr>"
    using bid by (cases claim) (simp add: releaseClaim_def)
  have oid3: "orderId ?order3 = orderId order" by simp
  have readback: "orderId order = oid \<longrightarrow>
      getOrderById oid (updateOrder ?order3 w) = Some (jsonOrder ?order3)"
    using oid3 by (auto intro: getOrderById_updateOrder)
  have clean3: "jsonOrder ?order3 = ?order3" if "jsonOrder order = order"
  proof -
    from that have g: "map jsonGroup (sellerGroups order) = sellerGroups order"
      and c: "map jsonItemClaim (itemClaims order) = itemClaims order"
      by (simp_all add: jsonOrder_clean)
    have "map jsonItemClaim ?claims = updateFirst (\<lambda>c. blueprintId c = bid) releaseClaim
        (map jsonItemClaim (itemClaims order))"
      by (rule map_updateFirst) (simp_all add: jsonItemClaim_def releaseClaim_def)
    then have "map jsonItemClaim ?claims = ?claims" by (simp only: c)
    then show ?thesis using g by (simp add: jsonOrder_clean)
  qed
  have readback_clean: "orderId order = oid \<longrightarrow> jsonOrder order = order \<longrightarrow>
      getOrderById oid (updateOrder ?order3 w) = Some ?order3"
    using readback clean3 by simp
  have assign: "if assignedSellerId order = Some sellerId
                 \<and> \<not> list_ex (\<lambda>c. claimedBySellerId c = Some sellerId \<and> claimStatus c \<noteq> Unclaimed)
                          (itemClaims ?order3)
              then assignedSellerId ?order3 = None \<and> assignedAt ?order3 = None
                   \<and> assignedSellerDiscordId ?order3 = None
              else assignedSellerId ?order3 = assignedSellerId order
                   \<and> assignedAt ?order3 = assignedAt order
                   \<and> assignedSellerDiscordId ?order3 = assignedSellerDiscordId order"
    by simp
  have stat: "if list_ex (\<lambda>c. claimStatus c \<noteq> Unclaimed) (itemClaims ?order3)
              then status ?order3 = status order else status ?order3 = Open"
    by simp
  show ?thesis
    apply (rule exI [of _ ?order3])
    apply (intro conjI)
            apply (rule run)
           apply (rule claims3)
          apply (simp only: claims3 found)
         apply (simp only: claims3 rest)
        apply (rule released)
       apply (rule assign)
      apply (rule stat)
     apply (rule readback)
    apply (rule readback_clean)
    done
qed

section \<open>Fulfilling an item\<close>



lemma getOrderById_safeWriteSeller:
  "getOrderById oid (safeWriteSeller file seller w) = getOrderById oid w"
  by (simp add: getOrderById_def safeReadOrder_def safeWriteSeller_def)







section \<open>Seller views\<close>

lemma buildSellerOrderViewLoop_visible:
  assumes "readFaults w = []" and "itemVisibleTo w order sellerId claim"
  shows
    "buildSellerOrderViewLoop sellerId (assignedSellerId order = Some sellerId) (claim # claims)
       (items, n, m, c) w =
     buildSellerOrderViewLoop sellerId (assignedSellerId order = Some sellerId) claims
       (items @ [viewItemOf w sellerId claim],
        (if claimStatus claim = Unclaimed
            \<and> jsGreater (fst (getSellerBlueprintQuantity sellerId (blueprintId claim) w)) (Num 0)
         then n + 1 else n),
        (if claimedBySellerId claim = Some sellerId then m + 1 else m),
        (if claimStatus claim = Unclaimed
            \<and> jsLess (fst (getSellerBlueprintQuantity sellerId (blueprintId claim) w))
                  (requestedQty claim)
         then False else c)) w"
proof -
  have q: "getSellerBlueprintQuantity sellerId (blueprintId claim) w =
      (fst (getSellerBlueprintQuantity sellerId (blueprintId claim) w), w)"
    using assms(1) by (simp add: getSellerBlueprintQuantity_noFaults)
  show ?thesis
    using assms(2)
    apply (subst buildSellerOrderViewLoop.simps)
    apply (subst q)
    apply (simp only: prod.case Let_def itemVisibleTo_def viewItemOf_def if_True)
    done
qed

lemma buildSellerOrderViewLoop_hidden:
  assumes "readFaults w = []" and "\<not> itemVisibleTo w order sellerId claim"
  shows
    "buildSellerOrderViewLoop sellerId (assignedSellerId order = Some sellerId) (claim # claims)
       (items, n, m, c) w =
     buildSellerOrderViewLoop sellerId (assignedSellerId order = Some sellerId) claims
       (items, n, m, (if claimStatus claim = Unclaimed then False else c)) w"
proof -
  have q: "getSellerBlueprintQuantity sellerId (blueprintId claim) w =
      (fst (getSellerBlueprintQuantity sellerId (blueprintId claim) w), w)"
    using assms(1) by (simp add: getSellerBlueprintQuantity_noFaults)
  show ?thesis
    using assms(2)
    apply (subst buildSellerOrderViewLoop.simps)
    apply (subst q)
    apply (simp only: prod.case Let_def itemVisibleTo_def if_False)
    done
qed

lemma buildSellerOrderViewLoop_noFaults:
  "readFaults w = [] \<Longrightarrow>
   snd (buildSellerOrderViewLoop sellerId (assignedSellerId order = Some sellerId) claims
          (items, n, m, c) w) = w
   \<and> fst (fst (buildSellerOrderViewLoop sellerId (assignedSellerId order = Some sellerId) claims
          (items, n, m, c) w))
      = items @ map (viewItemOf w sellerId) (filter (itemVisibleTo w order sellerId) claims)"
proof (induction claims arbitrary: items n m c)
  case Nil
  then show ?case by simp
next
  case (Cons claim claims)
  show ?case
  proof (cases "itemVisibleTo w order sellerId claim")
    case True
    show ?thesis
      using Cons.IH [OF Cons.prems] True
      by (simp only: buildSellerOrderViewLoop_visible [OF Cons.prems True]) simp
  next
    case False
    show ?thesis
      using Cons.IH [OF Cons.prems] False
      by (simp only: buildSellerOrderViewLoop_hidden [OF Cons.prems False]) simp
  qed
qed

lemma buildSellerOrderView_noFaults:
  assumes "readFaults w = []"
  shows "snd (buildSellerOrderView order sellerId d w) = w
    \<and> (case fst (buildSellerOrderView order sellerId d w) of
         None \<Rightarrow> filter (itemVisibleTo w order sellerId) (itemClaims order) = []
       | Some v \<Rightarrow>
           view_items v =
             map (viewItemOf w sellerId) (filter (itemVisibleTo w order sellerId) (itemClaims order))
           \<and> view_items v \<noteq> [])"
proof -
  obtain items n m c w1 where
    loop: "buildSellerOrderViewLoop sellerId (assignedSellerId order = Some sellerId)
             (itemClaims order) ([], 0, 0, True) w = ((items, n, m, c), w1)"
    by (metis prod.exhaust)
  from buildSellerOrderViewLoop_noFaults [OF assms, of sellerId order "itemClaims order" "[]" 0 0 True]
  have "w1 = w"
    and "items = map (viewItemOf w sellerId) (filter (itemVisibleTo w order sellerId) (itemClaims order))"
    using loop by simp_all
  then show ?thesis
    using loop by (simp add: buildSellerOrderView_def Let_def)
qed

lemma buildSellerOrderView_nonempty:
  "buildSellerOrderView order sellerId d w = (Some v, w1) \<Longrightarrow> view_items v \<noteq> []"
  by (auto simp: buildSellerOrderView_def Let_def split: prod.splits if_splits)

lemma getOrdersForSellerLoop_nonempty:
  "list_all (\<lambda>v. view_items v \<noteq> []) (fst (getOrdersForSellerLoop sellerId d orders w))"
proof (induction orders arbitrary: w)
  case Nil
  then show ?case by simp
next
  case (Cons order orders)
  show ?case
  proof (cases "buildSellerOrderView order sellerId d w")
    case (Pair r w1)
    then show ?thesis
      using Cons.IH [of w] Cons.IH [of w1]
      by (cases r) (auto split: prod.splits dest: buildSellerOrderView_nonempty)
  qed
qed

lemma getArchivedOrdersForSellerLoop_nonempty:
  "list_all (\<lambda>v. view_items v \<noteq> []) (fst (getArchivedOrdersForSellerLoop sellerId d orders w))"
proof (induction orders arbitrary: w)
  case Nil
  then show ?case by simp
next
  case (Cons order orders)
  show ?case
  proof (cases "buildSellerOrderView order sellerId d w")
    case (Pair r w1)
    then show ?thesis
      using Cons.IH [of w] Cons.IH [of w1]
      by (cases r) (auto simp: Let_def split: prod.splits dest: buildSellerOrderView_nonempty)
  qed
qed

lemma getOrdersForSellerLoop_noFaults:
  "readFaults w = [] \<Longrightarrow>
   getOrdersForSellerLoop sellerId d orders w =
     (List.map_filter
        (\<lambda>order. if listedForSeller order sellerId
                  then fst (buildSellerOrderView order sellerId d w) else None) orders, w)"
proof (induction orders)
  case Nil
  then show ?case by (simp add: List.map_filter_simps)
next
  case (Cons order orders)
  obtain r where b: "buildSellerOrderView order sellerId d w = (r, w)"
    using buildSellerOrderView_noFaults [OF Cons.prems, of order sellerId d]
    by (cases "buildSellerOrderView order sellerId d w") simp
  show ?case
    using Cons b
    by (cases r) (auto simp: List.map_filter_simps listedForSeller_def)
qed

lemma getOrdersForSeller_noFaults:
  assumes "readFaults w = []"
  shows "getOrdersForSeller sellerId w =
     (case map_of (sellerFiles w) sellerId of
        None \<Rightarrow> []
      | Some seller \<Rightarrow>
          (if seller_status seller = Active
           then List.map_filter
                  (\<lambda>order. if listedForSeller order sellerId
                            then fst (buildSellerOrderView order sellerId (discordId seller) w)
                            else None)
                  (getAllOrders w)
           else []), w)"
  using assms
  by (simp add: getOrdersForSeller_def getSellerById_noFaults getOrdersForSellerLoop_noFaults
      canSellerReceiveOrders_def split: option.splits)

lemma getOrdersForSeller_nonempty:
  "list_all (\<lambda>v. view_items v \<noteq> []) (fst (getOrdersForSeller sellerId w))"
  using getOrdersForSellerLoop_nonempty
  by (auto simp: getOrdersForSeller_def Let_def split: prod.splits option.splits)

lemma getArchivedOrdersForSeller_nonempty:
  "list_all (\<lambda>v. view_items v \<noteq> []) (fst (getArchivedOrdersForSeller sellerId w))"
  using getArchivedOrdersForSellerLoop_nonempty
  by (auto simp: getArchivedOrdersForSeller_def Let_def split: prod.splits option.splits)

lemma buildSellerOrderView_fst_nonempty:
  "fst (buildSellerOrderView order sellerId d w) = Some v \<Longrightarrow> view_items v \<noteq> []"
  by (cases "buildSellerOrderView order sellerId d w") (auto dest: buildSellerOrderView_nonempty)

lemma getOrderForSeller_nonempty:
  "fst (getOrderForSeller oid sellerId w) = Some v \<Longrightarrow> view_items v \<noteq> []"
  by (auto simp: getOrderForSeller_def split: prod.splits option.splits if_splits
      dest: buildSellerOrderView_fst_nonempty)

text \<open>
  Claim C8.  When reads succeed, the items of a seller's view of an order are the
  projections of exactly the item claims that \<open>itemVisibleTo\<close> admits (claimed by the
  seller, or unclaimed with stock above 0, or the seller is the assignee), in order; the
  view is absent when no item is visible; \<open>getOrdersForSeller\<close> lists the views of the
  listed orders that have one, so an order without a visible item is left out; and
  no view of \<open>getOrdersForSeller\<close>, \<open>getArchivedOrdersForSeller\<close> or \<open>getOrderForSeller\<close>
  has an empty item list.
\<close>

theorem C8_seller_view_visibility:
  assumes "readFaults w = []"
  shows "(case fst (buildSellerOrderView order sellerId sellerDiscord w) of
            None \<Rightarrow> filter (itemVisibleTo w order sellerId) (itemClaims order) = []
          | Some v \<Rightarrow>
              view_items v =
                map (viewItemOf w sellerId)
                  (filter (itemVisibleTo w order sellerId) (itemClaims order))
              \<and> view_items v \<noteq> [])
       \<and> fst (getOrdersForSeller sellerId w) =
           (case map_of (sellerFiles w) sellerId of
              None \<Rightarrow> []
            | Some seller \<Rightarrow>
                (if seller_status seller = Active
                 then List.map_filter
                        (\<lambda>order. if listedForSeller order sellerId
                                  then fst (buildSellerOrderView order sellerId (discordId seller) w)
                                  else None)
                        (getAllOrders w)
                 else []))
       \<and> list_all (\<lambda>v. view_items v \<noteq> []) (fst (getOrdersForSeller sellerId w))
       \<and> list_all (\<lambda>v. view_items v \<noteq> []) (fst (getArchivedOrdersForSeller sellerId w))
       \<and> (case fst (getOrderForSeller oid sellerId w) of
             None \<Rightarrow> True | Some v \<Rightarrow> view_items v \<noteq> [])"
proof -
  have a: "case fst (buildSellerOrderView order sellerId sellerDiscord w) of
            None \<Rightarrow> filter (itemVisibleTo w order sellerId) (itemClaims order) = []
          | Some v \<Rightarrow>
              view_items v =
                map (viewItemOf w sellerId)
                  (filter (itemVisibleTo w order sellerId) (itemClaims order))
              \<and> view_items v \<noteq> []"
    using buildSellerOrderView_noFaults [OF assms] by simp
  have b: "case fst (getOrderForSeller oid sellerId w) of
             None \<Rightarrow> True | Some v \<Rightarrow> view_items v \<noteq> []"
    by (auto split: option.splits dest: getOrderForSeller_nonempty)
  show ?thesis
    using a b getOrdersForSeller_noFaults [OF assms, of sellerId]
      getOrdersForSeller_nonempty [of sellerId w]
      getArchivedOrdersForSeller_nonempty [of sellerId w]
    by simp
qed

section \<open>Resolution\<close>

lemma set_insertBy: "set (insertBy cmp x xs) = insert x (set xs)"
  by (induction xs) auto

lemma set_sortBy: "set (sortBy cmp xs) = set xs"
  by (induction xs) (auto simp: sortBy_def set_insertBy)

lemma readSellerFiles_noFaults:
  "readFaults w = [] \<Longrightarrow>
   snd (readSellerFiles files w) = w
   \<and> set (fst (readSellerFiles files w)) =
       {seller. \<exists>file \<in> set files. map_of (sellerFiles w) file = Some seller
          \<and> seller_id seller \<noteq> [] \<and> discordId seller \<noteq> []}"
proof (induction files)
  case Nil
  then show ?case by simp
next
  case (Cons f files)
  obtain rest w2 where rest: "readSellerFiles files w = (rest, w2)"
    by (cases "readSellerFiles files w")
  with Cons have w2: "w2 = w"
    and set_rest: "set rest = {seller. \<exists>file \<in> set files. map_of (sellerFiles w) file = Some seller
          \<and> seller_id seller \<noteq> [] \<and> discordId seller \<noteq> []}"
    by simp_all
  show ?case
  proof (cases "map_of (sellerFiles w) f")
    case None
    then have "readSellerFiles (f # files) w = (rest, w)"
      using Cons.prems rest w2 by (simp add: safeReadSeller_noFaults)
    then show ?thesis using set_rest None by auto
  next
    case (Some seller)
    then have "readSellerFiles (f # files) w =
        (if seller_id seller \<noteq> [] \<and> discordId seller \<noteq> [] then seller # rest else rest, w)"
      using Cons.prems rest w2 by (simp add: safeReadSeller_noFaults)
    then show ?thesis using set_rest Some by auto
  qed
qed

lemma getActiveSellers_noFaults:
  assumes "readFaults w = []"
  shows "snd (getActiveSellers w) = w \<and> set (fst (getActiveSellers w)) = activeSellersOf w"
proof -
  obtain sellers w1 where r: "readSellerFiles (map fst (sellerFiles w)) w = (sellers, w1)"
    by (cases "readSellerFiles (map fst (sellerFiles w)) w")
  from readSellerFiles_noFaults [OF assms, of "map fst (sellerFiles w)"] r
  have w1: "w1 = w"
    and sellers: "set sellers = {seller. \<exists>file \<in> set (map fst (sellerFiles w)).
          map_of (sellerFiles w) file = Some seller
          \<and> seller_id seller \<noteq> [] \<and> discordId seller \<noteq> []}"
    by simp_all
  have g: "getActiveSellers w =
      (filter (\<lambda>s. seller_status s = Active)
         (sortBy (\<lambda>a b. localeCompare w (discordId a) (discordId b)) sellers), w)"
    using r w1 by (simp add: getActiveSellers_def getAllSellers_def)
  have "set (fst (getActiveSellers w)) = {s \<in> set sellers. seller_status s = Active}"
    by (simp add: g set_sortBy)
  also have "\<dots> = activeSellersOf w"
    unfolding sellers activeSellersOf_def by auto
  finally show ?thesis by (simp add: g)
qed

lemma inventoryQuantity_not_NaN: "inventoryQuantity entries bid \<noteq> NaN"
  by (simp add: inventoryQuantity_def orElse_not_NaN split: option.splits)

lemma canFulfillAll_iff:
  "\<forall>item \<in> set items. snd item \<noteq> NaN \<Longrightarrow>
   canFulfillAll seller items \<longleftrightarrow> sellerCovers seller items"
proof (induction items)
  case Nil
  then show ?case by (simp add: sellerCovers_def)
next
  case (Cons item items)
  obtain bid qty where item: "item = (bid, qty)" by (cases item)
  have "qty \<noteq> NaN" using Cons.prems by (simp add: item)
  then have here: "jsGreaterEq (inventoryQuantity (inventory seller) bid) qty \<longleftrightarrow>
      \<not> jsLess (inventoryQuantity (inventory seller) bid) qty"
    using inventoryQuantity_not_NaN by (rule jsGreaterEq_iff_not_less [rotated])
  have rest: "canFulfillAll seller items \<longleftrightarrow> sellerCovers seller items"
    using Cons by simp
  show ?case
    using here rest by (auto simp: item sellerCovers_def)
qed

lemma requiresMultipleSellersLoop_iff:
  "\<forall>item \<in> set items. snd item \<noteq> NaN \<Longrightarrow>
   requiresMultipleSellersLoop sellers items \<longleftrightarrow>
   \<not> (\<exists>seller \<in> set sellers. sellerCovers seller items)"
  by (induction sellers) (auto simp: canFulfillAll_iff)

lemma requiresMultipleSellers_noFaults:
  assumes "readFaults w = []"
  shows "snd (requiresMultipleSellers items w) = w
    \<and> ((\<forall>item \<in> set items. snd item \<noteq> NaN) \<longrightarrow>
         (fst (requiresMultipleSellers items w) \<longleftrightarrow>
            \<not> (\<exists>seller \<in> activeSellersOf w. sellerCovers seller items)))"
proof -
  obtain sellers w1 where g: "getActiveSellers w = (sellers, w1)"
    by (cases "getActiveSellers w")
  with getActiveSellers_noFaults [OF assms] have "w1 = w" and "set sellers = activeSellersOf w"
    by simp_all
  then show ?thesis
    using g requiresMultipleSellersLoop_iff [of items sellers]
    by (simp add: requiresMultipleSellers_def)
qed

lemma resolveOrderToSellers_noFaults:
  assumes "readFaults w = []"
  shows "snd (resolveOrderToSellers items w) = w"
proof -
  obtain sellers w1 where g: "getActiveSellers w = (sellers, w1)"
    by (cases "getActiveSellers w")
  with getActiveSellers_noFaults [OF assms] have "w1 = w" by simp
  then show ?thesis using g by (simp add: resolveOrderToSellers_def)
qed

text \<open>
  Claim C6.  When reads succeed, \<open>requiresMultipleSellers\<close> is true exactly when no
  active seller covers every requested item at its full quantity (for quantities that
  are not \<open>NaN\<close>, which no JSON request carries and for which \<open>>=\<close> and the negation of
  \<open><\<close> differ); \<open>processOrder\<close> sets
  \<open>isMultiSeller\<close> to that answer, \<open>originalOffer\<close> to the buyer's trimmed text, and
  \<open>offer\<close> to the fixed message when \<open>isMultiSeller\<close> is true and to \<open>originalOffer\<close>
  otherwise.
\<close>

theorem C6_requiresMultipleSellers:
  assumes "readFaults w = []"
  shows "((\<forall>item \<in> set items. snd item \<noteq> NaN) \<longrightarrow>
          (fst (requiresMultipleSellers items w) \<longleftrightarrow>
             \<not> (\<exists>seller \<in> activeSellersOf w. sellerCovers seller items)))
       \<and> (isMultiSeller (fst (processOrder newOrderId now request w)) \<longleftrightarrow>
            fst (requiresMultipleSellers
                   (map (\<lambda>item. (oi_id item, oi_quantity item)) (req_items request)) w))
       \<and> originalOffer (fst (processOrder newOrderId now request w)) = trim (req_offer request)
       \<and> offer (fst (processOrder newOrderId now request w)) =
           (if isMultiSeller (fst (processOrder newOrderId now request w))
            then MULTI_SELLER_OFFER_MESSAGE
            else originalOffer (fst (processOrder newOrderId now request w)))"
proof -
  have a: "(\<forall>item \<in> set items. snd item \<noteq> NaN) \<longrightarrow>
      (fst (requiresMultipleSellers items w) \<longleftrightarrow>
         \<not> (\<exists>seller \<in> activeSellersOf w. sellerCovers seller items))"
    using requiresMultipleSellers_noFaults [OF assms] by simp
  let ?named = "map (\<lambda>item. (oi_id item,
             (case getBlueprintById (oi_id item) w of
                None \<Rightarrow> oi_name item
              | Some bp \<Rightarrow> (if bp_name bp \<noteq> [] then bp_name bp else oi_name item)),
             oi_quantity item)) (req_items request)"
  let ?check = "map (\<lambda>item. (oi_id item, oi_quantity item)) (req_items request)"
  obtain groups w1 where r: "resolveOrderToSellers ?named w = (groups, w1)"
    by (cases "resolveOrderToSellers ?named w")
  have w1: "w1 = w"
    using resolveOrderToSellers_noFaults [OF assms, of ?named] r by simp
  obtain multi w2 where m: "requiresMultipleSellers ?check w = (multi, w2)"
    by (cases "requiresMultipleSellers ?check w")
  have p: "fst (processOrder newOrderId now request w) =
      \<lparr>orderId = newOrderId,
       buyerDiscordNick = trim (req_discordNick request),
       offer = (if multi then MULTI_SELLER_OFFER_MESSAGE else trim (req_offer request)),
       originalOffer = trim (req_offer request),
       order_notes = map_option trim (req_notes request),
       sellerGroups = groups,
       isMultiSeller = multi,
       sellerCount = length groups,
       createdAt = now\<rparr>"
    unfolding processOrder_def Let_def r w1 prod.case m by simp
  show ?thesis
    using a m by (simp add: p)
qed

section \<open>The example states, step by step\<close>

lemma exPath: "getOrderFilePath ''ORD-1'' = ''ORD-1''"
  by (simp add: getOrderFilePath_def isSafeIdChar_def)

lemma exPath2: "getOrderFilePath ''ORD-2'' = ''ORD-2''"
  by (simp add: getOrderFilePath_def isSafeIdChar_def)

lemmas ex_defs =
  exWorld0_def exWorld1_def exWorld2_def exWorld3_def exWorld4_def exWorld5_def exWorld6_def
  exOrder1_def exOrder2_def exOrder3_def exOrder4_def exOrder5_def exOrder6_def
  exClaimA_def exClaimB_def exSeller1_def exSeller2_def exSeller3_def exOrderFiles_def
  exSellerFiles_def exRequest_def exRequestHalf_def exClaimHalf_def exOrderHalf_def
  exOrderFilesHalf_def exWorldHalf1_def exWorldHalf2_def exWorldHalf3_def exWorldBig_def

lemmas store_defs =
  getOrderById_def safeReadOrder_def migrateOrderIfNeeded_def updateOrder_def safeWriteOrder_def
  getSellerById_def safeReadSeller_def safeWriteSeller_def getSellerBlueprintQuantity_def
  inventoryQuantity_def updateSellerInventoryItem_def setInventoryEntry_def
  canSellerReceiveOrders_def truthy_def claimFor_def markFulfilled_def quantityToFulfill_def
  completeIfAllFulfilled_def isClaimedBy_def releaseClaim_def exPath exPath2
  jsonSeller_def jsonInventoryItem_def jsonOrder_def jsonGroup_def jsonGroupItem_def
  jsonItemClaim_def finiteValue_def roundDouble_examples roundDouble_tie clamp_examples

lemma ex_create:
  "(case processOrder ''ORD-1'' 100 exRequest exWorld0 of
      (processed, w) \<Rightarrow> saveOrder processed w) = (exOrder1, exWorld1)"
  by (simp add: processOrder_def getBlueprintById_def resolveOrderToSellers_def
      getActiveSellers_def getAllSellers_def sortBy_def addToSellerGroup_def Let_def
      requiresMultipleSellers_def trim_def isWhiteSpace_def saveOrder_def unclaimedItem_def
      ProcessedOrder.extend_def StoredOrder.fields_def ex_defs store_defs)

lemma ex_claim:
  "claimOrderItems 101 ''ORD-1'' ''s1'' (Some [''bpA'']) exWorld1 = (Success (Some [''bpA'']), exWorld2)"
  by (simp add: claimOrderItems_def ex_defs store_defs)

lemma ex_fulfill:
  "fulfillOrderItem 102 ''ORD-1'' ''s1'' ''bpA'' exWorld2 = (Success (Some [''bpA'']), exWorld3)"
  by (simp add: fulfillOrderItem_def ex_defs store_defs)

lemma ex_accept_again:
  "acceptOrderFull 103 ''ORD-1'' ''s1'' exWorld3 = (Success (Some [''bpA'', ''bpB'']), exWorld4)"
  by (simp add: acceptOrderFull_def ex_defs store_defs)

lemma ex_accept:
  "acceptOrderFull 101 ''ORD-1'' ''s1'' exWorld1 = (Success (Some [''bpA'', ''bpB'']), exWorld5)"
  by (simp add: acceptOrderFull_def ex_defs store_defs)

lemma ex_cancel:
  "cancelOrder 102 ''ORD-1'' exWorld5 = (Success None, exWorld6)"
  by (simp add: cancelOrder_def ex_defs store_defs)

lemma ex_claim_again:
  "claimOrderItems 103 ''ORD-1'' ''s1'' (Some [''bpA'']) exWorld3 =
     (Success (Some [''bpA'']),
      exWorld3\<lparr>orderFiles := exOrderFiles
        (exOrder3\<lparr>itemClaims :=
           [claimFor ''s1'' ''alice'' 103 (markFulfilled 102 (claimFor ''s1'' ''alice'' 101 exClaimA)),
            exClaimB]\<rparr>)\<rparr>)"
  by (simp add: claimOrderItems_def ex_defs store_defs)

lemma ex_fulfill_cancelled:
  "fulfillOrderItem 103 ''ORD-1'' ''s1'' ''bpA'' exWorld6 =
     (Success (Some [''bpA'']),
      exWorld0\<lparr>orderFiles := exOrderFiles
          (exOrder6\<lparr>itemClaims := [markFulfilled 103 (claimFor ''s1'' ''alice'' 101 exClaimA),
                                     claimFor ''s1'' ''alice'' 101 exClaimB]\<rparr>),
        sellerFiles := exSellerFiles (Num 4) (Num 5) 103\<rparr>)"
  by (simp add: fulfillOrderItem_def ex_defs store_defs)

lemma ex_fulfillAll_cancelled:
  "fulfillAllClaimedItems 103 ''ORD-1'' ''s1'' exWorld6 =
     (Success (Some [''bpA'', ''bpB'']),
      exWorld0\<lparr>orderFiles := exOrderFiles
          (exOrder6\<lparr>status := Completed,
                    itemClaims := [markFulfilled 103 (claimFor ''s1'' ''alice'' 101 exClaimA),
                                   markFulfilled 103 (claimFor ''s1'' ''alice'' 101 exClaimB)]\<rparr>),
        sellerFiles := exSellerFiles (Num 4) (Num 3) 103\<rparr>)"
  by (simp add: fulfillAllClaimedItems_def ex_defs store_defs)

lemma ex_fulfillAll_fault:
  "fulfillAllClaimedItems 103 ''ORD-1'' ''s1''
       (exWorld5\<lparr>readFaults := [False, False, False, False, False, True]\<rparr>) =
     (Failure (InventoryUpdateFailedFor ''Beta''),
      exWorld5\<lparr>sellerFiles := exSellerFiles (Num 4) (Num 5) 103\<rparr>)"
  by (simp add: fulfillAllClaimedItems_def ex_defs store_defs)





section \<open>The theorems at the example states\<close>

theorem C10_inactive_seller_cannot_claim_witness:
  "map_of (sellerFiles exWorld1) ''s3'' = Some exSeller3
   \<and> seller_status exSeller3 = Banned
   \<and> getOrderById ''ORD-1'' exWorld1 = Some exOrder1
   \<and> acceptOrderFull 101 ''ORD-1'' ''s3'' exWorld1 = (Failure NoPermission, exWorld1)
   \<and> claimOrderItems 101 ''ORD-1'' ''s3'' None exWorld1 = (Failure NoPermission, exWorld1)
   \<and> (\<exists>e w1. acceptOrderFull 101 ''ORD-1'' ''nobody'' exWorld1 = (Failure e, w1) \<and> onlyReads exWorld1 w1)"
proof -
  have s3: "map_of (sellerFiles exWorld1) ''s3'' = Some exSeller3"
    by (simp add: ex_defs)
  have banned: "seller_status exSeller3 = Banned"
    by (simp add: exSeller3_def)
  have hyp: "\<forall>seller. map_of (sellerFiles exWorld1) ''s3'' = Some seller \<longrightarrow>
      seller_status seller \<noteq> Active"
    using s3 banned by simp
  have nobody: "\<forall>seller. map_of (sellerFiles exWorld1) ''nobody'' = Some seller \<longrightarrow>
      seller_status seller \<noteq> Active"
    by (simp add: ex_defs)
  from C10_inactive_seller_cannot_claim [OF hyp, of 101 "''ORD-1''" None]
  obtain e w1 e' w1' where
    a: "acceptOrderFull 101 ''ORD-1'' ''s3'' exWorld1 = (Failure e, w1)" "onlyReads exWorld1 w1"
    and c: "claimOrderItems 101 ''ORD-1'' ''s3'' None exWorld1 = (Failure e', w1')" "onlyReads exWorld1 w1'"
    by blast
  have a': "acceptOrderFull 101 ''ORD-1'' ''s3'' exWorld1 = (Failure NoPermission, exWorld1)"
    by (simp add: acceptOrderFull_def ex_defs store_defs)
  have c': "claimOrderItems 101 ''ORD-1'' ''s3'' None exWorld1 = (Failure NoPermission, exWorld1)"
    by (simp add: claimOrderItems_def ex_defs store_defs)
  have o: "getOrderById ''ORD-1'' exWorld1 = Some exOrder1"
    by (simp add: ex_defs store_defs)
  have agree: "e = NoPermission \<and> w1 = exWorld1" using a(1) a' by simp
  show ?thesis
    using s3 banned o a' c' agree C10_inactive_seller_cannot_claim [OF nobody, of 101 "''ORD-1''" None]
    by blast
qed

theorem C7_releaseOrderItem_witness:
  "getOrderById ''ORD-1'' exWorld2 = Some exOrder2
   \<and> status exOrder2 = InProgress
   \<and> find (\<lambda>c. blueprintId c = ''bpA'') (itemClaims exOrder2) = Some (claimFor ''s1'' ''alice'' 101 exClaimA)
   \<and> claimedBySellerId (claimFor ''s1'' ''alice'' 101 exClaimA) = Some ''s1''
   \<and> claimStatus (claimFor ''s1'' ''alice'' 101 exClaimA) = Claimed
   \<and> (\<exists>order'. releaseOrderItem ''ORD-1'' ''s1'' ''bpA'' exWorld2
                   = (Success (Some [''bpA'']), updateOrder order' exWorld2)
          \<and> status order' = Open
          \<and> itemClaims order' = [exClaimA, exClaimB])
   \<and> releaseOrderItem ''ORD-1'' ''s1'' ''bpA'' exWorld2 = (Success (Some [''bpA'']), exWorld1)"
proof -
  have o: "getOrderById ''ORD-1'' exWorld2 = Some exOrder2"
    by (simp add: ex_defs store_defs)
  have st: "status exOrder2 = InProgress" "status exOrder2 \<noteq> Closed" "status exOrder2 \<noteq> Cancelled"
    by (simp_all add: exOrder2_def)
  have item: "find (\<lambda>c. blueprintId c = ''bpA'') (itemClaims exOrder2)
      = Some (claimFor ''s1'' ''alice'' 101 exClaimA)"
    by (simp add: exOrder2_def claimFor_def exClaimA_def)
  have mine: "claimedBySellerId (claimFor ''s1'' ''alice'' 101 exClaimA) = Some ''s1''"
    and claimed: "claimStatus (claimFor ''s1'' ''alice'' 101 exClaimA) = Claimed"
    and pending: "claimStatus (claimFor ''s1'' ''alice'' 101 exClaimA) \<noteq> Fulfilled"
    by (simp_all add: claimFor_def)
  from C7_releaseOrderItem [OF o st(2,3) item mine pending]
  obtain order' where
    run: "releaseOrderItem ''ORD-1'' ''s1'' ''bpA'' exWorld2
            = (Success (Some [''bpA'']), updateOrder order' exWorld2)"
    and claims: "itemClaims order'
            = updateFirst (\<lambda>c. blueprintId c = ''bpA'') releaseClaim (itemClaims exOrder2)"
    and stat: "if list_ex (\<lambda>c. claimStatus c \<noteq> Unclaimed) (itemClaims order')
            then status order' = status exOrder2 else status order' = Open"
    by blast
  have claims': "itemClaims order' = [exClaimA, exClaimB]"
    unfolding claims by (simp add: exOrder2_def claimFor_def releaseClaim_def exClaimA_def exClaimB_def)
  have stat': "status order' = Open"
    using stat unfolding claims' by (simp add: exClaimA_def exClaimB_def)
  have direct: "releaseOrderItem ''ORD-1'' ''s1'' ''bpA'' exWorld2 = (Success (Some [''bpA'']), exWorld1)"
    by (simp add: releaseOrderItem_def ex_defs store_defs)
  show ?thesis
    using o st(1) item mine claimed run claims' stat' direct by blast
qed

lemma acceptOrderFull_fail_or_whole_example:
  "readFaults exWorld1 = []
   \<and> getOrderById ''ORD-1'' exWorld1 = Some exOrder1
   \<and> acceptOrderFull 101 ''ORD-1'' ''s1'' exWorld1 = (Success (Some [''bpA'', ''bpB'']), exWorld5)
   \<and> getOrderById ''ORD-1'' exWorld5 = Some exOrder5
   \<and> status exOrder5 = InProgress \<and> assignedSellerId exOrder5 = Some ''s1''
   \<and> assignedAt exOrder5 = Some 101
   \<and> map claimStatus (itemClaims exOrder5) = [Claimed, Claimed]
   \<and> map claimedQuantity (itemClaims exOrder5) = [Some (Num 1), Some (Num 2)]
   \<and> list_ex (\<lambda>c. jsLess (fst (getSellerBlueprintQuantity ''s2'' (blueprintId c) exWorld1)) (requestedQty c))
        (itemClaims exOrder1)
   \<and> (\<exists>e. acceptOrderFull 101 ''ORD-1'' ''s2'' exWorld1 = (Failure e, exWorld1))"
proof -
  have nf: "readFaults exWorld1 = []" by (simp add: ex_defs)
  have o: "getOrderById ''ORD-1'' exWorld1 = Some exOrder1" by (simp add: ex_defs store_defs)
  have o5: "getOrderById ''ORD-1'' exWorld5 = Some exOrder5" by (simp add: ex_defs store_defs)
  have short: "list_ex (\<lambda>c. jsLess (fst (getSellerBlueprintQuantity ''s2'' (blueprintId c) exWorld1)) (requestedQty c))
        (itemClaims exOrder1)"
    by (simp add: ex_defs store_defs)
  note t = acceptOrderFull_fail_or_whole [of 101 "''ORD-1''" "''s2''" exWorld1 "''bob''"]
  have fail: "\<exists>e. acceptOrderFull 101 ''ORD-1'' ''s2'' exWorld1 = (Failure e, exWorld1)"
    using t nf o short by blast
  have ok: "acceptOrderFull 101 ''ORD-1'' ''s1'' exWorld1 = (Success (Some [''bpA'', ''bpB'']), exWorld5)"
    by (rule ex_accept)
  have eff: "status exOrder5 = InProgress \<and> assignedSellerId exOrder5 = Some ''s1''
      \<and> assignedAt exOrder5 = Some 101
      \<and> map claimStatus (itemClaims exOrder5) = [Claimed, Claimed]
      \<and> map claimedQuantity (itemClaims exOrder5) = [Some (Num 1), Some (Num 2)]"
    by (simp add: exOrder5_def claimFor_def exClaimA_def exClaimB_def)
  show ?thesis using nf o ok o5 eff short fail by simp
qed



theorem C6_requiresMultipleSellers_witness:
  "readFaults exWorld0 = []
   \<and> snd (''bpA'', Num 1) \<noteq> NaN
   \<and> \<not> fst (requiresMultipleSellers [(''bpA'', Num 1)] exWorld0)
   \<and> (\<exists>seller \<in> activeSellersOf exWorld0. sellerCovers seller [(''bpA'', Num 1)])
   \<and> \<not> fst (requiresMultipleSellers [(''bpA'', Num 1), (''bpB'', Num 2)] exWorld0)
   \<and> fst (requiresMultipleSellers [(''bpA'', Num 6)] exWorld0)
   \<and> \<not> (\<exists>seller \<in> activeSellersOf exWorld0. sellerCovers seller [(''bpA'', Num 6)])
   \<and> offer (fst (processOrder ''ORD-1'' 100 exRequest exWorld0)) = [103, 111, 108, 100]
   \<and> originalOffer (fst (processOrder ''ORD-1'' 100 exRequest exWorld0)) = trim (req_offer exRequest)
   \<and> offer (fst (processOrder ''ORD-2'' 100
         (exRequest\<lparr>req_items := [\<lparr>oi_id = ''bpA'', oi_name = ''Alpha'', oi_quantity = Num 6\<rparr>]\<rparr>) exWorld0))
       = MULTI_SELLER_OFFER_MESSAGE"
proof -
  have nf: "readFaults exWorld0 = []" by (simp add: ex_defs)
  have act: "fst (getActiveSellers exWorld0) = [exSeller1, exSeller2]"
    by (simp add: getActiveSellers_def getAllSellers_def sortBy_def safeReadSeller_def ex_defs)
  have r1: "\<not> fst (requiresMultipleSellers [(''bpA'', Num 1)] exWorld0)"
    and r2: "\<not> fst (requiresMultipleSellers [(''bpA'', Num 1), (''bpB'', Num 2)] exWorld0)"
    and r3: "fst (requiresMultipleSellers [(''bpA'', Num 6)] exWorld0)"
    using act
    by (simp_all add: requiresMultipleSellers_def split_beta)
      (simp_all add: exSeller1_def exSeller2_def inventoryQuantity_def)
  note t1 = C6_requiresMultipleSellers [OF nf, of "[(''bpA'', Num 1)]" "''ORD-1''" 100 exRequest]
  note t3 = C6_requiresMultipleSellers [OF nf, of "[(''bpA'', Num 6)]" "''ORD-2''" 100
      "exRequest\<lparr>req_items := [\<lparr>oi_id = ''bpA'', oi_name = ''Alpha'', oi_quantity = Num 6\<rparr>]\<rparr>"]
  have c1: "\<exists>seller \<in> activeSellersOf exWorld0. sellerCovers seller [(''bpA'', Num 1)]"
    using t1 r1 by simp
  have c3: "\<not> (\<exists>seller \<in> activeSellersOf exWorld0. sellerCovers seller [(''bpA'', Num 6)])"
    using t3 r3 by simp
  have items1: "map (\<lambda>item. (oi_id item, oi_quantity item)) (req_items exRequest)
      = [(''bpA'', Num 1), (''bpB'', Num 2)]"
    by (simp add: exRequest_def)
  have tr: "trim (req_offer exRequest) = [103, 111, 108, 100]"
    by (simp add: exRequest_def trim_def isWhiteSpace_def)
  have o1: "offer (fst (processOrder ''ORD-1'' 100 exRequest exWorld0)) = [103, 111, 108, 100]"
    and oo1: "originalOffer (fst (processOrder ''ORD-1'' 100 exRequest exWorld0)) = trim (req_offer exRequest)"
    using t1 r2 tr unfolding items1 by simp_all
  have o3: "offer (fst (processOrder ''ORD-2'' 100
         (exRequest\<lparr>req_items := [\<lparr>oi_id = ''bpA'', oi_name = ''Alpha'', oi_quantity = Num 6\<rparr>]\<rparr>) exWorld0))
       = MULTI_SELLER_OFFER_MESSAGE"
    using t3 r3 by simp
  show ?thesis using nf r1 c1 r2 r3 c3 o1 oo1 o3 by simp
qed

theorem C8_seller_view_visibility_witness:
  "readFaults exWorld1 = []
   \<and> map vitem_blueprintId
       (case fst (buildSellerOrderView exOrder1 ''s2'' ''bob'' exWorld1) of
          None \<Rightarrow> [] | Some v \<Rightarrow> view_items v) = [''bpA'']
   \<and> filter (itemVisibleTo exWorld1 exOrder1 ''s2'') (itemClaims exOrder1) = [exClaimA]
   \<and> filter (itemVisibleTo exWorld2 exOrder2 ''s2'') (itemClaims exOrder2) = []
   \<and> fst (buildSellerOrderView exOrder2 ''s2'' ''bob'' exWorld2) = None
   \<and> fst (getOrdersForSeller ''s2'' exWorld2) = []
   \<and> map view_orderId (fst (getOrdersForSeller ''s2'' exWorld1)) = [''ORD-1'']"
proof -
  have nf1: "readFaults exWorld1 = []" and nf2: "readFaults exWorld2 = []"
    by (simp_all add: ex_defs)
  have q1: "fst (getSellerBlueprintQuantity ''s2'' ''bpA'' exWorld1) = Num 1"
    "fst (getSellerBlueprintQuantity ''s2'' ''bpB'' exWorld1) = Num 0"
    by (simp_all add: ex_defs store_defs)
  have q2: "fst (getSellerBlueprintQuantity ''s2'' ''bpA'' exWorld2) = Num 1"
    "fst (getSellerBlueprintQuantity ''s2'' ''bpB'' exWorld2) = Num 0"
    by (simp_all add: ex_defs store_defs)
  have vis1: "filter (itemVisibleTo exWorld1 exOrder1 ''s2'') (itemClaims exOrder1) = [exClaimA]"
    using q1 by (simp add: itemVisibleTo_def exOrder1_def exClaimA_def exClaimB_def)
  have vis2: "filter (itemVisibleTo exWorld2 exOrder2 ''s2'') (itemClaims exOrder2) = []"
    using q2 by (simp add: itemVisibleTo_def exOrder2_def exOrder1_def exClaimA_def exClaimB_def claimFor_def)
  note t1 = C8_seller_view_visibility [OF nf1, of exOrder1 "''s2''" "''bob''" "''ORD-1''"]
  note t2 = C8_seller_view_visibility [OF nf2, of exOrder2 "''s2''" "''bob''" "''ORD-1''"]
  have v1: "map vitem_blueprintId
       (case fst (buildSellerOrderView exOrder1 ''s2'' ''bob'' exWorld1) of
          None \<Rightarrow> [] | Some v \<Rightarrow> view_items v) = [''bpA'']"
    using t1 vis1 by (auto simp: viewItemOf_def exClaimA_def split: option.splits)
  have v2: "fst (buildSellerOrderView exOrder2 ''s2'' ''bob'' exWorld2) = None"
    using t2 vis2 by (auto split: option.splits)
  have all1: "getAllOrders exWorld1 = [exOrder1]" and all2: "getAllOrders exWorld2 = [exOrder2]"
    by (simp_all add: getAllOrders_def sortBy_def migrateOrderIfNeeded_def exWorld1_def exWorld2_def
        exOrderFiles_def exOrder1_def exOrder2_def)
  have s2: "map_of (sellerFiles exWorld1) ''s2'' = Some exSeller2"
    "map_of (sellerFiles exWorld2) ''s2'' = Some exSeller2"
    by (simp_all add: exWorld1_def exWorld2_def exWorld0_def)
  have st: "seller_status exSeller2 = Active" "discordId exSeller2 = ''bob''"
    by (simp_all add: exSeller2_def)
  have l1: "listedForSeller exOrder1 ''s2''" and l2: "listedForSeller exOrder2 ''s2''"
    by (simp_all add: listedForSeller_def isOrderClosedBySeller_def truthy_def exOrder1_def exOrder2_def)
  have g2: "fst (getOrdersForSeller ''s2'' exWorld2) = []"
    using t2 v2 by (simp add: s2 st all2 l2 List.map_filter_simps)
  have id1: "view_orderId v = ''ORD-1''"
    if "fst (buildSellerOrderView exOrder1 ''s2'' ''bob'' exWorld1) = Some v" for v
    using that by (auto simp: buildSellerOrderView_def Let_def exOrder1_def split: prod.splits if_splits)
  have g1: "map view_orderId (fst (getOrdersForSeller ''s2'' exWorld1)) = [''ORD-1'']"
    using t1 v1 id1 by (auto simp: s2 st all1 l1 List.map_filter_simps split: option.splits)
  show ?thesis
    using nf1 v1 vis1 vis2 v2 g2 g1 by simp
qed

section \<open>Where the code departs from the state machine\<close>

lemma ex_fulfill_again:
  "fulfillOrderItem 104 ''ORD-1'' ''s1'' ''bpA'' exWorld4 =
     (Success (Some [''bpA'']),
      exWorld0\<lparr>orderFiles := exOrderFiles
          (exOrder4\<lparr>itemClaims :=
             [markFulfilled 104
                (claimFor ''s1'' ''alice'' 103 (markFulfilled 102 (claimFor ''s1'' ''alice'' 101 exClaimA))),
              claimFor ''s1'' ''alice'' 103 exClaimB]\<rparr>),
        sellerFiles := exSellerFiles (Num 3) (Num 5) 104\<rparr>)"
  by (simp add: fulfillOrderItem_def ex_defs store_defs)

lemma ex_fulfillAll_retry:
  "fulfillAllClaimedItems 104 ''ORD-1'' ''s1'' (exWorld5\<lparr>sellerFiles := exSellerFiles (Num 4) (Num 5) 103\<rparr>) =
     (Success (Some [''bpA'', ''bpB'']),
      exWorld0\<lparr>orderFiles := exOrderFiles
          (exOrder5\<lparr>status := Completed,
                    itemClaims := [markFulfilled 104 (claimFor ''s1'' ''alice'' 101 exClaimA),
                                   markFulfilled 104 (claimFor ''s1'' ''alice'' 101 exClaimB)]\<rparr>),
        sellerFiles := exSellerFiles (Num 3) (Num 3) 104\<rparr>)"
  by (simp add: fulfillAllClaimedItems_def Let_def ex_defs store_defs)

text \<open>
  Claim C1 (a fulfilled item never changes again) against the code.  Seller s1 claims
  Alpha and fulfils it (stock 5 to 4); the item is \<open>fulfilled\<close>.  Then s1 accepts the whole
  order: the check of \<open>acceptOrderFull\<close> only refuses items held by another seller, and
  the item goes back to \<open>claimed\<close>.  \<open>claimOrderItems\<close> with the item named does the
  same.  A further \<open>fulfillOrderItem\<close> then succeeds and takes a second Alpha (4 to 3).
\<close>

theorem C1_fulfilled_item_claimed_again:
  "(case processOrder ''ORD-1'' 100 exRequest exWorld0 of
      (processed, w) \<Rightarrow> saveOrder processed w) = (exOrder1, exWorld1)
   \<and> claimOrderItems 101 ''ORD-1'' ''s1'' (Some [''bpA'']) exWorld1 = (Success (Some [''bpA'']), exWorld2)
   \<and> fulfillOrderItem 102 ''ORD-1'' ''s1'' ''bpA'' exWorld2 = (Success (Some [''bpA'']), exWorld3)
   \<and> map_option (map claimStatus \<circ> itemClaims) (getOrderById ''ORD-1'' exWorld3)
       = Some [Fulfilled, Unclaimed]
   \<and> fst (getSellerBlueprintQuantity ''s1'' ''bpA'' exWorld3) = Num 4
   \<and> acceptOrderFull 103 ''ORD-1'' ''s1'' exWorld3 = (Success (Some [''bpA'', ''bpB'']), exWorld4)
   \<and> map_option (map claimStatus \<circ> itemClaims) (getOrderById ''ORD-1'' exWorld4)
       = Some [Claimed, Claimed]
   \<and> fst (claimOrderItems 103 ''ORD-1'' ''s1'' (Some [''bpA'']) exWorld3) = Success (Some [''bpA''])
   \<and> map_option (map claimStatus \<circ> itemClaims)
        (getOrderById ''ORD-1'' (snd (claimOrderItems 103 ''ORD-1'' ''s1'' (Some [''bpA'']) exWorld3)))
       = Some [Claimed, Unclaimed]
   \<and> fst (fulfillOrderItem 104 ''ORD-1'' ''s1'' ''bpA'' exWorld4) = Success (Some [''bpA''])
   \<and> fst (getSellerBlueprintQuantity ''s1'' ''bpA''
          (snd (fulfillOrderItem 104 ''ORD-1'' ''s1'' ''bpA'' exWorld4))) = Num 3"
  unfolding ex_create ex_claim ex_fulfill ex_accept_again ex_claim_again ex_fulfill_again
  by (simp add: ex_defs store_defs)

text \<open>
  Claim C5 (\<open>acceptOrderFull\<close> fails when some item is neither unclaimed nor claimed by
  this seller) against the code.  In \<open>exWorld3\<close> seller s1 has fulfilled Alpha: the item
  is neither \<open>unclaimed\<close> nor \<open>claimed\<close>.  The check of \<open>acceptOrderFull\<close> compares
  \<open>claimedBySellerId\<close> only, so the call succeeds and sets the fulfilled item back to
  \<open>claimed\<close>.  This is the defect shown for claim C1.
\<close>

theorem C5_accept_own_fulfilled_item:
  "map_option (map claimStatus \<circ> itemClaims) (getOrderById ''ORD-1'' exWorld3)
       = Some [Fulfilled, Unclaimed]
   \<and> map_option (map claimedBySellerId \<circ> itemClaims) (getOrderById ''ORD-1'' exWorld3)
       = Some [Some ''s1'', None]
   \<and> map_option status (getOrderById ''ORD-1'' exWorld3) = Some InProgress
   \<and> map_option assignedSellerId (getOrderById ''ORD-1'' exWorld3) = Some None
   \<and> acceptOrderFull 103 ''ORD-1'' ''s1'' exWorld3 = (Success (Some [''bpA'', ''bpB'']), exWorld4)
   \<and> map_option (map claimStatus \<circ> itemClaims) (getOrderById ''ORD-1'' exWorld4)
       = Some [Claimed, Claimed]"
  unfolding ex_accept_again
  by (simp add: ex_defs store_defs)

lemma closed_order_rejected:
  assumes "getOrderById oid w = Some order"
    and "status order = Closed \<or> status order = Cancelled"
  shows "acceptOrderFull now oid sellerId w = (Failure OrderAlreadyClosed, w)"
    and "claimOrderItems now oid sellerId blueprintIds w = (Failure OrderAlreadyClosed, w)"
    and "releaseOrderItem oid sellerId bid w = (Failure OrderAlreadyClosed, w)"
    and "closeOrder now oid sellerId False w = (Failure OrderAlreadyClosed, w)"
  using assms
  by (auto simp: acceptOrderFull_def claimOrderItems_def releaseOrderItem_def closeOrder_def)

text \<open>
  Claim C2 (a closed or cancelled order accepts no seller operation) against the code.
  Seller s1 accepts the order and an administrator cancels it.  \<open>fulfillOrderItem\<close> and
  \<open>fulfillAllClaimedItems\<close> do not look at the status: both succeed on the cancelled
  order, take stock from the seller, and the second turns the status from \<open>cancelled\<close>
  to \<open>completed\<close>.  (The other seller operations refuse: \<open>closed_order_rejected\<close>.)
\<close>

theorem C2_fulfill_on_cancelled_order:
  "acceptOrderFull 101 ''ORD-1'' ''s1'' exWorld1 = (Success (Some [''bpA'', ''bpB'']), exWorld5)
   \<and> cancelOrder 102 ''ORD-1'' exWorld5 = (Success None, exWorld6)
   \<and> map_option status (getOrderById ''ORD-1'' exWorld6) = Some Cancelled
   \<and> fulfillOrderItem 103 ''ORD-1'' ''s1'' ''bpA'' exWorld6 =
       (Success (Some [''bpA'']),
        exWorld0\<lparr>orderFiles := exOrderFiles
            (exOrder6\<lparr>itemClaims := [markFulfilled 103 (claimFor ''s1'' ''alice'' 101 exClaimA),
                                       claimFor ''s1'' ''alice'' 101 exClaimB]\<rparr>),
          sellerFiles := exSellerFiles (Num 4) (Num 5) 103\<rparr>)
   \<and> fulfillAllClaimedItems 103 ''ORD-1'' ''s1'' exWorld6 =
       (Success (Some [''bpA'', ''bpB'']),
        exWorld0\<lparr>orderFiles := exOrderFiles
            (exOrder6\<lparr>status := Completed,
                      itemClaims := [markFulfilled 103 (claimFor ''s1'' ''alice'' 101 exClaimA),
                                     markFulfilled 103 (claimFor ''s1'' ''alice'' 101 exClaimB)]\<rparr>),
          sellerFiles := exSellerFiles (Num 4) (Num 3) 103\<rparr>)
   \<and> sellerFiles exWorld6 = exSellerFiles (Num 5) (Num 5) 1"
  unfolding ex_accept ex_cancel ex_fulfill_cancelled ex_fulfillAll_cancelled
  by (simp add: ex_defs store_defs)

lemma updateSellerInventoryItem_orderFiles:
  "updateSellerInventoryItem now sellerId bid qty w = (r, w1) \<Longrightarrow> orderFiles w1 = orderFiles w"
  by (auto simp: updateSellerInventoryItem_def safeWriteSeller_def
      split: prod.splits option.splits dest!: getSellerById_result onlyReads_files)

lemma fulfillAllCheck_onlyReads:
  "fulfillAllCheck sellerId claims w = (r, w1) \<Longrightarrow> onlyReads w w1"
proof (induction claims arbitrary: w)
  case Nil
  then show ?case by (simp add: onlyReads_refl)
next
  case (Cons claim claims)
  obtain q wq where q: "getSellerBlueprintQuantity sellerId (blueprintId claim) w = (q, wq)"
    by (cases "getSellerBlueprintQuantity sellerId (blueprintId claim) w")
  have rq: "onlyReads w wq" using q by (rule getSellerBlueprintQuantity_onlyReads)
  show ?case
    using Cons.prems q rq Cons.IH [of wq]
    by (auto split: if_splits intro: onlyReads_trans)
qed

lemma fulfillAllPass_orderFiles:
  "fulfillAllPass now sellerId claims w = (r, w1) \<Longrightarrow> orderFiles w1 = orderFiles w"
proof (induction claims arbitrary: w r w1)
  case Nil
  then show ?case by simp
next
  case (Cons claim claims)
  show ?case
  proof (cases "isClaimedBy sellerId claim")
    case False
    obtain r' w' where rec: "fulfillAllPass now sellerId claims w = (r', w')"
      by (cases "fulfillAllPass now sellerId claims w")
    with Cons.prems False have "w1 = w'"
      by (auto split: sum.splits prod.splits)
    with Cons.IH [OF rec] show ?thesis by simp
  next
    case True
    obtain q wq where q: "getSellerBlueprintQuantity sellerId (blueprintId claim) w = (q, wq)"
      by (cases "getSellerBlueprintQuantity sellerId (blueprintId claim) w")
    obtain ok wu where u: "updateSellerInventoryItem now sellerId (blueprintId claim)
        (jsSubtract q (quantityToFulfill claim)) wq = (ok, wu)"
      by (cases "updateSellerInventoryItem now sellerId (blueprintId claim)
        (jsSubtract q (quantityToFulfill claim)) wq")
    have f1: "orderFiles wq = orderFiles w"
      using getSellerBlueprintQuantity_onlyReads [OF q] by (simp add: onlyReads_files)
    have f2: "orderFiles wu = orderFiles wq"
      using u by (rule updateSellerInventoryItem_orderFiles)
    show ?thesis
    proof (cases ok)
      case False
      with Cons.prems True q u have "w1 = wu" by simp
      with f1 f2 show ?thesis by simp
    next
      case True
      obtain r' w' where rec: "fulfillAllPass now sellerId claims wu = (r', w')"
        by (cases "fulfillAllPass now sellerId claims wu")
      with Cons.prems \<open>isClaimedBy sellerId claim\<close> q u True have "w1 = w'"
        by (auto split: sum.splits prod.splits)
      with Cons.IH [OF rec] f1 f2 show ?thesis by simp
    qed
  qed
qed

lemma fulfillAll_failure_keeps_orders:
  "fulfillAllClaimedItems now oid sellerId w = (Failure e, w1) \<Longrightarrow> orderFiles w1 = orderFiles w"
  by (auto simp: fulfillAllClaimedItems_def Let_def onlyReads_files
      split: option.splits if_splits prod.splits sum.splits
      dest!: fulfillAllCheck_onlyReads fulfillAllPass_orderFiles)

lemma fulfillAll_precheck_no_effect:
  assumes "getOrderById oid w = Some order"
    and "fulfillAllCheck sellerId (filter (isClaimedBy sellerId) (itemClaims order)) w = (Some e, w1)"
  shows "fulfillAllClaimedItems now oid sellerId w = (Failure e, w1) \<and> onlyReads w w1"
proof -
  have "filter (isClaimedBy sellerId) (itemClaims order) \<noteq> []"
    using assms(2) by auto
  then show ?thesis
    using assms fulfillAllCheck_onlyReads [OF assms(2)]
    by (simp add: fulfillAllClaimedItems_def Let_def)
qed

text \<open>
  Claim C3 (after a partial failure the items already processed stay recorded as
  fulfilled) against the code.  Seller s1 holds Alpha and Beta; the sixth read of the
  seller file, in the inventory update for Beta, fails.  \<open>fulfillAllClaimedItems\<close>
  reports the failure, one Alpha has left the inventory (5 to 4), and the stored order is
  unchanged: Alpha is still \<open>claimed\<close>, because the return skips \<open>updateOrder\<close>.  A retry
  takes a second Alpha (4 to 3).  The first two parts of the claim hold:
  \<open>fulfillAll_precheck_no_effect\<close>, and the decrement is not rolled back.
\<close>

theorem C3_partial_failure_not_recorded:
  "fulfillAllClaimedItems 103 ''ORD-1'' ''s1''
       (exWorld5\<lparr>readFaults := [False, False, False, False, False, True]\<rparr>) =
     (Failure (InventoryUpdateFailedFor ''Beta''),
      exWorld5\<lparr>sellerFiles := exSellerFiles (Num 4) (Num 5) 103\<rparr>)
   \<and> sellerFiles exWorld5 = exSellerFiles (Num 5) (Num 5) 1
   \<and> getOrderById ''ORD-1'' exWorld5 = Some exOrder5
   \<and> getOrderById ''ORD-1'' (exWorld5\<lparr>sellerFiles := exSellerFiles (Num 4) (Num 5) 103\<rparr>) = Some exOrder5
   \<and> map claimStatus (itemClaims exOrder5) = [Claimed, Claimed]
   \<and> fulfillAllClaimedItems 104 ''ORD-1'' ''s1'' (exWorld5\<lparr>sellerFiles := exSellerFiles (Num 4) (Num 5) 103\<rparr>) =
       (Success (Some [''bpA'', ''bpB'']),
        exWorld0\<lparr>orderFiles := exOrderFiles
            (exOrder5\<lparr>status := Completed,
                      itemClaims := [markFulfilled 104 (claimFor ''s1'' ''alice'' 101 exClaimA),
                                     markFulfilled 104 (claimFor ''s1'' ''alice'' 101 exClaimB)]\<rparr>),
          sellerFiles := exSellerFiles (Num 3) (Num 3) 104\<rparr>)"
  unfolding ex_fulfillAll_fault ex_fulfillAll_retry
  by (simp add: ex_defs store_defs)

section \<open>Invariants of the store\<close>

lemma builtInventory_distinct:
  "builtInventory entries \<Longrightarrow> distinct (map item_blueprintId entries)"
  by (induction rule: builtInventory.induct) (simp_all add: distinct_setInventoryEntry)

lemma set_AList_update: "set (AList.update k v al) \<subseteq> insert (k, v) (set al)"
  by (induction al) auto

lemma orderFilesNamed_updateOrder:
  "orderFilesNamed w \<Longrightarrow> orderFilesNamed (updateOrder order w)"
  using set_AList_update [of "getOrderFilePath (orderId order)"
      "\<lparr>content = jsonOrder order, hasStatus = True, hasItemClaims = True\<rparr>" "orderFiles w"]
  by (auto simp: orderFilesNamed_def updateOrder_def safeWriteOrder_def list_all_iff)

lemma orderFilesNamed_saveOrder:
  "orderFilesNamed w \<Longrightarrow> orderFilesNamed (snd (saveOrder processedOrder w))"
proof -
  let ?stored = "fst (saveOrder processedOrder w)"
  have id: "orderId ?stored = orderId processedOrder"
    by (simp add: saveOrder_def Let_def ProcessedOrder.extend_def StoredOrder.fields_def)
  have "snd (saveOrder processedOrder w) = updateOrder ?stored w"
    by (simp add: saveOrder_def Let_def updateOrder_def id [unfolded saveOrder_def Let_def, simplified])
  then show "orderFilesNamed w \<Longrightarrow> orderFilesNamed (snd (saveOrder processedOrder w))"
    by (simp add: orderFilesNamed_updateOrder)
qed

lemma orderFilesNamed_cong:
  "orderFiles w1 = orderFiles w \<Longrightarrow> orderFilesNamed w1 = orderFilesNamed w"
  by (simp add: orderFilesNamed_def)

lemma orderFilesNamed_getOrderById:
  assumes "orderFilesNamed w" and "getOrderById oid w = Some order"
  shows "getOrderFilePath (orderId order) = getOrderFilePath oid"
proof -
  from assms(2) obtain f where f: "map_of (orderFiles w) (getOrderFilePath oid) = Some f"
    and o: "order = migrateOrderIfNeeded f"
    by (auto simp: getOrderById_def safeReadOrder_def)
  from f have "(getOrderFilePath oid, f) \<in> set (orderFiles w)" by (rule map_of_SomeD)
  with assms(1) have "getOrderFilePath oid = getOrderFilePath (orderId (content f))"
    by (auto simp: orderFilesNamed_def list_all_iff)
  moreover have "orderId order = orderId (content f)"
    by (simp add: o migrateOrderIfNeeded_def Let_def)
  ultimately show ?thesis by simp
qed

lemma storesAtMost_named: "storesAtMost w w1 \<Longrightarrow> orderFilesNamed w \<Longrightarrow> orderFilesNamed w1"
  unfolding storesAtMost_def
  using orderFilesNamed_cong orderFilesNamed_updateOrder by blast

lemma storesAtMost_same: "orderFiles w1 = orderFiles w \<Longrightarrow> storesAtMost w w1"
  by (simp add: storesAtMost_def)

lemma storesAtMost_update: "orderFiles w2 = orderFiles w \<Longrightarrow> storesAtMost w (updateOrder order w2)"
  unfolding storesAtMost_def by blast

lemma releaseOrderItem_stores:
  "releaseOrderItem oid sellerId bid w = (r, w1) \<Longrightarrow> storesAtMost w w1"
  unfolding releaseOrderItem_def Let_def
  by (auto split: option.splits if_splits simp: storesAtMost_same storesAtMost_update)

lemma cancelOrder_stores:
  "cancelOrder now oid w = (r, w1) \<Longrightarrow> storesAtMost w w1"
  unfolding cancelOrder_def
  by (auto split: option.splits if_splits simp: storesAtMost_same storesAtMost_update)

lemma closeOrder_stores:
  "closeOrder now oid sellerId isAdmin w = (r, w1) \<Longrightarrow> storesAtMost w w1"
  unfolding closeOrder_def Let_def
  by (auto split: option.splits if_splits simp: storesAtMost_same storesAtMost_update)

lemma acceptOrderFull_stores:
  "acceptOrderFull now oid sellerId w = (r, w1) \<Longrightarrow> storesAtMost w w1"
proof -
  assume run: "acceptOrderFull now oid sellerId w = (r, w1)"
  obtain s ws where g: "getSellerById sellerId w = (s, ws)"
    by (cases "getSellerById sellerId w")
  have fs: "orderFiles ws = orderFiles w"
    using getSellerById_result [OF g] by (simp add: onlyReads_files)
  show ?thesis
  proof (cases "getOrderById oid w")
    case None
    with run show ?thesis by (simp add: acceptOrderFull_def storesAtMost_same)
  next
    case (Some order)
    obtain c wc where ch: "acceptOrderFullCheck sellerId (itemClaims order) ws = (c, wc)"
      by (cases "acceptOrderFullCheck sellerId (itemClaims order) ws")
    have fc: "orderFiles wc = orderFiles w"
      using acceptOrderFullCheck_onlyReads [OF ch] fs by (simp add: onlyReads_files)
    show ?thesis
      using run Some g ch fs fc
      by (auto simp: acceptOrderFull_def storesAtMost_same storesAtMost_update
          split: option.splits if_splits)
  qed
qed

lemma claimOrderItems_stores:
  "claimOrderItems now oid sellerId bids w = (r, w1) \<Longrightarrow> storesAtMost w w1"
proof -
  assume run: "claimOrderItems now oid sellerId bids w = (r, w1)"
  obtain s ws where g: "getSellerById sellerId w = (s, ws)"
    by (cases "getSellerById sellerId w")
  have fs: "orderFiles ws = orderFiles w"
    using getSellerById_result [OF g] by (simp add: onlyReads_files)
  show ?thesis
  proof (cases "getOrderById oid w")
    case None
    with run show ?thesis by (simp add: claimOrderItems_def storesAtMost_same)
  next
    case (Some order)
    have loop: "orderFiles wl = orderFiles w"
      if "claimOrderItemsLoop now sellerId d ids (itemClaims order) [] ws = (res, wl)" for d ids res wl
      using claimOrderItemsLoop_onlyReads [OF that] fs by (simp add: onlyReads_files)
    show ?thesis
      using run Some g fs
      by (auto simp: claimOrderItems_def Let_def storesAtMost_same storesAtMost_update
          split: option.splits if_splits prod.splits dest: loop)
  qed
qed

lemma fulfillOrderItem_stores:
  "fulfillOrderItem now oid sellerId bid w = (r, w1) \<Longrightarrow> storesAtMost w w1"
proof -
  assume run: "fulfillOrderItem now oid sellerId bid w = (r, w1)"
  obtain q wq where g: "getSellerBlueprintQuantity sellerId bid w = (q, wq)"
    by (cases "getSellerBlueprintQuantity sellerId bid w")
  have fq: "orderFiles wq = orderFiles w"
    using getSellerBlueprintQuantity_onlyReads [OF g] by (simp add: onlyReads_files)
  have fu: "orderFiles wu = orderFiles w"
    if "updateSellerInventoryItem now sellerId bid n wq = (ok, wu)" for n ok wu
    using updateSellerInventoryItem_orderFiles [OF that] fq by simp
  show ?thesis
    using run g fq
    by (auto simp: fulfillOrderItem_def storesAtMost_same storesAtMost_update
        split: option.splits if_splits prod.splits dest: fu)
qed

lemma fulfillAllClaimedItems_stores:
  "fulfillAllClaimedItems now oid sellerId w = (r, w1) \<Longrightarrow> storesAtMost w w1"
proof (cases "getOrderById oid w")
  assume run: "fulfillAllClaimedItems now oid sellerId w = (r, w1)"
  case None
  with run show ?thesis by (simp add: fulfillAllClaimedItems_def storesAtMost_same)
next
  assume run: "fulfillAllClaimedItems now oid sellerId w = (r, w1)"
  case (Some order)
  obtain c wc where ch: "fulfillAllCheck sellerId (filter (isClaimedBy sellerId) (itemClaims order)) w = (c, wc)"
    by (cases "fulfillAllCheck sellerId (filter (isClaimedBy sellerId) (itemClaims order)) w")
  have fc: "orderFiles wc = orderFiles w"
    using fulfillAllCheck_onlyReads [OF ch] by (simp add: onlyReads_files)
  obtain p wp where pass: "fulfillAllPass now sellerId (itemClaims order) wc = (p, wp)"
    by (cases "fulfillAllPass now sellerId (itemClaims order) wc")
  have fp: "orderFiles wp = orderFiles w"
    using fulfillAllPass_orderFiles [OF pass] fc by simp
  show ?thesis
    using run Some ch fc pass fp
    by (auto simp: fulfillAllClaimedItems_def Let_def storesAtMost_same storesAtMost_update
        split: option.splits if_splits sum.splits)
qed

text \<open>
  Every claim operation keeps the order files named after their orders, so the
  hypothesis on the order file in the theorem about fulfilling twice holds in every
  store that \<open>saveOrder\<close> and the operations have built.
\<close>

lemma operations_keep_names:
  assumes "orderFilesNamed w"
  shows "orderFilesNamed (snd (acceptOrderFull now oid sellerId w))"
    and "orderFilesNamed (snd (claimOrderItems now oid sellerId blueprintIds w))"
    and "orderFilesNamed (snd (fulfillOrderItem now oid sellerId bid w))"
    and "orderFilesNamed (snd (fulfillAllClaimedItems now oid sellerId w))"
    and "orderFilesNamed (snd (releaseOrderItem oid sellerId bid w))"
    and "orderFilesNamed (snd (closeOrder now oid sellerId isAdmin w))"
    and "orderFilesNamed (snd (cancelOrder now oid w))"
proof -
  show "orderFilesNamed (snd (acceptOrderFull now oid sellerId w))"
    by (rule storesAtMost_named [OF acceptOrderFull_stores [OF prod.collapse [symmetric]] assms])
  show "orderFilesNamed (snd (claimOrderItems now oid sellerId blueprintIds w))"
    by (rule storesAtMost_named [OF claimOrderItems_stores [OF prod.collapse [symmetric]] assms])
  show "orderFilesNamed (snd (fulfillOrderItem now oid sellerId bid w))"
    by (rule storesAtMost_named [OF fulfillOrderItem_stores [OF prod.collapse [symmetric]] assms])
  show "orderFilesNamed (snd (fulfillAllClaimedItems now oid sellerId w))"
    by (rule storesAtMost_named [OF fulfillAllClaimedItems_stores [OF prod.collapse [symmetric]] assms])
  show "orderFilesNamed (snd (releaseOrderItem oid sellerId bid w))"
    by (rule storesAtMost_named [OF releaseOrderItem_stores [OF prod.collapse [symmetric]] assms])
  show "orderFilesNamed (snd (closeOrder now oid sellerId isAdmin w))"
    by (rule storesAtMost_named [OF closeOrder_stores [OF prod.collapse [symmetric]] assms])
  show "orderFilesNamed (snd (cancelOrder now oid w))"
    by (rule storesAtMost_named [OF cancelOrder_stores [OF prod.collapse [symmetric]] assms])
qed

text \<open>
  Every file that the code has written is its own JSON image: its numbers are finite or
  \<open>null\<close>.  So the inventories and orders that the operations read back satisfy the
  condition under which a write leaves the other entries exactly as they were.
\<close>

lemma written_inventory_clean:
  "\<forall>i \<in> set (inventory (jsonSeller seller)). jsonNumber (quantity i) = quantity i"
  by (simp add: jsonSeller_def jsonInventoryItem_def jsonNumber_idem)

lemma jsonSeller_idem: "jsonSeller (jsonSeller seller) = jsonSeller seller"
  by (simp add: jsonSeller_def jsonInventoryItem_def jsonNumber_idem)

lemma jsonOrder_idem: "jsonOrder (jsonOrder order) = jsonOrder order"
  by (simp add: jsonOrder_def jsonGroup_def jsonGroupItem_def jsonItemClaim_def jsonNumber_idem
      option.map_comp comp_def)

lemma updateSellerInventoryItem_writes_clean:
  assumes "updateSellerInventoryItem now sellerId bid qty w = (True, w1)"
    and "map_of (sellerFiles w1) sellerId = Some seller1"
  shows "\<forall>i \<in> set (inventory seller1). jsonNumber (quantity i) = quantity i"
proof -
  from assms(1) obtain seller w0 where "w1 = safeWriteSeller sellerId seller w0"
    by (auto simp: updateSellerInventoryItem_def split: prod.splits option.splits)
  with assms(2) have "seller1 = jsonSeller seller"
    by (simp add: safeWriteSeller_def update_conv')
  then show ?thesis by (simp add: written_inventory_clean)
qed

end
